(* ===== verification/Prelude.thy ===== *)
theory Prelude
  imports Complex_Main "HOL-Library.Char_ord" "HOL-Library.List_Lexorder"
    "HOL-Library.Product_Lexorder"
begin

text \<open>
  Shared vocabulary of the development: the error-propagating sequencing of Python statements
  (\<open>ebind\<close>, \<open>ensure\<close>, \<open>emapM\<close>), the list lemmas about keyed rows that the
  table model uses, and the collections of hints.
\<close>

named_theorems table_simps \<open>rewrite rules about rows of the SQL tables\<close>
named_theorems op_defs \<open>definitions of the operations on the catalog\<close>

section \<open>Statements that may raise\<close>

text \<open>A Python statement is a value of \<open>'e + 'a\<close>: \<open>Inl e\<close> when it raises \<open>e\<close>.\<close>

definition ebind :: "'e + 'a \<Rightarrow> ('a \<Rightarrow> 'e + 'b) \<Rightarrow> 'e + 'b" where
  "ebind m f = (case m of Inl e \<Rightarrow> Inl e | Inr x \<Rightarrow> f x)"

definition ensure :: "bool \<Rightarrow> 'e \<Rightarrow> 'e + unit" where
  "ensure b e = (if b then Inr () else Inl e)"

fun emapM :: "('a \<Rightarrow> 'e + 'b) \<Rightarrow> 'a list \<Rightarrow> 'e + 'b list" where
  "emapM f [] = Inr []"
| "emapM f (x # xs) = ebind (f x) (\<lambda>y. ebind (emapM f xs) (\<lambda>ys. Inr (y # ys)))"

lemma ebind_simps [simp]: "ebind (Inl e) f = Inl e" "ebind (Inr x) f = f x"
  by (simp_all add: ebind_def)

lemma ebind_eq_Inr [simp]: "(ebind m f = Inr y) = (\<exists>x. m = Inr x \<and> f x = Inr y)"
  by (cases m) auto

lemma ebind_eq_Inl: "(ebind m f = Inl e) = (m = Inl e \<or> (\<exists>x. m = Inr x \<and> f x = Inl e))"
  by (cases m) auto

lemma ebind_assoc: "ebind (ebind m f) g = ebind m (\<lambda>x. ebind (f x) g)"
  by (cases m) auto

lemma ebind_cong [fundef_cong]:
  "m = m' \<Longrightarrow> (\<And>x. m' = Inr x \<Longrightarrow> f x = g x) \<Longrightarrow> ebind m f = ebind m' g"
  by (cases m') auto

lemma ensure_eq_Inr [simp]: "(ensure b e = Inr u) = b"
  by (simp add: ensure_def)

lemma ensure_eq_Inl [simp]: "(ensure b e = Inl e') = (\<not> b \<and> e' = e)"
  by (auto simp: ensure_def)

lemma ensure_True [simp]: "ensure True e = Inr ()"
  by (simp add: ensure_def)

lemma ensure_False [simp]: "ensure False e = Inl e"
  by (simp add: ensure_def)

lemma emapM_eq_Inr: "(emapM f xs = Inr ys) = list_all2 (\<lambda>x y. f x = Inr y) xs ys"
  by (induction xs arbitrary: ys) (auto simp: list_all2_Cons1)

lemma list_all2_image: "list_all2 (\<lambda>x y. x = g y \<and> P y) xs ys = (xs = map g ys \<and> list_all P ys)"
  by (induction ys arbitrary: xs) (auto simp: list_all2_Cons2)

lemma emapM_length: "emapM f xs = Inr ys \<Longrightarrow> length ys = length xs"
  by (auto simp: emapM_eq_Inr dest: list_all2_lengthD)

lemma emapM_Inr_map: "(\<And>x. x \<in> set xs \<Longrightarrow> f x = Inr (g x)) \<Longrightarrow> emapM f xs = Inr (map g xs)"
  by (induction xs) auto

lemma emapM_ident: "(\<And>x. x \<in> set xs \<Longrightarrow> f x = Inr x) \<Longrightarrow> emapM f xs = Inr xs"
  by (induction xs) auto

section \<open>Rows with a key\<close>

text \<open>\<open>SELECT ... WHERE key=?\<close> on a table whose key is unique.\<close>

definition row_with :: "('r \<Rightarrow> 'k) \<Rightarrow> 'k \<Rightarrow> 'r list \<Rightarrow> 'r option" where
  "row_with key k rows = find (\<lambda>r. key r = k) rows"

lemma row_with_Nil [simp]: "row_with key k [] = None"
  by (simp add: row_with_def)

lemma row_with_Cons [simp]:
  "row_with key k (r # rows) = (if key r = k then Some r else row_with key k rows)"
  by (simp add: row_with_def)

lemma row_with_SomeD: "row_with key k rows = Some r \<Longrightarrow> r \<in> set rows \<and> key r = k"
  by (induction rows) (auto split: if_splits)

lemma row_with_None [table_simps]: "(row_with key k rows = None) = (k \<notin> key ` set rows)"
  by (induction rows) auto

lemma row_with_Some [table_simps]:
  "distinct (map key rows) \<Longrightarrow> (row_with key k rows = Some r) = (r \<in> set rows \<and> key r = k)"
  by (induction rows) (auto simp: rev_image_eqI)

lemma row_with_append [table_simps]:
  "row_with key k (rows @ rows') =
     (case row_with key k rows of None \<Rightarrow> row_with key k rows' | Some r \<Rightarrow> Some r)"
  by (induction rows) auto

lemma row_with_filter_other:
  "(\<And>r. key r = k \<Longrightarrow> P r) \<Longrightarrow> row_with key k (filter P rows) = row_with key k rows"
  by (induction rows) auto

lemma distinct_map_append1: "distinct (map f (xs @ [x])) = (distinct (map f xs) \<and> f x \<notin> f ` set xs)"
  by auto

lemma distinct_map_inj: "distinct (map f xs) \<Longrightarrow> x \<in> set xs \<Longrightarrow> y \<in> set xs \<Longrightarrow> f x = f y \<Longrightarrow> x = y"
  by (auto simp: distinct_map dest: inj_onD)

end
