(* ===== verification/Errors.thy ===== *)
theory Errors
  imports Prelude
begin

text \<open>
  The exception classes of \<^verbatim>\<open>errors.py\<close> (and the two of \<^verbatim>\<open>handlers.py\<close>),
  their inheritance, and the exceptions of Python and of \<^verbatim>\<open>sqlite3\<close> that the
  library meets.
\<close>

section \<open>The class hierarchy\<close>

datatype error_kind =
    MeldStoreError | ValidationError | SchemaConflictError | ConstraintError | BusyError
  | TransactionError | TransactionOutcomeError | CommitError | RollbackError
  | NotFoundError | ConflictError | IntegrityError | StorageError
  | UnsupportedHandlerError | MissingDependencyError
  | PyException | PyValueError | PyTypeError | PyIndexError | PyKeyError

text \<open>The bases in the class statements, in their order.\<close>

fun bases :: "error_kind \<Rightarrow> error_kind list" where
  "bases MeldStoreError = [PyException]"
| "bases ValidationError = [MeldStoreError, PyValueError]"
| "bases SchemaConflictError = [ValidationError]"
| "bases ConstraintError = [MeldStoreError]"
| "bases BusyError = [MeldStoreError]"
| "bases TransactionError = [MeldStoreError]"
| "bases TransactionOutcomeError = [TransactionError]"
| "bases CommitError = [TransactionOutcomeError]"
| "bases RollbackError = [TransactionOutcomeError]"
| "bases NotFoundError = [MeldStoreError]"
| "bases ConflictError = [MeldStoreError]"
| "bases IntegrityError = [MeldStoreError]"
| "bases StorageError = [MeldStoreError]"
| "bases UnsupportedHandlerError = [MeldStoreError]"
| "bases MissingDependencyError = [MeldStoreError]"
| "bases PyException = []"
| "bases PyValueError = [PyException]"
| "bases PyTypeError = [PyException]"
| "bases PyIndexError = [PyException]"
| "bases PyKeyError = [PyException]"

text \<open>\<open>issubclass\<close>: the hierarchy is at most five classes deep below \<open>Exception\<close>.\<close>

fun issubclass_within :: "nat \<Rightarrow> error_kind \<Rightarrow> error_kind \<Rightarrow> bool" where
  "issubclass_within 0 k c = (k = c)"
| "issubclass_within (Suc n) k c = (k = c \<or> (\<exists>b \<in> set (bases k). issubclass_within n b c))"

definition issubclass :: "error_kind \<Rightarrow> error_kind \<Rightarrow> bool" where
  "issubclass = issubclass_within 6"

lemma issubclass_code:
  "issubclass k c = (k = c \<or> (\<exists>b \<in> set (bases k). issubclass b c))"
  by (cases k) (auto simp: issubclass_def eval_nat_numeral)

section \<open>Raised errors\<close>

text \<open>An error is its class and its message; values interpolated into a message are left out.\<close>

datatype error = Err (kind_of: error_kind) (message_of: string)

type_synonym 'a res = "error + 'a"

definition raise :: "error_kind \<Rightarrow> string \<Rightarrow> 'a res" where
  "raise k msg = Inl (Err k msg)"

definition require :: "bool \<Rightarrow> error_kind \<Rightarrow> string \<Rightarrow> unit res" where
  "require b k msg = ensure b (Err k msg)"

definition raises :: "'a res \<Rightarrow> error_kind \<Rightarrow> bool" where
  "raises r k = (case r of Inl e \<Rightarrow> kind_of e = k | Inr _ \<Rightarrow> False)"

lemma raise_not_Inr [simp]: "(raise k msg = Inr x) = False"
  by (simp add: raise_def)

lemma raise_eq_Inl [simp]: "(raise k msg = Inl e) = (e = Err k msg)"
  by (auto simp: raise_def)

lemma ebind_raise [simp]: "ebind (raise k msg) f = raise k msg"
  by (simp add: raise_def)

lemma require_eq_Inr [simp]: "(require b k msg = Inr u) = b"
  by (simp add: require_def)

lemma require_eq_Inl [simp]: "(require b k msg = Inl e) = (\<not> b \<and> e = Err k msg)"
  by (auto simp: require_def)

lemma require_True [simp]: "require True k msg = Inr ()"
  by (simp add: require_def)

lemma require_False [simp]: "require False k msg = raise k msg"
  by (simp add: require_def raise_def)

lemma raises_simps [simp]:
  "raises (Inl e) k = (kind_of e = k)" "raises (Inr x) k = False"
  "raises (raise k' msg) k = (k' = k)"
  by (simp_all add: raises_def raise_def)

lemma raises_ebind [simp]:
  "raises (ebind m f) k = (raises m k \<or> (\<exists>x. m = Inr x \<and> raises (f x) k))"
  by (cases m) auto

lemma raises_require [simp]: "raises (require b k' msg) k = (\<not> b \<and> k' = k)"
  by (cases b) auto

lemma not_Inl_conv: "(\<forall>e. r \<noteq> Inl e) = (\<exists>x. r = Inr x)"
  by (cases r) auto

end
