(* ===== verification/PyText.thy ===== *)
theory PyText
  imports Errors
begin

text \<open>
  Text as the code handles it. A Python \<open>str\<close> is represented by its UTF-8 bytes (a
  \<open>string\<close>), the form in which SQLite stores and compares it and in which the code measures
  it; UTF-8 order is code point order, so Python's \<open>sorted\<close> agrees. The theory holds the
  hexadecimal and decimal renderings, ASCII case folding, and SQL quoting with the reading that
  SQLite's tokenizer gives a quoted token.
\<close>

section \<open>Digits\<close>

definition hex_digit :: "nat \<Rightarrow> char" where
  "hex_digit n = ''0123456789abcdef'' ! n"

text \<open>\<open>bytes.hex()\<close>\<close>

definition hex :: "string \<Rightarrow> string" where
  "hex s = concat (map (\<lambda>c. [hex_digit (of_char c div 16), hex_digit (of_char c mod 16)]) s)"

definition dec_digit :: "nat \<Rightarrow> char" where
  "dec_digit n = ''0123456789'' ! n"

text \<open>\<open>str(n)\<close> of a nonnegative integer, and the fixed-width rendering of \<open>isoformat\<close>.\<close>

fun dec :: "nat \<Rightarrow> string" where
  "dec n = (if n < 10 then [dec_digit n] else dec (n div 10) @ [dec_digit (n mod 10)])"

declare dec.simps [simp del]

fun padded :: "nat \<Rightarrow> nat \<Rightarrow> string" where
  "padded 0 n = []"
| "padded (Suc k) n = padded k (n div 10) @ [dec_digit (n mod 10)]"

definition digit_val :: "char \<Rightarrow> nat" where
  "digit_val c = of_char c - 48"

definition is_digit :: "char \<Rightarrow> bool" where
  "is_digit c = (CHR ''0'' \<le> c \<and> c \<le> CHR ''9'')"

definition undec :: "string \<Rightarrow> nat" where
  "undec s = foldl (\<lambda>a c. a * 10 + digit_val c) 0 s"

definition is_hex_digit :: "char \<Rightarrow> bool" where
  "is_hex_digit c = (c \<in> set ''0123456789abcdef'')"

lemma less_10_cases: "(n::nat) < 10 \<Longrightarrow> n \<in> {0,1,2,3,4,5,6,7,8,9}"
  by auto

lemma less_16_cases: "(n::nat) < 16 \<Longrightarrow> n \<in> {0,1,2,3,4,5,6,7,8,9,10,11,12,13,14,15}"
  by (simp only: insert_iff empty_iff) presburger

lemma digit_val_dec_digit [simp]: "n < 10 \<Longrightarrow> digit_val (dec_digit n) = n"
  by (drule less_10_cases) (auto simp: dec_digit_def digit_val_def)

lemma is_digit_dec_digit [simp]: "n < 10 \<Longrightarrow> is_digit (dec_digit n)"
  by (drule less_10_cases) (auto simp: dec_digit_def is_digit_def less_eq_char_def)

lemma of_char_dec_digit: "n < 10 \<Longrightarrow> of_char (dec_digit n) = (48 + n :: nat)"
  by (drule less_10_cases) (auto simp: dec_digit_def)

lemma dec_digit_less: "a < 10 \<Longrightarrow> b < 10 \<Longrightarrow> (dec_digit a < dec_digit b) = (a < b)"
  by (simp add: less_char_def of_char_dec_digit)

lemma dec_digit_inj: "a < 10 \<Longrightarrow> b < 10 \<Longrightarrow> (dec_digit a = dec_digit b) = (a = b)"
  by (metis digit_val_dec_digit)

lemma undec_snoc [simp]: "undec (s @ [c]) = undec s * 10 + digit_val c"
  by (simp add: undec_def)

lemma undec_dec [simp]: "undec (dec n) = n"
proof (induction n rule: dec.induct)
  case (1 n)
  then show ?case
    by (cases "n < 10") (simp_all add: dec.simps [of n], simp add: undec_def)
qed

lemma dec_inj [simp]: "(dec m = dec n) = (m = n)"
  by (metis undec_dec)

lemma dec_digits: "c \<in> set (dec n) \<Longrightarrow> is_digit c"
proof (induction n rule: dec.induct)
  case (1 n)
  then show ?case
    by (cases "n < 10") (auto simp: dec.simps [of n])
qed

lemma length_padded [simp]: "length (padded k n) = k"
  by (induction k arbitrary: n) auto

lemma undec_padded: "n < 10 ^ k \<Longrightarrow> undec (padded k n) = n"
proof (induction k arbitrary: n)
  case (Suc k)
  then have "n div 10 < 10 ^ k" by (simp add: less_mult_imp_div_less)
  with Suc.IH show ?case by simp
qed (simp add: undec_def)

lemma padded_digits: "c \<in> set (padded k n) \<Longrightarrow> is_digit c"
  by (induction k arbitrary: n) auto

lemma padded_inj: "a < 10 ^ k \<Longrightarrow> b < 10 ^ k \<Longrightarrow> (padded k a = padded k b) = (a = b)"
  by (metis undec_padded)

section \<open>Lexicographic order of equally long prefixes\<close>

lemma less_append_same_length:
  "length xs = length ys \<Longrightarrow> (xs @ us < ys @ vs) = (xs < ys \<or> xs = ys \<and> us < (vs :: 'a::linorder list))"
  by (induction xs ys rule: list_induct2) auto

lemma div_mod_10_less:
  "(a div 10 < b div 10 \<or> a div 10 = b div 10 \<and> a mod 10 < b mod 10) = (a < (b::nat))"
proof -
  obtain qa ra qb rb where q: "qa = a div 10" "qb = b div 10" "ra = a mod 10" "rb = b mod 10"
    by blast
  then have "a = 10 * qa + ra" "b = 10 * qb + rb" "ra < 10" "rb < 10" by simp_all
  then show ?thesis unfolding q [symmetric] by linarith
qed

lemma padded_less:
  "a < 10 ^ k \<Longrightarrow> b < 10 ^ k \<Longrightarrow> (padded k a < padded k b) = (a < b)"
proof (induction k arbitrary: a b)
  case (Suc k)
  then have hi: "a div 10 < 10 ^ k" "b div 10 < 10 ^ k"
    by (simp_all add: less_mult_imp_div_less)
  have lo: "a mod 10 < 10" "b mod 10 < 10" by simp_all
  have "(padded (Suc k) a < padded (Suc k) b)
      = (a div 10 < b div 10 \<or> a div 10 = b div 10 \<and> a mod 10 < b mod 10)"
    using Suc.IH [OF hi] padded_inj [OF hi]
    by (simp add: less_append_same_length dec_digit_less [OF lo])
  also have "\<dots> = (a < b)" by (rule div_mod_10_less)
  finally show ?case .
qed simp

section \<open>Hexadecimal names\<close>

lemma of_char_less [simp]: "(of_char c :: nat) < 256"
  by simp

lemma hex_digit_inj: "a < 16 \<Longrightarrow> b < 16 \<Longrightarrow> (hex_digit a = hex_digit b) = (a = b)"
  by (simp add: hex_digit_def nth_eq_iff_index_eq)

lemma hex_digit_in: "a < 16 \<Longrightarrow> is_hex_digit (hex_digit a)"
  by (drule less_16_cases) (auto simp: hex_digit_def is_hex_digit_def)

lemma hex_Nil [simp]: "hex [] = []"
  by (simp add: hex_def)

lemma hex_Cons [simp]:
  "hex (c # s) = hex_digit (of_char c div 16) # hex_digit (of_char c mod 16) # hex s"
  by (simp add: hex_def)

lemma length_hex [simp]: "length (hex s) = 2 * length s"
  by (induction s) auto

lemma of_char_div_16: "(of_char c :: nat) div 16 < 16"
  using of_char_less [of c] by linarith

lemma hex_inj [simp]: "(hex s = hex t) = (s = t)"
proof (induction s arbitrary: t)
  case Nil
  then show ?case by (cases t) auto
next
  case (Cons c s)
  show ?case
  proof (cases t)
    case Nil
    then show ?thesis by simp
  next
    case (Cons d u)
    have "(of_char c :: nat) = of_char d" if "(of_char c :: nat) div 16 = of_char d div 16"
      and "(of_char c :: nat) mod 16 = of_char d mod 16"
      using that by (metis div_mod_decomp)
    with Cons show ?thesis
      by (auto simp: Cons.IH hex_digit_inj of_char_div_16)
  qed
qed

lemma hex_chars: "c \<in> set (hex s) \<Longrightarrow> is_hex_digit c"
  by (induction s) (auto simp: hex_digit_in of_char_div_16)

section \<open>ASCII case folding and prefixes\<close>

definition lower_char :: "char \<Rightarrow> char" where
  "lower_char c =
     (if CHR ''A'' \<le> c \<and> c \<le> CHR ''Z'' then char_of (of_char c + 32 :: nat) else c)"

definition upper_char :: "char \<Rightarrow> char" where
  "upper_char c =
     (if CHR ''a'' \<le> c \<and> c \<le> CHR ''z'' then char_of (of_char c - 32 :: nat) else c)"

definition ascii_lower :: "string \<Rightarrow> string" where
  "ascii_lower = map lower_char"

definition ascii_upper :: "string \<Rightarrow> string" where
  "ascii_upper = map upper_char"

definition starts_with :: "string \<Rightarrow> string \<Rightarrow> bool" where
  "starts_with p s = (take (length p) s = p)"

lemma starts_with_append [simp]: "starts_with p (p @ s)"
  by (simp add: starts_with_def)

lemma starts_with_iff: "starts_with p s = (\<exists>t. s = p @ t)"
  unfolding starts_with_def by (metis append_eq_conv_conj append_take_drop_id)

section \<open>SQL quoting\<close>

text \<open>\<open>s.replace(q, q + q)\<close> for a one-character \<open>q\<close>, between two \<open>q\<close>.\<close>

fun doubled :: "char \<Rightarrow> string \<Rightarrow> string" where
  "doubled q [] = []"
| "doubled q (c # s) = (if c = q then q # q # doubled q s else c # doubled q s)"

definition quoted :: "char \<Rightarrow> string \<Rightarrow> string" where
  "quoted q s = q # doubled q s @ [q]"

text \<open>
  How SQLite's tokenizer reads a quoted token after its opening quote: a doubled quote is one
  quote, a single one ends the token. The result is the token's text and the remaining input;
  \<open>None\<close> is an unterminated token.
\<close>

fun read_quoted :: "char \<Rightarrow> string \<Rightarrow> (string \<times> string) option" where
  "read_quoted q [] = None"
| "read_quoted q [c] = (if c = q then Some ([], []) else None)"
| "read_quoted q (c # d # s) =
     (if c = q
      then (if d = q then map_option (\<lambda>(t, r). (q # t, r)) (read_quoted q s) else Some ([], d # s))
      else map_option (\<lambda>(t, r). (c # t, r)) (read_quoted q (d # s)))"

lemma read_quoted_other:
  "c \<noteq> q \<Longrightarrow> s \<noteq> [] \<Longrightarrow>
   read_quoted q (c # s) = map_option (\<lambda>(t, r). (c # t, r)) (read_quoted q s)"
  by (cases s) auto

lemma read_quoted_end: "(rest = [] \<or> hd rest \<noteq> q) \<Longrightarrow> read_quoted q (q # rest) = Some ([], rest)"
  by (cases rest) auto

lemma read_quoted_doubled:
  "rest = [] \<or> hd rest \<noteq> q \<Longrightarrow> read_quoted q (doubled q s @ q # rest) = Some (s, rest)"
  by (induction s) (auto simp: read_quoted_end read_quoted_other)

end
