(* ===== verification/Datetimes.thy ===== *)
theory Datetimes
  imports PyText
begin

text \<open>
  The part of Python's \<^verbatim>\<open>datetime\<close> that timestamps use: the proleptic Gregorian
  ordinal, \<open>astimezone(timezone.utc)\<close> with its range check, \<open>isoformat\<close> with
  microseconds and the final \<open>Z\<close>, and reading that form back. The lemmas show that the
  text form is injective and that its order is the order of the instants.
\<close>

section \<open>Datetimes and the calendar\<close>

record datetime =
  dt_year :: int
  dt_month :: int
  dt_day :: int
  dt_hour :: int
  dt_minute :: int
  dt_second :: int
  dt_microsecond :: int
  dt_utcoffset :: "int option"  \<comment> \<open>in microseconds; \<open>None\<close> is a naive datetime\<close>

definition is_leap :: "int \<Rightarrow> bool" where
  "is_leap y = (y mod 4 = 0 \<and> (y mod 100 \<noteq> 0 \<or> y mod 400 = 0))"

definition days_before_year :: "int \<Rightarrow> int" where
  "days_before_year y = 365 * (y - 1) + (y - 1) div 4 - (y - 1) div 100 + (y - 1) div 400"

fun days_before_month :: "bool \<Rightarrow> int \<Rightarrow> int" where
  "days_before_month leap m =
     (if m \<le> 1 then 0 else if m = 2 then 31 else
      (if leap then 1 else 0) +
      (if m = 3 then 59 else if m = 4 then 90 else if m = 5 then 120 else if m = 6 then 151
       else if m = 7 then 181 else if m = 8 then 212 else if m = 9 then 243 else if m = 10 then 273
       else if m = 11 then 304 else if m = 12 then 334 else 365))"

definition days_in_month :: "int \<Rightarrow> int \<Rightarrow> int" where
  "days_in_month y m = days_before_month (is_leap y) (m + 1) - days_before_month (is_leap y) m"

definition ymd2ord :: "int \<Rightarrow> int \<Rightarrow> int \<Rightarrow> int" where
  "ymd2ord y m d = days_before_year y + days_before_month (is_leap y) m + d"

definition valid_date :: "int \<Rightarrow> int \<Rightarrow> int \<Rightarrow> bool" where
  "valid_date y m d = (1 \<le> y \<and> y \<le> 9999 \<and> 1 \<le> m \<and> m \<le> 12 \<and> 1 \<le> d \<and> d \<le> days_in_month y m)"

definition valid_datetime :: "datetime \<Rightarrow> bool" where
  "valid_datetime t =
     (valid_date (dt_year t) (dt_month t) (dt_day t) \<and> 0 \<le> dt_hour t \<and> dt_hour t < 24 \<and>
      0 \<le> dt_minute t \<and> dt_minute t < 60 \<and> 0 \<le> dt_second t \<and> dt_second t < 60 \<and>
      0 \<le> dt_microsecond t \<and> dt_microsecond t < 1000000)"

text \<open>
  The inverse of \<open>ymd2ord\<close>: the year is guessed from the mean length of a year and
  corrected by at most one, the month is the last one that starts before the day.
\<close>

definition year_of_ord :: "int \<Rightarrow> int" where
  "year_of_ord n =
     (let y = (n * 400) div 146097 + 1
      in if n \<le> days_before_year y then y - 1
         else if days_before_year (y + 1) < n then y + 1 else y)"

definition month_of_day :: "bool \<Rightarrow> int \<Rightarrow> int" where
  "month_of_day leap k =
     (if k \<le> days_before_month leap 2 then 1 else if k \<le> days_before_month leap 3 then 2
      else if k \<le> days_before_month leap 4 then 3 else if k \<le> days_before_month leap 5 then 4
      else if k \<le> days_before_month leap 6 then 5 else if k \<le> days_before_month leap 7 then 6
      else if k \<le> days_before_month leap 8 then 7 else if k \<le> days_before_month leap 9 then 8
      else if k \<le> days_before_month leap 10 then 9 else if k \<le> days_before_month leap 11 then 10
      else if k \<le> days_before_month leap 12 then 11 else 12)"

definition ord2ymd :: "int \<Rightarrow> int \<times> int \<times> int" where
  "ord2ymd n =
     (let y = year_of_ord n; k = n - days_before_year y; m = month_of_day (is_leap y) k
      in (y, m, k - days_before_month (is_leap y) m))"

section \<open>Conversion to UTC\<close>

definition day_us :: int where
  "day_us = 86400000000"

text \<open>Microseconds of the local clock reading since the day before 1 January of year 1.\<close>

definition clock_us :: "datetime \<Rightarrow> int" where
  "clock_us t =
     (((ymd2ord (dt_year t) (dt_month t) (dt_day t) * 24 + dt_hour t) * 60 + dt_minute t) * 60
       + dt_second t) * 1000000 + dt_microsecond t"

definition of_clock_us :: "int \<Rightarrow> datetime" where
  "of_clock_us u =
     (let secs = u div 1000000; mins = secs div 60; hours = mins div 60;
          (y, m, d) = ord2ymd (hours div 24)
      in \<lparr> dt_year = y, dt_month = m, dt_day = d, dt_hour = hours mod 24,
           dt_minute = mins mod 60, dt_second = secs mod 60, dt_microsecond = u mod 1000000,
           dt_utcoffset = Some 0 \<rparr>)"

text \<open>The instants whose UTC date is in the years 1 to 9999.\<close>

definition utc_in_range :: "int \<Rightarrow> bool" where
  "utc_in_range u = (day_us \<le> u \<and> u < 3652060 * day_us)"

text \<open>\<open>value.astimezone(timezone.utc)\<close>; \<open>None\<close> is the \<open>OverflowError\<close>.\<close>

definition astimezone_utc :: "datetime \<Rightarrow> int \<Rightarrow> datetime option" where
  "astimezone_utc t off =
     (let u = clock_us t - off in if utc_in_range u then Some (of_clock_us u) else None)"

text \<open>\<open>isoformat(timespec="microseconds").replace("+00:00", "Z")\<close> of a UTC datetime.\<close>

definition isoformat_utc :: "datetime \<Rightarrow> string" where
  "isoformat_utc t =
     padded 4 (nat (dt_year t)) @ ''-'' @ padded 2 (nat (dt_month t)) @ ''-'' @
     padded 2 (nat (dt_day t)) @ ''T'' @ padded 2 (nat (dt_hour t)) @ '':'' @
     padded 2 (nat (dt_minute t)) @ '':'' @ padded 2 (nat (dt_second t)) @ ''.'' @
     padded 6 (nat (dt_microsecond t)) @ ''Z''"

text \<open>
  \<open>datetime.fromisoformat\<close> on the form that \<open>isoformat_utc\<close> writes; other forms, and
  fields out of range, are \<open>None\<close>.
\<close>

definition utc_form :: "string \<Rightarrow> bool" where
  "utc_form s =
     (length s = 27 \<and> list_all is_digit (take 4 s) \<and> s ! 4 = CHR ''-'' \<and>
      list_all is_digit (take 2 (drop 5 s)) \<and> s ! 7 = CHR ''-'' \<and>
      list_all is_digit (take 2 (drop 8 s)) \<and> s ! 10 = CHR ''T'' \<and>
      list_all is_digit (take 2 (drop 11 s)) \<and> s ! 13 = CHR '':'' \<and>
      list_all is_digit (take 2 (drop 14 s)) \<and> s ! 16 = CHR '':'' \<and>
      list_all is_digit (take 2 (drop 17 s)) \<and> s ! 19 = CHR ''.'' \<and>
      list_all is_digit (take 6 (drop 20 s)) \<and> s ! 26 = CHR ''Z'')"

definition fromisoformat :: "string \<Rightarrow> datetime option" where
  "fromisoformat s =
     (let t = \<lparr> dt_year = int (undec (take 4 s)), dt_month = int (undec (take 2 (drop 5 s))),
                dt_day = int (undec (take 2 (drop 8 s))), dt_hour = int (undec (take 2 (drop 11 s))),
                dt_minute = int (undec (take 2 (drop 14 s))),
                dt_second = int (undec (take 2 (drop 17 s))),
                dt_microsecond = int (undec (take 6 (drop 20 s))), dt_utcoffset = Some 0 \<rparr>
      in if utc_form s \<and> valid_datetime t then Some t else None)"

section \<open>The calendar is inverted\<close>

lemma div_step: assumes "0 < (k::int)" shows "y div k = (y - 1) div k + (if y mod k = 0 then 1 else 0)"
proof (cases "y mod k = 0")
  case True
  then obtain q where q: "y = k * q" by (auto elim: dvdE simp: mod_eq_0_iff_dvd)
  have "(y - 1) div k = q - 1"
    by (rule int_div_pos_eq [of _ _ _ "k - 1"]) (use assms q in \<open>auto simp: algebra_simps\<close>)
  with True q assms show ?thesis by simp
next
  case False
  then have r: "0 < y mod k" "y mod k < k" using assms pos_mod_sign [of k y] pos_mod_bound [of k y] by linarith+
  have "(y - 1) div k = y div k"
  proof (rule int_div_pos_eq [of _ _ _ "y mod k - 1"])
    show "y - 1 = k * (y div k) + (y mod k - 1)" by (metis add_diff_eq mult_div_mod_eq)
  qed (use r in auto)
  with False show ?thesis by simp
qed

lemma leap_mods: "(y::int) mod 400 = 0 \<Longrightarrow> y mod 100 = 0" "(y::int) mod 100 = 0 \<Longrightarrow> y mod 4 = 0"
  unfolding mod_eq_0_iff_dvd by (erule dvd_trans [rotated]; simp)+

lemma days_before_next: "days_before_year (y + 1) = 365 * y + y div 4 - y div 100 + y div 400"
  by (simp add: days_before_year_def)

lemma leap_count:
  fixes p q r y :: int
  assumes "P = p + (if A then 1 else 0)" "Q = q + (if B then 1 else 0)" "R = r + (if C then 1 else 0)"
    and "C \<longrightarrow> B" "B \<longrightarrow> A"
  shows "365 * y + P - Q + R = 365 * (y - 1) + p - q + r + (if A \<and> (\<not> B \<or> C) then 366 else 365)"
  using assms by (cases A; cases B; cases C) (simp_all add: algebra_simps)

lemma dby_step: "days_before_year (y + 1) = days_before_year y + (if is_leap y then 366 else 365)"
  unfolding days_before_next unfolding days_before_year_def is_leap_def
  by (rule leap_count; (rule div_step)?) (simp_all add: leap_mods)

lemma year_bounds: assumes "1 \<le> n" shows "days_before_year (year_of_ord n) < n \<and> n \<le> days_before_year (year_of_ord n + 1)"
proof -
  obtain y r where q: "(n * 400) div 146097 = y" "(n * 400) mod 146097 = r" by blast
  have "n * 400 = 146097 * y + r" unfolding q [symmetric] by (rule mult_div_mod_eq [symmetric])
  moreover have "0 \<le> r" "r < 146097" unfolding q [symmetric] by simp_all
  ultimately have y: "146097 * y \<le> 400 * n" "400 * n < 146097 * y + 146097" by linarith+
  obtain a b c where d: "y div 4 = a" "y div 100 = b" "y div 400 = c" by blast
  have m: "4 * a \<le> y" "y < 4 * a + 4" "100 * b \<le> y" "y < 100 * b + 100" "400 * c \<le> y" "y < 400 * c + 400"
    unfolding d [symmetric] by simp_all
  have e: "days_before_year (y + 1) = 365 * y + a - b + c"
    unfolding days_before_next d ..
  have "days_before_year (y+1) - 365 < n" unfolding e using y m by linarith
  moreover have "n \<le> days_before_year (y+1) + 2 * 365" unfolding e using y m by linarith
  moreover have "days_before_year (y + 1) \<le> days_before_year y + 366"
    "days_before_year (y + 1) \<ge> days_before_year y + 365"
    "days_before_year (y + 2) \<ge> days_before_year (y + 1) + 365"
    "days_before_year (y + 3) \<ge> days_before_year (y + 2) + 365"
    using dby_step [of y] dby_step [of "y + 1"] dby_step [of "y + 2"] by (simp_all add: add.commute)
  moreover have "year_of_ord n = (if n \<le> days_before_year (y + 1) then y
      else if days_before_year (y + 2) < n then y + 2 else y + 1)"
    unfolding year_of_ord_def Let_def q by (simp add: add.commute)
  ultimately show ?thesis
    by (cases "n \<le> days_before_year (y + 1)"; cases "days_before_year (y + 2) < n")
      (simp_all add: add.commute)
qed

lemma dbm_step: "days_before_month b m \<le> days_before_month b (m + 1)"
  by (auto split: if_splits)

lemma dbm_mono: "m \<le> m' \<Longrightarrow> days_before_month b m \<le> days_before_month b m'"
proof (induction rule: int_ge_induct)
  case (step i)
  then show ?case using dbm_step [of b i] by linarith
qed simp

lemma month_bounds:
  assumes "1 \<le> k" "k \<le> (if b then 366 else 365)"
  shows "1 \<le> month_of_day b k \<and> month_of_day b k \<le> 12 \<and>
    days_before_month b (month_of_day b k) < k \<and> k \<le> days_before_month b (month_of_day b k + 1)"
  using assms by (cases b) (simp_all add: month_of_day_def)

lemma dby_mono: "y \<le> y' \<Longrightarrow> days_before_year y \<le> days_before_year y'"
proof (induction rule: int_ge_induct)
  case (step i)
  then show ?case using dby_step [of i] by (simp split: if_splits)
qed simp

lemma ord2ymd_correct:
  assumes "1 \<le> n" "n \<le> 3652059"
  shows "case ord2ymd n of (y, m, d) \<Rightarrow> valid_date y m d \<and> ymd2ord y m d = n"
proof -
  define y where "y = year_of_ord n"
  define k where "k = n - days_before_year y"
  define m where "m = month_of_day (is_leap y) k"
  have yb: "days_before_year y < n" "n \<le> days_before_year (y + 1)"
    using year_bounds [OF assms(1)] by (auto simp: y_def)
  then have "1 \<le> k" "k \<le> (if is_leap y then 366 else 365)"
    using dby_step [of y] by (auto simp: k_def)
  note mb = month_bounds [OF this, folded m_def]
  have "1 \<le> y"
  proof (rule ccontr)
    assume "\<not> 1 \<le> y"
    then have "days_before_year (y + 1) \<le> days_before_year 1" by (intro dby_mono) simp
    moreover have "days_before_year 1 = 0" by (simp add: days_before_year_def)
    ultimately show False using yb assms by linarith
  qed
  moreover have "y \<le> 9999"
  proof (rule ccontr)
    assume "\<not> y \<le> 9999"
    then have "days_before_year 10000 \<le> days_before_year y" by (intro dby_mono) simp
    moreover have "days_before_year 10000 = 3652059" by (simp add: days_before_year_def)
    ultimately show False using yb assms by linarith
  qed
  ultimately show ?thesis using mb
    unfolding ord2ymd_def Let_def y_def [symmetric] k_def [symmetric] m_def [symmetric]
    by (simp add: valid_date_def ymd2ord_def days_in_month_def k_def del: days_before_month.simps)
qed

lemma ymd2ord_less:
  assumes "valid_date y m d" "valid_date y' m' d'" "y < y' \<or> y = y' \<and> (m < m' \<or> m = m' \<and> d < d')"
  shows "ymd2ord y m d < ymd2ord y' m' d'"
proof -
  have b: "days_before_month (is_leap y) m + d \<le> (if is_leap y then 366 else 365)"
    using assms(1) dbm_mono [of "m + 1" 13 "is_leap y"]
    by (simp add: valid_date_def days_in_month_def del: days_before_month.simps)
       (simp split: if_splits)
  have nn: "0 \<le> days_before_month (is_leap y') m'" by simp
  show ?thesis
  proof (cases "y < y'")
    case True
    then have "days_before_year (y + 1) \<le> days_before_year y'" by (intro dby_mono) simp
    with b dby_step [of y] nn assms(2) show ?thesis
      by (simp add: ymd2ord_def valid_date_def del: days_before_month.simps)
  next
    case False
    with assms dbm_mono [of "m + 1" m' "is_leap y"] show ?thesis
      by (auto simp: ymd2ord_def valid_date_def days_in_month_def simp del: days_before_month.simps)
  qed
qed

section \<open>Text order is the order of instants\<close>

definition time_key :: "datetime \<Rightarrow> int \<times> int \<times> int \<times> int \<times> int \<times> int \<times> int" where
  "time_key t = (dt_year t, dt_month t, dt_day t, dt_hour t, dt_minute t, dt_second t, dt_microsecond t)"

lemma valid_date_bounds:
  "valid_date y m d \<Longrightarrow> 1 \<le> y \<and> y \<le> 9999 \<and> 1 \<le> m \<and> m \<le> 12 \<and> 1 \<le> d \<and> d \<le> 31"
proof -
  assume v: "valid_date y m d"
  have "days_in_month y m \<le> 31" by (simp add: days_in_month_def)
  with v show ?thesis by (auto simp: valid_date_def)
qed

lemma clock_us_less:
  assumes "valid_datetime t" "valid_datetime t'" "time_key t < time_key t'"
  shows "clock_us t < clock_us t'"
proof -
  let ?o = "ymd2ord (dt_year t) (dt_month t) (dt_day t)" and ?o' = "ymd2ord (dt_year t') (dt_month t') (dt_day t')"
  have v: "valid_date (dt_year t) (dt_month t) (dt_day t)" "valid_date (dt_year t') (dt_month t') (dt_day t')"
    using assms by (simp_all add: valid_datetime_def)
  have b: "0 \<le> dt_hour x \<and> dt_hour x < 24 \<and> 0 \<le> dt_minute x \<and> dt_minute x < 60 \<and>
      0 \<le> dt_second x \<and> dt_second x < 60 \<and> 0 \<le> dt_microsecond x \<and> dt_microsecond x < 1000000"
    if "valid_datetime x" for x using that by (simp add: valid_datetime_def)
  note bs = b [OF assms(1)] b [OF assms(2)]
  have "?o < ?o' \<or> ?o = ?o' \<and> (dt_hour t, dt_minute t, dt_second t, dt_microsecond t)
      < (dt_hour t', dt_minute t', dt_second t', dt_microsecond t')"
    using assms(3) ymd2ord_less [OF v] by (auto simp: time_key_def less_prod_def' simp del: One_nat_def)
  then show ?thesis
    using bs unfolding clock_us_def by (auto simp: less_prod_def')
qed

lemma clock_us_less_iff:
  assumes "valid_datetime t" "valid_datetime t'"
  shows "(time_key t < time_key t') = (clock_us t < clock_us t')"
proof (cases "time_key t" "time_key t'" rule: linorder_cases)
  case equal
  then show ?thesis by (simp add: time_key_def clock_us_def)
qed (use clock_us_less [OF assms] clock_us_less [OF assms(2,1)] in auto)

lemma less_pair: "((a, b) < (c, d)) = (a < c \<or> a = c \<and> b < d)" for a c :: "'a::linorder" and b d :: "'b::linorder"
  by (auto simp: less_prod_def)

lemma padded_less_int:
  "0 \<le> a \<Longrightarrow> a < 10 ^ k \<Longrightarrow> 0 \<le> b \<Longrightarrow> b < 10 ^ k \<Longrightarrow> (padded k (nat a) < padded k (nat b)) = (a < b)"
  "0 \<le> a \<Longrightarrow> a < 10 ^ k \<Longrightarrow> 0 \<le> b \<Longrightarrow> b < 10 ^ k \<Longrightarrow> (padded k (nat a) = padded k (nat b)) = (a = b)"
  by (auto simp add: padded_less padded_inj nat_less_iff eq_nat_nat_iff)

lemma isoformat_utc_less:
  assumes "valid_datetime t" "valid_datetime t'"
  shows "(isoformat_utc t < isoformat_utc t') = (clock_us t < clock_us t')"
proof -
  note b = valid_date_bounds [of "dt_year t" "dt_month t" "dt_day t"]
    valid_date_bounds [of "dt_year t'" "dt_month t'" "dt_day t'"]
  have "(isoformat_utc t < isoformat_utc t') = (time_key t < time_key t')"
    using assms b unfolding isoformat_utc_def time_key_def valid_datetime_def
    by (simp add: less_append_same_length padded_less_int less_pair del: less_prod_simp)
  then show ?thesis by (simp add: clock_us_less_iff [OF assms])
qed

lemma isoformat_utc_inj:
  assumes "valid_datetime t" "valid_datetime t'"
  shows "(isoformat_utc t = isoformat_utc t') = (clock_us t = clock_us t')"
  using isoformat_utc_less [OF assms] isoformat_utc_less [OF assms(2,1)]
  by (metis less_irrefl neqE)

lemma of_clock_us_correct:
  assumes "utc_in_range u"
  shows "valid_datetime (of_clock_us u) \<and> clock_us (of_clock_us u) = u \<and>
    dt_utcoffset (of_clock_us u) = Some 0"
proof -
  define secs where "secs = u div 1000000"
  define mins where "mins = secs div 60"
  define hours where "hours = mins div 60"
  define n where "n = hours div 24"
  have eqs: "u = secs * 1000000 + u mod 1000000" "secs = mins * 60 + secs mod 60"
    "mins = hours * 60 + mins mod 60" "hours = n * 24 + hours mod 24"
    by (simp_all only: secs_def mins_def hours_def n_def div_mult_mod_eq)
  have rng: "0 \<le> u mod 1000000" "u mod 1000000 < 1000000" "0 \<le> secs mod 60" "secs mod 60 < 60"
    "0 \<le> mins mod 60" "mins mod 60 < 60" "0 \<le> hours mod 24" "hours mod 24 < 24"
    by simp_all
  obtain a b c e where abce: "u mod 1000000 = a" "secs mod 60 = b" "mins mod 60 = c" "hours mod 24 = e"
    by blast
  obtain y m d where o: "ord2ymd n = (y, m, d)" by (metis prod_cases3)
  have "1 \<le> n" "n \<le> 3652059"
    using assms eqs rng unfolding abce utc_in_range_def day_us_def by linarith+
  from ord2ymd_correct [OF this] o have v: "valid_date y m d" "ymd2ord y m d = n" by auto
  have t: "of_clock_us u = \<lparr> dt_year = y, dt_month = m, dt_day = d, dt_hour = e,
           dt_minute = c, dt_second = b, dt_microsecond = a, dt_utcoffset = Some 0 \<rparr>"
    unfolding of_clock_us_def Let_def secs_def [symmetric] mins_def [symmetric]
      hours_def [symmetric] n_def [symmetric] o abce by simp
  show ?thesis
    using v eqs rng unfolding t abce
    by (simp add: valid_datetime_def clock_us_def)
qed

lemma list_all_padded [simp]: "list_all is_digit (padded k n)"
  by (auto simp: list_all_iff dest: padded_digits)

lemma utc_form_isoformat: "utc_form (isoformat_utc t)"
  by (simp add: utc_form_def isoformat_utc_def nth_append)

lemma undec_padded_int: "0 \<le> x \<Longrightarrow> x < 10 ^ k \<Longrightarrow> int (undec (padded k (nat x))) = x"
  by (subst undec_padded) (auto simp: nat_less_iff)

lemma fromisoformat_isoformat:
  assumes "valid_datetime t" "dt_utcoffset t = Some 0"
  shows "fromisoformat (isoformat_utc t) = Some t"
proof -
  note b = valid_date_bounds [of "dt_year t" "dt_month t" "dt_day t"]
  have "\<lparr> dt_year = int (undec (take 4 (isoformat_utc t))),
      dt_month = int (undec (take 2 (drop 5 (isoformat_utc t)))),
      dt_day = int (undec (take 2 (drop 8 (isoformat_utc t)))),
      dt_hour = int (undec (take 2 (drop 11 (isoformat_utc t)))),
      dt_minute = int (undec (take 2 (drop 14 (isoformat_utc t)))),
      dt_second = int (undec (take 2 (drop 17 (isoformat_utc t)))),
      dt_microsecond = int (undec (take 6 (drop 20 (isoformat_utc t)))),
      dt_utcoffset = Some 0 \<rparr> = t"
    using assms b unfolding valid_datetime_def isoformat_utc_def
    by (cases t) (simp add: undec_padded_int)
  then show ?thesis
    using assms(1) utc_form_isoformat [of t] by (simp add: fromisoformat_def)
qed

end
