(* ===== verification/Schema.thy ===== *)
theory Schema
  imports Datetimes
begin

text \<open>
  Metadata declarations (\<^verbatim>\<open>schema.py\<close>, and \<open>decode\<close> of
  \<^verbatim>\<open>migrations.py\<close>): identifiers and quoting, scalar fields with their strict
  normalisation and recovery, indexes, and \<open>BlobSchema\<close> with its validation, its canonical
  definition and metadata normalisation. Arguments are Python values, so that each type check of
  the source is a case of the model.
\<close>

section \<open>Python values\<close>

text \<open>A float is a finite number (binary64 values are rationals), an infinity or a NaN.\<close>

datatype pyfloat = Finite rat | Infinity bool | NaN

datatype fkind = KText | KInt64 | KFloat | KBoolean | KTimestamp

record field =
  f_kind :: fkind
  f_required :: bool
  f_immutable :: bool

record index =
  ix_fields :: "string list"
  ix_unique :: bool

text \<open>
  \<open>PSurrogate\<close> is a \<open>str\<close> with lone surrogates, which has no UTF-8 encoding;
  \<open>PCallable\<close> is an application callback, known by an identity.
\<close>

datatype pyval =
    PNone | PBool bool | PInt int | PFloat pyfloat | PStr string | PSurrogate string
  | PBytes string | PDatetime datetime | PTuple "pyval list" | PList "pyval list"
  | PDict "(pyval \<times> pyval) list" | PField field | PIndex index | PCallable nat | PObject nat

fun hashable :: "pyval \<Rightarrow> bool" where
  "hashable (PList xs) = False"
| "hashable (PDict xs) = False"
| "hashable (PTuple xs) = list_all hashable xs"
| "hashable v = True"

text \<open>\<open>tuple(v)\<close>\<close>

fun py_iter :: "pyval \<Rightarrow> pyval list res" where
  "py_iter (PTuple xs) = Inr xs"
| "py_iter (PList xs) = Inr xs"
| "py_iter (PDict items) = Inr (map fst items)"
| "py_iter (PStr s) = Inr (map (\<lambda>c. PStr [c]) s)"
| "py_iter v = raise PyTypeError ''object is not iterable''"

text \<open>The dynamic type tests of the source: the value as the tested type, if it has it.\<close>

definition as_bool :: "pyval \<Rightarrow> bool option" where
  "as_bool v = (case v of PBool b \<Rightarrow> Some b | _ \<Rightarrow> None)"

definition as_int :: "pyval \<Rightarrow> int option" where
  "as_int v = (case v of PInt n \<Rightarrow> Some n | _ \<Rightarrow> None)"

definition as_dict :: "pyval \<Rightarrow> (pyval \<times> pyval) list option" where
  "as_dict v = (case v of PDict items \<Rightarrow> Some items | _ \<Rightarrow> None)"

definition as_field :: "pyval \<Rightarrow> field option" where
  "as_field v = (case v of PField f \<Rightarrow> Some f | _ \<Rightarrow> None)"

definition as_index :: "pyval \<Rightarrow> index option" where
  "as_index v = (case v of PIndex i \<Rightarrow> Some i | _ \<Rightarrow> None)"

definition as_callable :: "pyval \<Rightarrow> nat option" where
  "as_callable v = (case v of PCallable f \<Rightarrow> Some f | _ \<Rightarrow> None)"

definition is_str :: "pyval \<Rightarrow> bool" where
  "is_str v = (case v of PStr _ \<Rightarrow> True | PSurrogate _ \<Rightarrow> True | _ \<Rightarrow> False)"

lemma as_type_simps [simp]:
  "as_bool (PBool b) = Some b" "as_int (PInt n) = Some n" "as_dict (PDict items) = Some items"
  "as_field (PField f) = Some f" "as_index (PIndex i) = Some i" "as_callable (PCallable c) = Some c"
  "is_str (PStr s)" "is_str (PSurrogate s)"
  by (simp_all add: as_bool_def as_int_def as_dict_def as_field_def as_index_def as_callable_def
      is_str_def)

lemma as_type_Some [simp]:
  "(as_bool v = Some b) = (v = PBool b)" "(as_int v = Some n) = (v = PInt n)"
  "(as_dict v = Some items) = (v = PDict items)" "(as_field v = Some f) = (v = PField f)"
  "(as_index v = Some i) = (v = PIndex i)" "(as_callable v = Some c) = (v = PCallable c)"
  by (cases v; simp add: as_bool_def as_int_def as_dict_def as_field_def as_index_def
      as_callable_def)+

text \<open>A value that passes a type test, or the error of a failed one.\<close>

definition expect :: "'a option \<Rightarrow> error_kind \<Rightarrow> string \<Rightarrow> 'a res" where
  "expect x k msg = (case x of None \<Rightarrow> raise k msg | Some y \<Rightarrow> Inr y)"

lemma expect_eq_Inr [simp]: "(expect x k msg = Inr y) = (x = Some y)"
  by (cases x) (auto simp: expect_def)

lemma expect_Some [simp]: "expect (Some y) k msg = Inr y"
  by (simp add: expect_def)

lemma raises_expect [simp]: "raises (expect x k' msg) k = (x = None \<and> k' = k)"
  by (cases x) (auto simp: expect_def)

section \<open>Identifiers\<close>

definition NUL :: char where
  "NUL = char_of (0 :: nat)"

definition py_identifier :: "pyval \<Rightarrow> string res" where
  "py_identifier v =
     (case v of
        PStr s \<Rightarrow>
          if s = [] \<or> NUL \<in> set s
          then raise ValidationError ''Identifiers must be nonempty text without NUL''
          else if 128 < length s
          then raise ValidationError ''Identifiers must fit in 128 UTF-8 bytes''
          else Inr s
      | PSurrogate s \<Rightarrow>
          if NUL \<in> set s
          then raise ValidationError ''Identifiers must be nonempty text without NUL''
          else raise ValidationError ''Identifiers must be valid Unicode''
      | _ \<Rightarrow> raise ValidationError ''Identifiers must be nonempty text without NUL'')"

definition quote_identifier :: "pyval \<Rightarrow> string res" where
  "quote_identifier v = ebind (py_identifier v) (\<lambda>s. Inr (quoted (CHR 0x22) s))"

definition valid_ident :: "string \<Rightarrow> bool" where
  "valid_ident s = (s \<noteq> [] \<and> NUL \<notin> set s \<and> length s \<le> 128)"

lemma py_identifier_Inr: "(py_identifier v = Inr s) = (v = PStr s \<and> valid_ident s)"
  by (cases v) (auto simp: py_identifier_def valid_ident_def)

lemma py_identifier_PStr [simp]: "valid_ident s \<Longrightarrow> py_identifier (PStr s) = Inr s"
  by (simp add: py_identifier_Inr)

lemma emapM_identifier:
  "(emapM py_identifier vs = Inr ss) = (vs = map PStr ss \<and> list_all valid_ident ss)"
  by (simp add: emapM_eq_Inr py_identifier_Inr list_all2_image)

section \<open>Fields\<close>

fun kind_name :: "fkind \<Rightarrow> string" where
  "kind_name KText = ''text''"
| "kind_name KInt64 = ''int64''"
| "kind_name KFloat = ''float''"
| "kind_name KBoolean = ''boolean''"
| "kind_name KTimestamp = ''timestamp''"

definition kind_named :: "pyval \<Rightarrow> fkind option" where
  "kind_named v = find (\<lambda>k. v = PStr (kind_name k)) [KText, KInt64, KFloat, KBoolean, KTimestamp]"

text \<open>\<open>Field(kind, required, immutable)\<close>\<close>

definition mk_field :: "pyval \<Rightarrow> pyval \<Rightarrow> pyval \<Rightarrow> field res" where
  "mk_field kind required immutable =
     ebind (require (hashable kind) PyTypeError ''unhashable type'') (\<lambda>_.
     ebind (expect (kind_named kind) ValidationError ''Unknown field kind'') (\<lambda>k.
     ebind (expect (as_bool required) ValidationError ''required and immutable must be bool'') (\<lambda>r.
     ebind (expect (as_bool immutable) ValidationError ''required and immutable must be bool'') (\<lambda>i.
     Inr \<lparr> f_kind = k, f_required = r, f_immutable = i \<rparr>))))"

definition int64 :: "int \<Rightarrow> bool" where
  "int64 n = (- (2 ^ 63) \<le> n \<and> n < 2 ^ 63)"

definition mismatch :: "fkind \<Rightarrow> 'a res" where
  "mismatch k =
     raise ValidationError (''Expected '' @ kind_name k @ ''; implicit coercion is disabled'')"

text \<open>\<open>Field.normalize\<close>\<close>

definition normalize :: "field \<Rightarrow> pyval \<Rightarrow> pyval res" where
  "normalize f v =
     (if v = PNone
      then (if f_required f then raise ValidationError ''Required field cannot be null''
            else Inr PNone)
      else case f_kind f of
        KText \<Rightarrow>
          (case v of PStr _ \<Rightarrow> Inr v | PSurrogate _ \<Rightarrow> Inr v | _ \<Rightarrow> mismatch KText)
      | KInt64 \<Rightarrow>
          (case v of PInt n \<Rightarrow> (if int64 n then Inr v else mismatch KInt64) | _ \<Rightarrow> mismatch KInt64)
      | KFloat \<Rightarrow>
          (case v of PFloat (Finite r) \<Rightarrow> Inr v | _ \<Rightarrow> mismatch KFloat)
      | KBoolean \<Rightarrow>
          (case v of PBool b \<Rightarrow> Inr (PInt (of_bool b)) | _ \<Rightarrow> mismatch KBoolean)
      | KTimestamp \<Rightarrow>
          (case v of
             PDatetime t \<Rightarrow>
               (case dt_utcoffset t of
                  None \<Rightarrow> mismatch KTimestamp
                | Some off \<Rightarrow>
                    (case astimezone_utc t off of
                       None \<Rightarrow> raise ValidationError ''Timestamp is outside UTC datetime range''
                     | Some u \<Rightarrow> Inr (PStr (isoformat_utc u))))
           | _ \<Rightarrow> mismatch KTimestamp))"

text \<open>\<open>Field.from_sql\<close>\<close>

definition from_sql :: "field \<Rightarrow> pyval \<Rightarrow> pyval res" where
  "from_sql f v =
     (if v = PNone then normalize f v
      else if f_kind f = KBoolean
      then (case v of
              PInt n \<Rightarrow> (if n \<in> {0, 1} then Inr (PBool (n = 1))
                         else raise ValidationError ''Invalid stored boolean'')
            | _ \<Rightarrow> raise ValidationError ''Invalid stored boolean'')
      else if f_kind f = KTimestamp
      then (case v of
              PStr s \<Rightarrow>
                (case fromisoformat s of
                   None \<Rightarrow> raise ValidationError ''Invalid stored UTC timestamp''
                 | Some t \<Rightarrow>
                     if normalize f (PDatetime t) = Inr v then Inr (PDatetime t)
                     else raise ValidationError ''Invalid stored UTC timestamp'')
            | _ \<Rightarrow> raise ValidationError ''Invalid stored UTC timestamp'')
      else ebind (normalize f v) (\<lambda>_. Inr v))"

definition Text :: "bool \<Rightarrow> bool \<Rightarrow> field" where
  "Text required immutable = \<lparr> f_kind = KText, f_required = required, f_immutable = immutable \<rparr>"

definition Integer :: "bool \<Rightarrow> bool \<Rightarrow> field" where
  "Integer required immutable = \<lparr> f_kind = KInt64, f_required = required, f_immutable = immutable \<rparr>"

definition Float :: "bool \<Rightarrow> bool \<Rightarrow> field" where
  "Float required immutable = \<lparr> f_kind = KFloat, f_required = required, f_immutable = immutable \<rparr>"

definition Boolean :: "bool \<Rightarrow> bool \<Rightarrow> field" where
  "Boolean required immutable =
     \<lparr> f_kind = KBoolean, f_required = required, f_immutable = immutable \<rparr>"

definition Timestamp :: "bool \<Rightarrow> bool \<Rightarrow> field" where
  "Timestamp required immutable =
     \<lparr> f_kind = KTimestamp, f_required = required, f_immutable = immutable \<rparr>"

section \<open>Indexes\<close>

text \<open>\<open>Index(*fields, unique=unique)\<close>\<close>

definition mk_index :: "pyval list \<Rightarrow> pyval \<Rightarrow> index res" where
  "mk_index flds unique =
     ebind (require (list_all hashable flds) PyTypeError ''unhashable type'') (\<lambda>_.
     ebind (require (flds \<noteq> [] \<and> distinct flds) ValidationError
              ''Index needs distinct fields and a boolean unique flag'') (\<lambda>_.
     ebind (expect (as_bool unique) ValidationError
              ''Index needs distinct fields and a boolean unique flag'') (\<lambda>u.
     ebind (emapM py_identifier flds) (\<lambda>names.
     Inr \<lparr> ix_fields = names, ix_unique = u \<rparr>))))"

definition wf_index :: "index \<Rightarrow> bool" where
  "wf_index i = (ix_fields i \<noteq> [] \<and> distinct (ix_fields i) \<and> list_all valid_ident (ix_fields i))"

section \<open>Schemas\<close>

record blob_schema =
  sc_name :: string
  sc_fields :: "(string \<times> field) list"
  sc_version :: int
  sc_indexes :: "index list"
  sc_handlers :: "string list"
  sc_validator_id :: "string option"
  sc_payload_validator :: "nat option"

definition RESERVED :: "string list" where
  "RESERVED = [''id'', ''schema_name'', ''schema_version'', ''version'']"

text \<open>The loop over \<open>self.fields.items()\<close>, with the keys seen so far.\<close>

fun check_fields :: "string list \<Rightarrow> (pyval \<times> pyval) list \<Rightarrow> (string \<times> field) list res" where
  "check_fields seen [] = Inr []"
| "check_fields seen ((name, spec) # items) =
     ebind (py_identifier name) (\<lambda>n.
     if ascii_lower n \<in> set seen \<or> starts_with ''ms_'' (ascii_lower n)
     then raise ValidationError ''Reserved or duplicate field''
     else ebind (expect (as_field spec) ValidationError ''Field values must be Field declarations'') (\<lambda>f.
          ebind (check_fields (ascii_lower n # seen) items) (\<lambda>rest. Inr ((n, f) # rest))))"

definition index_key :: "index \<Rightarrow> string list \<times> bool" where
  "index_key i = (ix_fields i, ix_unique i)"

definition check_indexes :: "(string \<times> field) list \<Rightarrow> pyval \<Rightarrow> index list res" where
  "check_indexes flds v =
     ebind (py_iter v) (\<lambda>vs.
     ebind (emapM (\<lambda>x. expect (as_index x) ValidationError
                          ''indexes must contain Index declarations'') vs) (\<lambda>indexes.
     ebind (require (distinct indexes) ValidationError ''Duplicate index'') (\<lambda>_.
     ebind (require (list_all (\<lambda>i. list_all (\<lambda>n. n \<in> fst ` set flds) (ix_fields i)) indexes)
              ValidationError ''Index refers to an undeclared field'') (\<lambda>_.
     Inr indexes))))"

definition check_handlers :: "pyval \<Rightarrow> string list res" where
  "check_handlers v =
     ebind (require (\<not> is_str v) ValidationError ''handlers must be a sequence of IDs'') (\<lambda>_.
     ebind (py_iter v) (\<lambda>vs.
     ebind (emapM py_identifier vs) (\<lambda>handlers.
     ebind (require (handlers \<noteq> [] \<and> distinct handlers) ValidationError
              ''At least one distinct handler ID is required'') (\<lambda>_.
     Inr handlers))))"

definition check_validator :: "pyval \<Rightarrow> pyval \<Rightarrow> (string option \<times> nat option) res" where
  "check_validator validator_id payload_validator =
     ebind (require ((validator_id = PNone) = (payload_validator = PNone)) ValidationError
              ''Payload validation requires both validator_id and callable'') (\<lambda>_.
     if validator_id = PNone then Inr (None, None)
     else ebind (py_identifier validator_id) (\<lambda>vid.
          ebind (expect (as_callable payload_validator) ValidationError
                   ''payload_validator must be callable'') (\<lambda>f.
          Inr (Some vid, Some f))))"

text \<open>\<open>BlobSchema(name, fields, version, indexes, handlers, validator_id, payload_validator)\<close>\<close>

definition mk_schema ::
  "pyval \<Rightarrow> pyval \<Rightarrow> pyval \<Rightarrow> pyval \<Rightarrow> pyval \<Rightarrow> pyval \<Rightarrow> pyval \<Rightarrow> blob_schema res" where
  "mk_schema name flds version indexes handlers validator_id payload_validator =
     ebind (py_identifier name) (\<lambda>n.
     ebind (require (length n \<le> 48) ValidationError ''Schema names must fit in 48 UTF-8 bytes'') (\<lambda>_.
     ebind (expect (as_int version) ValidationError ''Schema version must be a positive int64'') (\<lambda>ver.
     ebind (require (1 \<le> ver \<and> ver < 2 ^ 63) ValidationError
              ''Schema version must be a positive int64'') (\<lambda>_.
     ebind (expect (as_dict flds) ValidationError ''fields must be a mapping'') (\<lambda>items.
     ebind (check_fields RESERVED items) (\<lambda>fs.
     ebind (check_indexes fs indexes) (\<lambda>ixs.
     ebind (check_handlers handlers) (\<lambda>hs.
     ebind (check_validator validator_id payload_validator) (\<lambda>(vid, f).
     Inr \<lparr> sc_name = n, sc_fields = sort_key fst fs, sc_version = ver,
           sc_indexes = sort_key index_key ixs, sc_handlers = sort hs,
           sc_validator_id = vid, sc_payload_validator = f \<rparr>)))))))))"

definition table_name :: "blob_schema \<Rightarrow> string" where
  "table_name s = ''ms_data_'' @ hex (sc_name s)"

text \<open>\<open>values.get(name)\<close> and \<open>BlobSchema.normalize_metadata\<close>\<close>

definition py_get :: "(pyval \<times> pyval) list \<Rightarrow> string \<Rightarrow> pyval" where
  "py_get items name = (case map_of items (PStr name) of None \<Rightarrow> PNone | Some v \<Rightarrow> v)"

definition normalize_metadata :: "blob_schema \<Rightarrow> pyval \<Rightarrow> (string \<times> pyval) list res" where
  "normalize_metadata s values =
     ebind (expect (as_dict values) ValidationError
              ''Metadata must be a mapping of declared fields only'') (\<lambda>items.
     ebind (require (list_all (\<lambda>k. k \<in> (\<lambda>x. PStr (fst x)) ` set (sc_fields s)) (map fst items))
              ValidationError ''Metadata must be a mapping of declared fields only'') (\<lambda>_.
     emapM (\<lambda>(name, spec). ebind (normalize spec (py_get items name)) (\<lambda>v. Inr (name, v)))
       (sc_fields s)))"

end
