(* ===== verification/Declarations.thy ===== *)
theory Declarations
  imports Schema "HOL-Library.Multiset"
begin

text \<open>
  What a constructed \<open>BlobSchema\<close> guarantees (\<open>wf_schema\<close>), its canonical definition and
  the reading of stored definitions (\<open>decode\<close> of \<^verbatim>\<open>migrations.py\<close>), with the
  round trips: declaration to definition and back, and metadata to SQL values and back. A
  definition is the JSON value that \<open>json.dumps\<close> writes with sorted keys: on such values
  \<open>json.dumps\<close> with fixed options is injective and \<open>json.loads\<close> inverts it, so comparing
  texts and comparing these values agree.
\<close>

section \<open>Canonical definitions\<close>

text \<open>\<open>JSurrogate\<close> is a text with lone surrogates, which only the escapes of JSON can write.\<close>

datatype json = JNull | JBool bool | JInt int | JFloat pyfloat | JStr string | JSurrogate string
  | JArr "json list" | JObj "(string \<times> json) list"

definition json_field :: "field \<Rightarrow> json" where
  "json_field f =
     JObj [(''immutable'', JBool (f_immutable f)), (''kind'', JStr (kind_name (f_kind f))),
           (''required'', JBool (f_required f))]"

definition json_index :: "index \<Rightarrow> json" where
  "json_index i =
     JObj [(''fields'', JArr (map JStr (ix_fields i))), (''unique'', JBool (ix_unique i))]"

text \<open>\<open>BlobSchema.definition\<close>\<close>

definition schema_definition :: "blob_schema \<Rightarrow> json" where
  "schema_definition s =
     JObj [(''fields'', JObj (map (\<lambda>x. (fst x, json_field (snd x))) (sc_fields s))),
           (''handlers'', JArr (map JStr (sc_handlers s))),
           (''indexes'', JArr (map json_index (sc_indexes s))),
           (''name'', JStr (sc_name s)),
           (''validator_id'', (case sc_validator_id s of None \<Rightarrow> JNull | Some v \<Rightarrow> JStr v)),
           (''version'', JInt (sc_version s))]"

section \<open>Reading a definition\<close>

fun to_py :: "json \<Rightarrow> pyval" where
  "to_py JNull = PNone"
| "to_py (JBool b) = PBool b"
| "to_py (JInt n) = PInt n"
| "to_py (JFloat x) = PFloat x"
| "to_py (JStr s) = PStr s"
| "to_py (JSurrogate s) = PSurrogate s"
| "to_py (JArr xs) = PList (map to_py xs)"
| "to_py (JObj items) = PDict (map (\<lambda>(k, v). (PStr k, to_py v)) items)"

definition obj_items :: "json \<Rightarrow> (string \<times> json) list res" where
  "obj_items j = (case j of JObj items \<Rightarrow> Inr items | _ \<Rightarrow> raise PyTypeError ''not a mapping'')"

definition obj_get :: "json \<Rightarrow> string \<Rightarrow> json res" where
  "obj_get j key =
     ebind (obj_items j) (\<lambda>items.
       case map_of items key of None \<Rightarrow> raise PyKeyError key | Some v \<Rightarrow> Inr v)"

text \<open>A keyword argument with its default.\<close>

definition kwarg :: "(string \<times> json) list \<Rightarrow> string \<Rightarrow> pyval \<Rightarrow> pyval" where
  "kwarg items key dflt = (case map_of items key of None \<Rightarrow> dflt | Some v \<Rightarrow> to_py v)"

definition keywords_in :: "string list \<Rightarrow> (string \<times> json) list \<Rightarrow> unit res" where
  "keywords_in names items =
     require (list_all (\<lambda>(k, v). k \<in> set names) items) PyTypeError ''unexpected keyword argument''"

text \<open>\<open>Field(**spec)\<close>\<close>

definition field_of_json :: "json \<Rightarrow> field res" where
  "field_of_json spec =
     ebind (obj_items spec) (\<lambda>items.
     ebind (keywords_in [''kind'', ''required'', ''immutable''] items) (\<lambda>_.
     ebind (require (''kind'' \<in> fst ` set items) PyTypeError ''missing argument: kind'') (\<lambda>_.
     mk_field (kwarg items ''kind'' PNone) (kwarg items ''required'' (PBool False))
       (kwarg items ''immutable'' (PBool False)))))"

text \<open>\<open>Index(*i["fields"], unique=i["unique"])\<close>\<close>

definition index_of_json :: "json \<Rightarrow> index res" where
  "index_of_json i =
     ebind (obj_get i ''fields'') (\<lambda>fs.
     ebind (py_iter (to_py fs)) (\<lambda>names.
     ebind (obj_get i ''unique'') (\<lambda>u. mk_index names (to_py u))))"

text \<open>The identity of \<open>_unavailable_validator\<close>, which raises when it is called.\<close>

definition unavailable_validator :: nat where
  "unavailable_validator = 0"

text \<open>\<open>decode(definition)\<close>: \<open>BlobSchema(**data)\<close> after its three replacements.\<close>

definition decode :: "json \<Rightarrow> blob_schema res" where
  "decode data =
     ebind (obj_get data ''fields'') (\<lambda>fs.
     ebind (obj_items fs) (\<lambda>fitems.
     ebind (emapM (\<lambda>(n, spec). ebind (field_of_json spec) (\<lambda>f. Inr (PStr n, PField f))) fitems)
       (\<lambda>fields'.
     ebind (obj_get data ''indexes'') (\<lambda>ixs.
     ebind (case ixs of JArr is \<Rightarrow> emapM index_of_json is
            | _ \<Rightarrow> raise PyTypeError ''indexes are not a list'') (\<lambda>indexes.
     ebind (obj_get data ''validator_id'') (\<lambda>vid.
     ebind (obj_items data) (\<lambda>items.
     ebind (keywords_in [''name'', ''fields'', ''version'', ''indexes'', ''handlers'',
                         ''validator_id'', ''payload_validator''] items) (\<lambda>_.
     ebind (require (''name'' \<in> fst ` set items) PyTypeError ''missing argument: name'') (\<lambda>_.
     mk_schema (kwarg items ''name'' PNone) (PDict fields') (kwarg items ''version'' (PInt 1))
       (PTuple (map PIndex indexes)) (kwarg items ''handlers'' (PTuple [PStr ''file'']))
       (to_py vid)
       (if vid = JNull then kwarg items ''payload_validator'' PNone
        else PCallable unavailable_validator))))))))))"

section \<open>Well-formed declarations\<close>

definition field_name_ok :: "string \<Rightarrow> bool" where
  "field_name_ok n =
     (valid_ident n \<and> ascii_lower n \<notin> set RESERVED \<and> \<not> starts_with ''ms_'' (ascii_lower n))"

definition lowered :: "(string \<times> field) list \<Rightarrow> string list" where
  "lowered fs = map (\<lambda>x. ascii_lower (fst x)) fs"

lemma lowered_simps [simp]: "lowered [] = []" "lowered (x # fs) = ascii_lower (fst x) # lowered fs"
  by (simp_all add: lowered_def)

definition fields_ok :: "(string \<times> field) list \<Rightarrow> bool" where
  "fields_ok fs =
     (list_all (\<lambda>x. field_name_ok (fst x)) fs \<and> distinct (lowered fs))"

definition wf_schema :: "blob_schema \<Rightarrow> bool" where
  "wf_schema s =
     (valid_ident (sc_name s) \<and> length (sc_name s) \<le> 48 \<and> 1 \<le> sc_version s \<and> sc_version s < 2 ^ 63 \<and>
      fields_ok (sc_fields s) \<and> sorted (map fst (sc_fields s)) \<and>
      distinct (sc_indexes s) \<and> sorted (map index_key (sc_indexes s)) \<and>
      list_all (\<lambda>i. list_all (\<lambda>n. n \<in> fst ` set (sc_fields s)) (ix_fields i)) (sc_indexes s) \<and>
      sc_handlers s \<noteq> [] \<and> distinct (sc_handlers s) \<and> sorted (sc_handlers s) \<and>
      list_all valid_ident (sc_handlers s) \<and>
      (sc_validator_id s = None) = (sc_payload_validator s = None) \<and>
      (case sc_validator_id s of None \<Rightarrow> True | Some v \<Rightarrow> valid_ident v))"

definition py_fields :: "(string \<times> field) list \<Rightarrow> (pyval \<times> pyval) list" where
  "py_fields = map (\<lambda>x. (PStr (fst x), PField (snd x)))"

lemma check_fields_Inr:
  "(check_fields seen items = Inr fs) =
     (items = py_fields fs \<and>
      list_all (\<lambda>x. valid_ident (fst x) \<and> \<not> starts_with ''ms_'' (ascii_lower (fst x))) fs \<and>
      distinct (lowered fs) \<and>
      set (lowered fs) \<inter> set seen = {})"
proof (induction seen items arbitrary: fs rule: check_fields.induct)
  case (1 seen)
  then show ?case by (auto simp: py_fields_def)
next
  case (2 seen name spec items)
  show ?case
  proof (cases fs)
    case Nil
    then show ?thesis
      by (simp add: py_fields_def)
  next
    case (Cons x fs')
    then obtain n f where x: "fs = (n, f) # fs'" by (cases x) auto
    have "check_fields seen ((name, spec) # items) = Inr fs \<longleftrightarrow>
        name = PStr n \<and> spec = PField f \<and> valid_ident n \<and> ascii_lower n \<notin> set seen \<and>
        \<not> starts_with ''ms_'' (ascii_lower n) \<and>
        check_fields (ascii_lower n # seen) items = Inr fs'"
      by (auto simp: x py_identifier_Inr)
    then show ?thesis
      using "2.IH" [of n f fs'] by (auto simp: x py_fields_def)
  qed
qed

lemma check_fields_reserved: "(check_fields RESERVED items = Inr fs) = (items = py_fields fs \<and> fields_ok fs)"
  by (auto simp: check_fields_Inr fields_ok_def field_name_ok_def list_all_iff lowered_def)

lemma lowered_mset: "mset fs = mset gs \<Longrightarrow> distinct (lowered fs) = distinct (lowered gs)"
  unfolding lowered_def by (metis mset_eq_imp_distinct_iff mset_map)

lemma list_all_mset: "mset xs = mset ys \<Longrightarrow> list_all P xs = list_all P ys"
  by (drule mset_eq_setD) (simp add: list_all_iff)

lemma fields_ok_mset: "mset fs = mset gs \<Longrightarrow> fields_ok fs = fields_ok gs"
  unfolding fields_ok_def
  using lowered_mset [of fs gs] list_all_mset [of fs gs "\<lambda>x. field_name_ok (fst x)"] by blast

lemma fields_ok_distinct: "fields_ok fs \<Longrightarrow> distinct (map fst fs)"
proof -
  assume "fields_ok fs"
  then have "distinct (map ascii_lower (map fst fs))"
    by (simp add: fields_ok_def lowered_def comp_def)
  then show ?thesis
    by (simp only: distinct_map)
qed

lemma sort_key_unique:
  assumes m: "mset xs = mset ys" and d: "distinct (map f xs)"
  shows "sort_key f xs = sort_key f ys"
proof (rule map_sorted_distinct_set_unique [where f = f])
  have s: "set (sort_key f ys) = set xs"
    using mset_eq_setD [OF m] by simp
  have "set (sort_key f xs) \<union> set (sort_key f ys) = set xs"
    using s by simp
  then show "inj_on f (set (sort_key f xs) \<union> set (sort_key f ys))"
    using d by (simp only: distinct_map)
  show "distinct (map f (sort_key f xs))"
    using d by (metis mset_eq_imp_distinct_iff mset_map mset_sort)
  have "mset (map f (sort_key f ys)) = mset (map f xs)"
    using m by simp
  then show "distinct (map f (sort_key f ys))"
    using d mset_eq_imp_distinct_iff by blast
  show "set (sort_key f xs) = set (sort_key f ys)"
    using s by simp
qed simp_all

lemma index_key_inj: "inj index_key"
  by (rule injI) (auto simp: index_key_def)

lemma check_indexes_Inr:
  "(check_indexes fs v = Inr ixs) =
     (py_iter v = Inr (map PIndex ixs) \<and> distinct ixs \<and>
      list_all (\<lambda>i. list_all (\<lambda>n. n \<in> fst ` set fs) (ix_fields i)) ixs)"
  using list_all2_image [where P = "\<lambda>_. True" and g = PIndex]
  by (auto simp: check_indexes_def emapM_eq_Inr list.pred_True)

lemma check_handlers_Inr:
  "(check_handlers v = Inr hs) =
     (\<not> is_str v \<and> py_iter v = Inr (map PStr hs) \<and> list_all valid_ident hs \<and> hs \<noteq> [] \<and> distinct hs)"
  by (auto simp: check_handlers_def emapM_identifier)

lemma check_validator_Inr:
  "(check_validator vid cb = Inr (v, f)) =
     (vid = PNone \<and> cb = PNone \<and> v = None \<and> f = None \<or>
      (\<exists>i c. vid = PStr i \<and> cb = PCallable c \<and> valid_ident i \<and> v = Some i \<and> f = Some c))"
  by (auto simp: check_validator_def py_identifier_Inr)

lemma mk_schema_Inr:
  "(mk_schema name flds version indexes handlers vid cb = Inr s) =
     (\<exists>fs ixs hs.
        name = PStr (sc_name s) \<and> valid_ident (sc_name s) \<and> length (sc_name s) \<le> 48 \<and>
        version = PInt (sc_version s) \<and> 1 \<le> sc_version s \<and> sc_version s < 2 ^ 63 \<and>
        flds = PDict (py_fields fs) \<and> fields_ok fs \<and> sc_fields s = sort_key fst fs \<and>
        check_indexes fs indexes = Inr ixs \<and> sc_indexes s = sort_key index_key ixs \<and>
        check_handlers handlers = Inr hs \<and> sc_handlers s = sort hs \<and>
        check_validator vid cb = Inr (sc_validator_id s, sc_payload_validator s))"
  (is "?l = ?r")
proof
  assume ?l
  then show ?r
    unfolding mk_schema_def
    by (clarsimp simp: check_fields_reserved py_identifier_Inr split: prod.splits) blast
next
  assume ?r
  then show ?l
    unfolding mk_schema_def
    by (cases s) (fastforce simp: check_fields_reserved py_identifier_Inr split: prod.splits)
qed

section \<open>Construction, normal form and the round trip through a definition\<close>

lemma map_con_eq [simp]:
  "(map PIndex as = map PIndex bs) = (as = bs)" "(map PStr ss = map PStr ts) = (ss = ts)"
  by (rule inj_map_eq_map, simp add: inj_def)+

lemma py_fields_eq [simp]: "(py_fields fs = py_fields gs) = (fs = gs)"
  unfolding py_fields_def by (rule inj_map_eq_map) (simp add: inj_def prod_eq_iff)

lemma sorted_sort_id: "sorted (map f xs) \<Longrightarrow> sort_key f xs = xs"
  by (simp add: sort_key_id_if_sorted)

lemma fields_ok_sort [simp]: "fields_ok (sort_key f fs) = fields_ok fs"
  by (rule fields_ok_mset) simp

lemma mk_schema_wf:
  assumes "mk_schema name flds version indexes handlers vid cb = Inr s"
  shows "wf_schema s"
proof -
  from assms obtain fs ixs hs where p:
    "valid_ident (sc_name s)" "length (sc_name s) \<le> 48" "1 \<le> sc_version s" "sc_version s < 2 ^ 63"
    "fields_ok fs" "sc_fields s = sort_key fst fs"
    "check_indexes fs indexes = Inr ixs" "sc_indexes s = sort_key index_key ixs"
    "check_handlers handlers = Inr hs" "sc_handlers s = sort hs"
    "check_validator vid cb = Inr (sc_validator_id s, sc_payload_validator s)"
    unfolding mk_schema_Inr by blast
  have f: "fields_ok (sc_fields s)" "sorted (map fst (sc_fields s))"
    "set (sc_fields s) = set fs"
    using p by simp_all
  have i: "distinct (sc_indexes s)" "sorted (map index_key (sc_indexes s))"
    "list_all (\<lambda>i. list_all (\<lambda>n. n \<in> fst ` set fs) (ix_fields i)) (sc_indexes s)"
    using p by (simp_all add: check_indexes_Inr list_all_iff)
  have h: "sc_handlers s \<noteq> []" "distinct (sc_handlers s)" "sorted (sc_handlers s)"
    "list_all valid_ident (sc_handlers s)"
    using p(9) set_sort [of "\<lambda>x. x" hs] unfolding p(10)
    by (auto simp: check_handlers_Inr list_all_iff simp del: set_sort)
  have v: "(sc_validator_id s = None) = (sc_payload_validator s = None)"
    "case sc_validator_id s of None \<Rightarrow> True | Some v \<Rightarrow> valid_ident v"
    using p(11) by (auto simp: check_validator_Inr)
  show ?thesis
    using p(1-4) f i h v by (simp add: wf_schema_def)
qed

text \<open>A keyword call with the values of a declaration rebuilds it.\<close>

definition rebuild :: "blob_schema \<Rightarrow> nat option \<Rightarrow> blob_schema res" where
  "rebuild s cb =
     mk_schema (PStr (sc_name s)) (PDict (py_fields (sc_fields s))) (PInt (sc_version s))
       (PTuple (map PIndex (sc_indexes s))) (PList (map PStr (sc_handlers s)))
       (case sc_validator_id s of None \<Rightarrow> PNone | Some v \<Rightarrow> PStr v)
       (case cb of None \<Rightarrow> PNone | Some c \<Rightarrow> PCallable c)"

lemma rebuild_wf:
  assumes w: "wf_schema s" and cb: "(cb = None) = (sc_validator_id s = None)"
  shows "rebuild s cb = Inr (s\<lparr> sc_payload_validator := cb \<rparr>)"
proof -
  let ?t = "s\<lparr> sc_payload_validator := cb \<rparr>"
  have "mk_schema (PStr (sc_name ?t)) (PDict (py_fields (sc_fields s))) (PInt (sc_version ?t))
       (PTuple (map PIndex (sc_indexes s))) (PList (map PStr (sc_handlers s)))
       (case sc_validator_id s of None \<Rightarrow> PNone | Some v \<Rightarrow> PStr v)
       (case cb of None \<Rightarrow> PNone | Some c \<Rightarrow> PCallable c) = Inr ?t"
    unfolding mk_schema_Inr
  proof (intro exI conjI)
    show "sc_fields ?t = sort_key fst (sc_fields s)"
      using w by (simp add: wf_schema_def sorted_sort_id)
    show "sc_indexes ?t = sort_key index_key (sc_indexes s)"
      using w by (simp add: wf_schema_def sorted_sort_id)
    show "sc_handlers ?t = sort (sc_handlers s)"
      using w by (simp add: wf_schema_def sorted_sort_id)
    show "check_indexes (sc_fields s) (PTuple (map PIndex (sc_indexes s))) = Inr (sc_indexes s)"
      using w by (simp add: wf_schema_def check_indexes_Inr)
    show "check_handlers (PList (map PStr (sc_handlers s))) = Inr (sc_handlers s)"
      using w by (simp add: wf_schema_def check_handlers_Inr is_str_def)
    show "check_validator (case sc_validator_id s of None \<Rightarrow> PNone | Some v \<Rightarrow> PStr v)
       (case cb of None \<Rightarrow> PNone | Some c \<Rightarrow> PCallable c) = Inr (sc_validator_id ?t, sc_payload_validator ?t)"
      using w cb by (auto simp: wf_schema_def check_validator_Inr split: option.splits)
  qed (use w in \<open>simp_all add: wf_schema_def\<close>)
  then show ?thesis
    by (simp add: rebuild_def)
qed

lemma field_of_json_field [simp]: "field_of_json (json_field f) = Inr f"
proof -
  have k: "kind_named (PStr (kind_name k)) = Some k" for k
    by (cases k) (simp_all add: kind_named_def)
  show ?thesis
    by (simp add: field_of_json_def json_field_def obj_items_def keywords_in_def kwarg_def
        mk_field_def k)
qed

lemma index_of_json_index [simp]: "wf_index i \<Longrightarrow> index_of_json (json_index i) = Inr i"
  by (auto simp: index_of_json_def json_index_def obj_get_def obj_items_def mk_index_def wf_index_def
      emapM_identifier list_all_iff distinct_map inj_on_def comp_def)

definition wf_declared :: "blob_schema \<Rightarrow> bool" where
  "wf_declared s = (wf_schema s \<and> list_all wf_index (sc_indexes s))"

lemma decode_definition:
  assumes w: "wf_declared s"
  shows "decode (schema_definition s) =
           Inr (s\<lparr> sc_payload_validator :=
                     map_option (\<lambda>_. unavailable_validator) (sc_validator_id s) \<rparr>)"
proof -
  let ?cb = "map_option (\<lambda>_. unavailable_validator) (sc_validator_id s)"
  have fs: "emapM (\<lambda>(n, spec). ebind (field_of_json spec) (\<lambda>f. Inr (PStr n, PField f)))
      (map (\<lambda>x. (fst x, json_field (snd x))) fs) = Inr (py_fields fs)" for fs
    by (induction fs) (simp_all add: py_fields_def)
  have ix: "emapM index_of_json (map json_index (sc_indexes s)) = Inr (sc_indexes s)"
    using w by (simp add: emapM_eq_Inr wf_declared_def list_all2_map1 list_all2_same list_all_iff)
  have vid: "to_py (case sc_validator_id s of None \<Rightarrow> JNull | Some v \<Rightarrow> JStr v) =
      (case sc_validator_id s of None \<Rightarrow> PNone | Some v \<Rightarrow> PStr v)"
    by (cases "sc_validator_id s") simp_all
  have "rebuild s ?cb = Inr (s\<lparr> sc_payload_validator := ?cb \<rparr>)"
    using w by (intro rebuild_wf) (simp_all add: wf_declared_def)
  then show ?thesis
    by (cases "sc_validator_id s")
      (simp_all add: decode_def schema_definition_def obj_get_def obj_items_def keywords_in_def
        fs ix kwarg_def rebuild_def comp_def)
qed


lemma mk_schema_order:
  assumes s: "mk_schema name (PDict (py_fields fs)) version (PTuple (map PIndex ixs))
                (PTuple (map PStr hs)) vid cb = Inr s"
    and fs: "mset gs = mset fs" and ixs: "mset jxs = mset ixs" and hs: "mset ks = mset hs"
  shows "mk_schema name (PDict (py_fields gs)) version (PTuple (map PIndex jxs))
                (PTuple (map PStr ks)) vid cb = Inr s"
proof -
  from s have p:
    "name = PStr (sc_name s)" "valid_ident (sc_name s)" "length (sc_name s) \<le> 48"
    "version = PInt (sc_version s)" "1 \<le> sc_version s" "sc_version s < 2 ^ 63"
    "fields_ok fs" "sc_fields s = sort_key fst fs"
    "check_indexes fs (PTuple (map PIndex ixs)) = Inr ixs" "sc_indexes s = sort_key index_key ixs"
    "check_handlers (PTuple (map PStr hs)) = Inr hs" "sc_handlers s = sort hs"
    "check_validator vid cb = Inr (sc_validator_id s, sc_payload_validator s)"
    unfolding mk_schema_Inr by (auto simp: check_indexes_Inr check_handlers_Inr)
  have f: "fields_ok gs" "sort_key fst gs = sort_key fst fs"
    using p(7) fields_ok_mset [OF fs] sort_key_unique [OF fs [symmetric] fields_ok_distinct] by simp_all
  have di: "distinct ixs"
    using p(9) by (simp add: check_indexes_Inr)
  then have i: "sort_key index_key jxs = sort_key index_key ixs"
    using sort_key_unique [OF ixs [symmetric], of index_key] index_key_inj
    by (simp add: distinct_map inj_on_subset)
  have ci: "check_indexes gs (PTuple (map PIndex jxs)) = Inr jxs"
    using p(9) mset_eq_setD [OF fs] mset_eq_setD [OF ixs] mset_eq_imp_distinct_iff [OF ixs]
    by (simp add: check_indexes_Inr list_all_iff)
  have dh: "distinct hs"
    using p(11) by (simp add: check_handlers_Inr)
  then have h: "sort ks = sort hs"
    using sort_key_unique [OF hs [symmetric], of "\<lambda>x. x"] by simp
  have "ks = [] \<longleftrightarrow> hs = []"
    using hs by (cases ks; cases hs) auto
  then have ch: "check_handlers (PTuple (map PStr ks)) = Inr ks"
    using p(11) mset_eq_setD [OF hs] mset_eq_imp_distinct_iff [OF hs]
    by (simp add: check_handlers_Inr list_all_iff is_str_def)
  show ?thesis
    unfolding mk_schema_Inr using p f i ci h ch by metis
qed

section \<open>Metadata values\<close>

lemma mismatch_not_Inr [simp]: "(mismatch k = Inr x) = False"
  by (simp add: mismatch_def)

text \<open>The instant of an aware datetime, in microseconds.\<close>

definition instant :: "datetime \<Rightarrow> int" where
  "instant t = clock_us t - (case dt_utcoffset t of None \<Rightarrow> 0 | Some off \<Rightarrow> off)"

lemma normalize_datetime:
  assumes "normalize f (PDatetime t) = Inr v"
  shows "f_kind f = KTimestamp \<and> utc_in_range (instant t) \<and>
    v = PStr (isoformat_utc (of_clock_us (instant t)))"
proof (cases "f_kind f")
  case KTimestamp
  with assms show ?thesis
    by (auto simp: normalize_def astimezone_utc_def Let_def instant_def split: option.splits if_splits)
qed (use assms in \<open>simp_all add: normalize_def\<close>)

lemma normalize_of_clock_us:
  "f_kind f = KTimestamp \<Longrightarrow> utc_in_range u \<Longrightarrow>
   normalize f (PDatetime (of_clock_us u)) = Inr (PStr (isoformat_utc (of_clock_us u)))"
  using of_clock_us_correct [of u] by (simp add: normalize_def astimezone_utc_def)

lemma normalize_cases:
  assumes "normalize f v = Inr w"
  obtains (Null) "v = PNone" "w = PNone" "\<not> f_required f"
    | (Bool) b where "f_kind f = KBoolean" "v = PBool b" "w = PInt (of_bool b)"
    | (Timestamp) t where "f_kind f = KTimestamp" "v = PDatetime t" "utc_in_range (instant t)"
        "w = PStr (isoformat_utc (of_clock_us (instant t)))"
    | (Same) "w = v" "v \<noteq> PNone" "f_kind f \<notin> {KBoolean, KTimestamp}"
proof (cases "v = PNone")
  case True
  with assms Null show ?thesis by (simp add: normalize_def split: if_splits)
next
  case False
  show ?thesis
  proof (cases "f_kind f")
    case KText
    with assms False Same show ?thesis by (cases v) (simp_all add: normalize_def)
  next
    case KInt64
    with assms False Same show ?thesis by (cases v) (simp_all add: normalize_def split: if_splits)
  next
    case KFloat
    with assms False Same show ?thesis
      by (cases v) (simp_all add: normalize_def split: pyfloat.splits)
  next
    case KBoolean
    with assms False Bool show ?thesis by (cases v) (simp_all add: normalize_def)
  next
    case KTimestamp
    with assms False have "\<exists>t. v = PDatetime t" by (cases v) (simp_all add: normalize_def)
    with assms normalize_datetime Timestamp show ?thesis by blast
  qed
qed

lemma from_sql_normalize:
  assumes "from_sql f v = Inr x"
  shows "normalize f x = Inr v"
proof (cases "v = PNone \<or> f_kind f \<notin> {KBoolean, KTimestamp}")
  case True
  then have "v = PNone \<and> normalize f PNone = Inr x \<or>
      x = v \<and> (\<exists>w. normalize f v = Inr w) \<and> f_kind f \<notin> {KBoolean, KTimestamp}"
    using assms by (cases "v = PNone") (auto simp: from_sql_def)
  then show ?thesis
    by (auto elim: normalize_cases)
next
  case False
  then consider "f_kind f = KBoolean" "v \<noteq> PNone" | "f_kind f = KTimestamp" "v \<noteq> PNone"
    by auto
  then show ?thesis
  proof cases
    case 1
    then show ?thesis
      using assms by (cases v) (auto simp: from_sql_def normalize_def split: if_splits)
  next
    case 2
    then show ?thesis
      using assms by (cases v) (auto simp: from_sql_def split: if_splits option.splits)
  qed
qed

lemma normalize_from_sql:
  assumes n: "normalize f v = Inr w"
  shows "from_sql f w =
    Inr (case v of PDatetime t \<Rightarrow> PDatetime (of_clock_us (instant t)) | _ \<Rightarrow> v)"
  using n
proof (cases rule: normalize_cases)
  case Null
  then show ?thesis by (simp add: from_sql_def normalize_def)
next
  case (Bool b)
  then show ?thesis by (cases b) (simp_all add: from_sql_def)
next
  case (Timestamp t)
  then show ?thesis
    using of_clock_us_correct [of "instant t"] normalize_of_clock_us [of f "instant t"]
    by (simp add: from_sql_def fromisoformat_isoformat)
next
  case Same
  then have "\<forall>t. v \<noteq> PDatetime t"
    using n normalize_datetime by fastforce
  then have "(case v of PDatetime t \<Rightarrow> PDatetime (of_clock_us (instant t)) | _ \<Rightarrow> v) = v"
    by (cases v) simp_all
  with Same n show ?thesis by (simp add: from_sql_def)
qed

lemma timestamp_text_order:
  assumes "normalize f (PDatetime t) = Inr (PStr a)" "normalize g (PDatetime u) = Inr (PStr b)"
  shows "(a < b) = (instant t < instant u)" "(a = b) = (instant t = instant u)"
  using normalize_datetime [OF assms(1)] normalize_datetime [OF assms(2)]
    of_clock_us_correct [of "instant t"] of_clock_us_correct [of "instant u"]
  by (simp_all add: isoformat_utc_less isoformat_utc_inj)

lemma quote_identifier_read:
  assumes "quote_identifier v = Inr q" "rest = [] \<or> hd rest \<noteq> CHR 0x22"
  shows "\<exists>s. v = PStr s \<and> q \<noteq> [] \<and> hd q = CHR 0x22 \<and>
    read_quoted (CHR 0x22) (tl q @ rest) = Some (s, rest)"
  using assms by (auto simp: quote_identifier_def py_identifier_Inr quoted_def read_quoted_doubled)

end
