(* ===== verification/Query.thy ===== *)
theory Query
  imports Declarations
begin

text \<open>
  \<^verbatim>\<open>query.py\<close>: predicates, orderings, keyset cursors and their compilation to one
  \<open>SELECT\<close>. The \<open>WHERE\<close> clauses are syntax trees that carry the values of their
  placeholders; the text of the statement and the list of its parameters are the two readings of
  the trees, in the order in which the source appends to \<open>clauses\<close> and to \<open>params\<close>.
\<close>

section \<open>Arguments\<close>

text \<open>
  \<open>Predicate(field, op, value)\<close> and \<open>Order(field, descending)\<close>, whose components are
  not checked when they are built; \<open>None\<close> in the place of a sequence is a value that is
  neither a tuple nor a list. An \<open>Order\<close> in a cursor is its field and its flag.
\<close>

datatype pred_arg = Predicate (p_field: pyval) (p_op: pyval) (p_value: pyval) | NotPredicate

datatype order_arg = Order (o_field: pyval) (o_descending: pyval) | NotOrder

record find_cursor =
  cur_schema_name :: string
  cur_schema_version :: int
  cur_order :: "(string \<times> bool) list"
  cur_values :: "pyval list"

datatype after_arg = AfterCursor find_cursor | AfterValue pyval

section \<open>Fields and orderings\<close>

text \<open>\<open>field(schema, name)\<close>, with the name as text.\<close>

definition query_field :: "blob_schema \<Rightarrow> pyval \<Rightarrow> (string \<times> field) res" where
  "query_field s name =
     (if name = PStr ''id'' then Inr (''id'', Text True False)
      else case name of
        PStr n \<Rightarrow>
          (case map_of (sc_fields s) n of
             None \<Rightarrow> raise ValidationError ''Query references an undeclared field''
           | Some f \<Rightarrow> Inr (n, f))
      | _ \<Rightarrow> raise ValidationError ''Query references an undeclared field'')"

definition column :: "string \<Rightarrow> string" where
  "column n = (if n = ''id'' then ''b.id'' else ''m.'' @ quoted (CHR 0x22) n)"

text \<open>The loop of \<open>ordering\<close>; \<open>names\<close> are the fields seen so far.\<close>

fun order_items :: "blob_schema \<Rightarrow> string list \<Rightarrow> order_arg list \<Rightarrow> (string \<times> bool) list res" where
  "order_items s names [] = Inr []"
| "order_items s names (NotOrder # rest) =
     raise ValidationError ''Expected Order(field, descending=bool)''"
| "order_items s names (Order f d # rest) =
     ebind (expect (as_bool d) ValidationError ''Expected Order(field, descending=bool)'') (\<lambda>desc.
     ebind (query_field s f) (\<lambda>(n, spec).
     if n \<in> set names \<or> n = ''id'' \<and> rest \<noteq> []
     then raise ValidationError ''Ordering fields must be distinct; id must be last''
     else ebind (order_items s (n # names) rest) (\<lambda>os. Inr ((n, desc) # os))))"

definition ordering :: "blob_schema \<Rightarrow> order_arg list option \<Rightarrow> (string \<times> bool) list res" where
  "ordering s order_by =
     ebind (expect order_by ValidationError ''order_by must contain at most 8 Order declarations'')
       (\<lambda>items.
     ebind (require (length items \<le> 8) ValidationError
              ''order_by must contain at most 8 Order declarations'') (\<lambda>_.
     ebind (order_items s []
              (if items = [] then [Order (PStr ''id'') (PBool False)] else items)) (\<lambda>os.
     Inr (if ''id'' \<in> fst ` set os then os else os @ [(''id'', False)]))))"

section \<open>Records and cursors\<close>

text \<open>The parts of a record that \<open>cursor\<close> reads.\<close>

record query_record =
  qr_id :: string
  qr_schema_name :: string
  qr_schema_version :: int
  qr_metadata :: "(string \<times> pyval) list"

definition cursor_value :: "query_record \<Rightarrow> string \<Rightarrow> pyval res" where
  "cursor_value r n =
     (if n = ''id'' then Inr (PStr (qr_id r))
      else expect (map_of (qr_metadata r) n) PyKeyError n)"

definition cursor :: "query_record \<Rightarrow> blob_schema \<Rightarrow> order_arg list option \<Rightarrow> find_cursor res" where
  "cursor r s order_by =
     ebind (require ((qr_schema_name r, qr_schema_version r) = (sc_name s, sc_version s))
              ValidationError ''Cursor record belongs to another schema version'') (\<lambda>_.
     ebind (ordering s order_by) (\<lambda>os.
     ebind (emapM (\<lambda>o'. cursor_value r (fst o')) os) (\<lambda>vs.
     Inr \<lparr> cur_schema_name = sc_name s, cur_schema_version = sc_version s,
           cur_order = os, cur_values = vs \<rparr>)))"

section \<open>Clauses\<close>

datatype cmpop = Eq | Ne | Lt | Lte | Gt | Gte

fun cmp_text :: "cmpop \<Rightarrow> string" where
  "cmp_text Eq = ''=''"
| "cmp_text Ne = ''!=''"
| "cmp_text Lt = ''<''"
| "cmp_text Lte = ''<=''"
| "cmp_text Gt = ''>''"
| "cmp_text Gte = ''>=''"

text \<open>The dictionary \<open>operators\<close>.\<close>

definition operator_named :: "string \<Rightarrow> cmpop option" where
  "operator_named op =
     map_of [(''eq'', Eq), (''ne'', Ne), (''lt'', Lt), (''lte'', Lte), (''gt'', Gt), (''gte'', Gte)] op"

datatype clause =
    StateReady
  | SchemaName string
  | BlobVersion int
  | RowVersion int
  | IsNull string
  | NotNull string
  | InList bool string "pyval list"
  | Compare string cmpop pyval
  | IsValue string pyval
  | FalseLit
  | LessOrNull string pyval
  | AndList "clause list"
  | OrList "clause list"

text \<open>A statement is a list of literal pieces and placeholders.\<close>

datatype tok = Lit string | Hole

fun joined :: "string \<Rightarrow> tok list list \<Rightarrow> tok list" where
  "joined sep [] = []"
| "joined sep [ts] = ts"
| "joined sep (ts # us # rest) = ts @ Lit sep # joined sep (us # rest)"

fun clause_toks :: "clause \<Rightarrow> tok list" where
  "clause_toks StateReady = [Lit ''b.state='', Lit [CHR 0x27], Lit ''ready'', Lit [CHR 0x27]]"
| "clause_toks (SchemaName n) = [Lit ''b.schema_name='', Hole]"
| "clause_toks (BlobVersion v) = [Lit ''b.schema_version='', Hole]"
| "clause_toks (RowVersion v) = [Lit ''m.schema_version='', Hole]"
| "clause_toks (IsNull c) = [Lit (column c), Lit '' IS NULL'']"
| "clause_toks (NotNull c) = [Lit (column c), Lit '' IS NOT NULL'']"
| "clause_toks (InList neg c vs) =
     [Lit (column c), Lit (if neg then '' NOT IN ('' else '' IN ('')] @
     joined '','' (map (\<lambda>_. [Hole]) vs) @ [Lit '')'']"
| "clause_toks (Compare c op v) = [Lit (column c), Lit '' '', Lit (cmp_text op), Lit '' '', Hole]"
| "clause_toks (IsValue c v) = [Lit (column c), Lit '' IS '', Hole]"
| "clause_toks FalseLit = [Lit ''0'']"
| "clause_toks (LessOrNull c v) =
     [Lit ''('', Lit (column c), Lit '' < '', Hole, Lit '' OR '', Lit (column c), Lit '' IS NULL)'']"
| "clause_toks (AndList cs) = [Lit ''(''] @ joined '' AND '' (map clause_toks cs) @ [Lit '')'']"
| "clause_toks (OrList cs) = [Lit ''(''] @ joined '' OR '' (map clause_toks cs) @ [Lit '')'']"

fun clause_params :: "clause \<Rightarrow> pyval list" where
  "clause_params (SchemaName n) = [PStr n]"
| "clause_params (BlobVersion v) = [PInt v]"
| "clause_params (RowVersion v) = [PInt v]"
| "clause_params (InList neg c vs) = vs"
| "clause_params (Compare c op v) = [v]"
| "clause_params (IsValue c v) = [v]"
| "clause_params (LessOrNull c v) = [v]"
| "clause_params (AndList cs) = concat (map clause_params cs)"
| "clause_params (OrList cs) = concat (map clause_params cs)"
| "clause_params c = []"

section \<open>Compilation\<close>

definition null_or_cmp :: "string \<Rightarrow> cmpop \<Rightarrow> field \<Rightarrow> pyval \<Rightarrow> clause res" where
  "null_or_cmp n op spec v =
     (if v = PNone
      then (if op \<noteq> Eq \<and> op \<noteq> Ne then raise ValidationError ''Null has no scalar range ordering''
            else Inr (if op = Eq then IsNull n else NotNull n))
      else ebind (normalize spec v) (\<lambda>w. Inr (Compare n op w)))"

definition membership :: "string \<Rightarrow> bool \<Rightarrow> field \<Rightarrow> pyval \<Rightarrow> clause res" where
  "membership n neg spec v =
     ebind (expect (case v of PTuple vs \<Rightarrow> Some vs | PList vs \<Rightarrow> Some vs | _ \<Rightarrow> None)
              ValidationError ''Membership needs 1..100 values'') (\<lambda>vs.
     ebind (require (1 \<le> length vs \<and> length vs \<le> 100)
              ValidationError ''Membership needs 1..100 values'') (\<lambda>_.
     ebind (require (PNone \<notin> set vs) ValidationError
              ''Use an explicit null predicate instead of null membership'') (\<lambda>_.
     ebind (emapM (normalize spec) vs) (\<lambda>ws. Inr (InList neg n ws)))))"

text \<open>The body of the loop over \<open>terms\<close>.\<close>

fun compile_term :: "blob_schema \<Rightarrow> pred_arg \<Rightarrow> clause res" where
  "compile_term s NotPredicate = raise ValidationError ''Expected Predicate(field, op, value)''"
| "compile_term s (Predicate f op v) =
     ebind (require (is_str op) ValidationError ''Expected Predicate(field, op, value)'') (\<lambda>_.
     ebind (query_field s f) (\<lambda>(n, spec).
     if op = PStr ''is_null'' \<or> op = PStr ''not_null''
     then (if v \<noteq> PNone then raise ValidationError ''Null predicates do not take a value''
           else Inr (if op = PStr ''is_null'' then IsNull n else NotNull n))
     else if op = PStr ''in'' \<or> op = PStr ''not_in''
     then membership n (op = PStr ''not_in'') spec v
     else case op of
       PStr name \<Rightarrow>
         (case operator_named name of
            None \<Rightarrow> raise ValidationError ''Unsupported scalar operator''
          | Some cmp \<Rightarrow> null_or_cmp n cmp spec v)
     | _ \<Rightarrow> raise ValidationError ''Unsupported scalar operator''))"

text \<open>A cursor value, checked and brought to the form of the stored column.\<close>

definition cursor_item :: "blob_schema \<Rightarrow> (string \<times> bool) \<times> pyval \<Rightarrow> pyval res" where
  "cursor_item s x =
     (case x of ((n, desc), v) \<Rightarrow>
       ebind (query_field s (PStr n)) (\<lambda>(_, spec).
       if v \<noteq> PNone then ebind (from_sql spec v) (normalize spec)
       else if n = ''id'' \<or> f_required spec
       then raise ValidationError ''Required sort field cannot have a null cursor''
       else Inr PNone))"

text \<open>The branches of the keyset condition, with the pieces of the earlier sort fields.\<close>

definition last_piece :: "(string \<times> bool) \<Rightarrow> pyval \<Rightarrow> clause" where
  "last_piece o' v =
     (if v = PNone then (if snd o' then FalseLit else NotNull (fst o'))
      else if snd o' then LessOrNull (fst o') v else Compare (fst o') Gt v)"

fun branches :: "clause list \<Rightarrow> ((string \<times> bool) \<times> pyval) list \<Rightarrow> clause list" where
  "branches prefix [] = []"
| "branches prefix ((o', v) # rest) =
     AndList (prefix @ [last_piece o' v]) # branches (prefix @ [IsValue (fst o') v]) rest"

definition implied_cursor :: "blob_schema \<Rightarrow> (string \<times> bool) list \<Rightarrow> after_arg \<Rightarrow> find_cursor option" where
  "implied_cursor s os after =
     (case after of
        AfterCursor c \<Rightarrow> Some c
      | AfterValue v \<Rightarrow>
          if is_str v \<and> os = [(''id'', False)]
          then Some \<lparr> cur_schema_name = sc_name s, cur_schema_version = sc_version s,
                      cur_order = os, cur_values = [v] \<rparr>
          else None)"

definition keyset :: "blob_schema \<Rightarrow> (string \<times> bool) list \<Rightarrow> after_arg \<Rightarrow> clause list res" where
  "keyset s os after =
     (if after = AfterValue PNone then Inr []
      else ebind (expect (implied_cursor s os after) ValidationError
                    ''Cursor schema/order does not match this query'') (\<lambda>c.
           ebind (require ((cur_schema_name c, cur_schema_version c, cur_order c) =
                             (sc_name s, sc_version s, os) \<and>
                           length (cur_values c) = length os)
                    ValidationError ''Cursor schema/order does not match this query'') (\<lambda>_.
           ebind (emapM (cursor_item s) (zip os (cur_values c))) (\<lambda>vs.
           Inr [OrList (branches [] (zip os vs))]))))"

record query =
  q_table :: string
  q_clauses :: "clause list"
  q_order :: "(string \<times> bool) list"
  q_limit :: int

definition where_terms :: "pyval \<Rightarrow> pred_arg list option \<Rightarrow> pred_arg list res" where
  "where_terms whr predicates =
     ebind (expect (if whr = PNone then Some [] else as_dict whr) ValidationError
              ''where must be a mapping; predicates must be a sequence'') (\<lambda>items.
     ebind (expect predicates ValidationError
              ''where must be a mapping; predicates must be a sequence'') (\<lambda>ps.
     ebind (require (length items + length ps \<le> 64) ValidationError
              ''At most 64 predicates are supported'') (\<lambda>_.
     Inr (map (\<lambda>x. Predicate (fst x) (PStr ''eq'') (snd x)) items @ ps))))"

definition compile_query ::
  "blob_schema \<Rightarrow> pyval \<Rightarrow> pred_arg list option \<Rightarrow> order_arg list option \<Rightarrow> after_arg \<Rightarrow> pyval
   \<Rightarrow> query res" where
  "compile_query s whr predicates order_by after limit =
     ebind (expect (as_int limit) ValidationError ''limit must be an integer between 1 and 1000'') (\<lambda>n.
     ebind (require (1 \<le> n \<and> n \<le> 1000) ValidationError
              ''limit must be an integer between 1 and 1000'') (\<lambda>_.
     ebind (where_terms whr predicates) (\<lambda>terms.
     ebind (emapM (compile_term s) terms) (\<lambda>clauses.
     ebind (ordering s order_by) (\<lambda>os.
     ebind (keyset s os after) (\<lambda>ks.
     Inr \<lparr> q_table = table_name s,
           q_clauses = [StateReady, SchemaName (sc_name s), BlobVersion (sc_version s),
                        RowVersion (sc_version s)] @ clauses @ ks,
           q_order = os, q_limit = n \<rparr>))))))"

text \<open>The statement and its parameters.\<close>

definition order_text :: "(string \<times> bool) \<Rightarrow> string" where
  "order_text o' = column (fst o') @ (if snd o' then '' DESC'' else '' ASC'')"

definition query_toks :: "query \<Rightarrow> tok list" where
  "query_toks q =
     [Lit ''SELECT b.id FROM ms_blobs b JOIN '', Lit (quoted (CHR 0x22) (q_table q)),
      Lit '' m ON b.id=m.id WHERE ''] @
     joined '' AND '' (map clause_toks (q_clauses q)) @ [Lit '' ORDER BY ''] @
     joined '','' (map (\<lambda>o'. [Lit (order_text o')]) (q_order q)) @ [Lit '' LIMIT '', Hole]"

definition query_params :: "query \<Rightarrow> pyval list" where
  "query_params q = concat (map clause_params (q_clauses q)) @ [PInt (q_limit q)]"

fun tok_text :: "tok \<Rightarrow> string" where
  "tok_text (Lit s) = s"
| "tok_text Hole = ''?''"

definition query_text :: "query \<Rightarrow> string" where
  "query_text q = concat (map tok_text (query_toks q))"

section \<open>Every placeholder has its parameter\<close>

definition holes :: "tok list \<Rightarrow> nat" where
  "holes ts = length (filter (\<lambda>t. t = Hole) ts)"

lemma holes_simps [simp]:
  "holes [] = 0" "holes (Hole # ts) = Suc (holes ts)" "holes (Lit l # ts) = holes ts"
  "holes (ts @ us) = holes ts + holes us"
  by (simp_all add: holes_def)

lemma holes_joined [simp]: "holes (joined sep tss) = sum_list (map holes tss)"
  by (induction sep tss rule: joined.induct) simp_all

lemma holes_clause: "holes (clause_toks c) = length (clause_params c)"
proof (induction c)
  case (InList neg n vs)
  have "sum_list (map (\<lambda>_. 1) vs) = length vs"
    by (induction vs) simp_all
  then show ?case by (simp add: comp_def)
next
  case (AndList cs)
  then show ?case by (simp add: length_concat comp_def cong: map_cong)
next
  case (OrList cs)
  then show ?case by (simp add: length_concat comp_def cong: map_cong)
qed simp_all

lemma holes_query: "holes (query_toks q) = length (query_params q)"
proof -
  have "sum_list (map (holes \<circ> (\<lambda>o'. [Lit (order_text o')])) os) = 0" for os
    by (induction os) simp_all
  then show ?thesis
    by (simp add: query_toks_def query_params_def length_concat comp_def holes_clause)
qed

section \<open>Orderings end with the identity\<close>

lemma query_field_Inr:
  "(query_field s name = Inr (n, f)) =
     (name = PStr n \<and> (if n = ''id'' then f = Text True False
                       else map_of (sc_fields s) n = Some f))"
  by (cases name) (auto simp: query_field_def split: option.splits)

lemma order_items_Inr:
  "order_items s names items = Inr os \<Longrightarrow>
     items = map (\<lambda>o'. Order (PStr (fst o')) (PBool (snd o'))) os \<and>
     distinct (map fst os) \<and> fst ` set os \<inter> set names = {} \<and>
     (\<forall>o' \<in> set os. \<exists>f. query_field s (PStr (fst o')) = Inr (fst o', f)) \<and>
     (\<forall>o' \<in> set (butlast os). fst o' \<noteq> ''id'')"
proof (induction s names items arbitrary: os rule: order_items.induct)
  case (3 s names f d rest)
  then obtain n spec desc os' where p: "d = PBool desc" "query_field s f = Inr (n, spec)"
    "n \<notin> set names" "n = ''id'' \<longrightarrow> rest = []" "order_items s (n # names) rest = Inr os'"
    "os = (n, desc) # os'"
    by (fastforce split: if_splits prod.splits)
  have f: "f = PStr n"
    using p(2) by (simp add: query_field_Inr)
  note IH = "3.IH" [of desc "(n, spec)" n spec os']
  show ?case
    using IH p f by auto
qed auto

lemma ordering_Inr:
  assumes "ordering s order_by = Inr os"
  shows "os \<noteq> [] \<and> fst (last os) = ''id'' \<and> distinct (map fst os) \<and>
    (\<forall>o' \<in> set os. \<exists>f. query_field s (PStr (fst o')) = Inr (fst o', f))"
proof -
  from assms obtain xs os' where
    x: "order_items s [] (if xs = [] then [Order (PStr ''id'') (PBool False)] else xs) = Inr os'" and
    os: "os = (if ''id'' \<in> fst ` set os' then os' else os' @ [(''id'', False)])"
    unfolding ordering_def by (auto simp del: order_items.simps split del: if_split)
  obtain items where i: "items \<noteq> []" "order_items s [] items = Inr os'"
    by (rule that [OF _ x]) simp
  note i = i os
  note o = order_items_Inr [OF i(2)]
  have ne: "os' \<noteq> []" using o i(1) by auto
  have "query_field s (PStr ''id'') = Inr (''id'', Text True False)"
    by (simp add: query_field_Inr)
  moreover have "fst (last os') = ''id''" if "''id'' \<in> fst ` set os'"
  proof -
    have "set os' = insert (last os') (set (butlast os'))"
      using ne by (metis append_butlast_last_id list.set(2) rotate1.simps(2) set_rotate1)
    with that o show ?thesis by auto
  qed
  ultimately show ?thesis
    using o i(3) ne by auto
qed

end
