(* ===== verification/Keyset.thy ===== *)
theory Keyset
  imports Query
begin

text \<open>
  The meaning of compiled queries: SQLite's comparison of stored values, its three-valued
  conditions, \<open>ORDER BY\<close> and \<open>LIMIT\<close> over the rows of the join, and the correctness of the
  keyset condition: it selects exactly the rows after the cursor, so that the pages of a find
  follow each other without gap or repetition.
\<close>

section \<open>Stored values\<close>

text \<open>NULL, then numbers, then text by its bytes; other values are not stored.\<close>

type_synonym sql_key = "nat \<times> rat \<times> string"

fun sql_key :: "pyval \<Rightarrow> sql_key" where
  "sql_key PNone = (0, 0, [])"
| "sql_key (PInt n) = (1, of_int n, [])"
| "sql_key (PFloat (Finite r)) = (1, r, [])"
| "sql_key (PStr s) = (2, 0, s)"
| "sql_key v = (3, 0, [])"

lemma sql_key_null [simp]: "(sql_key v = (0, 0, [])) = (v = PNone)" "((0, 0, []) = sql_key v) = (v = PNone)"
  by (cases v rule: sql_key.cases; simp)+

lemma sql_key_null_less [simp]: "((0, 0, []) < sql_key v) = (v \<noteq> PNone)" "(sql_key v < (0, 0, [])) = False"
  by (cases v rule: sql_key.cases; simp)+

record row_view =
  rv_id :: string
  rv_state :: string
  rv_schema_name :: string
  rv_blob_version :: int
  rv_row_version :: int
  rv_cols :: "(string \<times> pyval) list"

definition cell :: "row_view \<Rightarrow> string \<Rightarrow> pyval" where
  "cell r n =
     (if n = ''id'' then PStr (rv_id r)
      else case map_of (rv_cols r) n of None \<Rightarrow> PNone | Some v \<Rightarrow> v)"

section \<open>Conditions\<close>

text \<open>\<open>None\<close> is the SQL truth value NULL.\<close>

fun compare_keys :: "cmpop \<Rightarrow> sql_key \<Rightarrow> sql_key \<Rightarrow> bool" where
  "compare_keys Eq a b = (a = b)"
| "compare_keys Ne a b = (a \<noteq> b)"
| "compare_keys Lt a b = (a < b)"
| "compare_keys Lte a b = (a \<le> b)"
| "compare_keys Gt a b = (b < a)"
| "compare_keys Gte a b = (b \<le> a)"

definition compare3 :: "cmpop \<Rightarrow> pyval \<Rightarrow> pyval \<Rightarrow> bool option" where
  "compare3 op a b =
     (if a = PNone \<or> b = PNone then None else Some (compare_keys op (sql_key a) (sql_key b)))"

definition all3 :: "bool option list \<Rightarrow> bool option" where
  "all3 ts = (if Some False \<in> set ts then Some False else if None \<in> set ts then None else Some True)"

definition any3 :: "bool option list \<Rightarrow> bool option" where
  "any3 ts = (if Some True \<in> set ts then Some True else if None \<in> set ts then None else Some False)"

definition not3 :: "bool option \<Rightarrow> bool option" where
  "not3 = map_option Not"

lemma truth_True: "(t = Some True) = (t \<noteq> None \<and> t \<noteq> Some False)"
  by (cases t) auto

lemma all3_True [simp]: "(all3 ts = Some True) = (\<forall>t \<in> set ts. t = Some True)"
proof -
  have "(all3 ts = Some True) = (Some False \<notin> set ts \<and> None \<notin> set ts)"
    by (simp add: all3_def)
  also have "\<dots> = (\<forall>t \<in> set ts. t = Some True)"
    unfolding truth_True by (metis (no_types))
  finally show ?thesis .
qed

lemma any3_True [simp]: "(any3 ts = Some True) = (Some True \<in> set ts)"
  by (simp add: any3_def)

fun eval :: "row_view \<Rightarrow> clause \<Rightarrow> bool option" where
  "eval r StateReady = Some (rv_state r = ''ready'')"
| "eval r (SchemaName n) = Some (rv_schema_name r = n)"
| "eval r (BlobVersion v) = Some (rv_blob_version r = v)"
| "eval r (RowVersion v) = Some (rv_row_version r = v)"
| "eval r (IsNull c) = Some (cell r c = PNone)"
| "eval r (NotNull c) = Some (cell r c \<noteq> PNone)"
| "eval r (InList neg c vs) =
     (if neg then not3 else id) (any3 (map (compare3 Eq (cell r c)) vs))"
| "eval r (Compare c op v) = compare3 op (cell r c) v"
| "eval r (IsValue c v) = Some (sql_key (cell r c) = sql_key v)"
| "eval r FalseLit = Some False"
| "eval r (LessOrNull c v) = any3 [compare3 Lt (cell r c) v, Some (cell r c = PNone)]"
| "eval r (AndList cs) = all3 (map (eval r) cs)"
| "eval r (OrList cs) = any3 (map (eval r) cs)"

definition selected :: "query \<Rightarrow> row_view \<Rightarrow> bool" where
  "selected q r = (all3 (map (eval r) (q_clauses q)) = Some True)"

section \<open>Ordering\<close>

text \<open>A sort value with its direction: \<open>Desc\<close> reverses the order.\<close>

datatype 'a directed = Asc 'a | Desc 'a

instantiation directed :: (linorder) linorder
begin

definition less_directed :: "'a directed \<Rightarrow> 'a directed \<Rightarrow> bool" where
  "less_directed x y =
     (case x of Asc a \<Rightarrow> (case y of Asc b \<Rightarrow> a < b | Desc b \<Rightarrow> True)
      | Desc a \<Rightarrow> (case y of Asc b \<Rightarrow> False | Desc b \<Rightarrow> b < a))"

definition less_eq_directed :: "'a directed \<Rightarrow> 'a directed \<Rightarrow> bool" where
  "less_eq_directed x y = (x = y \<or> x < (y :: 'a directed))"

instance
proof
  fix x y z :: "'a directed"
  show "(x < y) = (x \<le> y \<and> \<not> y \<le> x)"
    by (cases x; cases y) (auto simp: less_directed_def less_eq_directed_def)
  show "x \<le> x"
    by (simp add: less_eq_directed_def)
  show "x \<le> y \<Longrightarrow> y \<le> z \<Longrightarrow> x \<le> z"
    by (cases x; cases y; cases z) (auto simp: less_directed_def less_eq_directed_def)
  show "x \<le> y \<Longrightarrow> y \<le> x \<Longrightarrow> x = y"
    by (cases x; cases y) (auto simp: less_directed_def less_eq_directed_def)
  show "x \<le> y \<or> y \<le> x"
    by (cases x; cases y) (auto simp: less_directed_def less_eq_directed_def)
qed

end

lemma directed_less [simp]:
  "(Asc a < Asc b) = (a < b)" "(Desc a < Desc b) = (b < a)"
  by (simp_all add: less_directed_def)

definition directed_key :: "(string \<times> bool) \<Rightarrow> pyval \<Rightarrow> sql_key directed" where
  "directed_key o' v = (if snd o' then Desc (sql_key v) else Asc (sql_key v))"

definition order_key :: "(string \<times> bool) list \<Rightarrow> row_view \<Rightarrow> sql_key directed list" where
  "order_key os r = map (\<lambda>o'. directed_key o' (cell r (fst o'))) os"

definition cursor_key :: "(string \<times> bool) list \<Rightarrow> pyval list \<Rightarrow> sql_key directed list" where
  "cursor_key os vs = map (\<lambda>x. directed_key (fst x) (snd x)) (zip os vs)"

text \<open>The rows of the join that a query selects, in its order, and the identities it returns.\<close>

definition matching :: "query \<Rightarrow> row_view list \<Rightarrow> row_view list" where
  "matching q rows = sort_key (order_key (q_order q)) (filter (selected q) rows)"

definition run_query :: "query \<Rightarrow> row_view list \<Rightarrow> string list" where
  "run_query q rows = take (nat (q_limit q)) (map rv_id (matching q rows))"

section \<open>The keyset condition\<close>

lemma last_piece_after:
  "(eval r (last_piece o' v) = Some True) = (directed_key o' v < directed_key o' (cell r (fst o')))"
  by (auto simp: last_piece_def directed_key_def compare3_def)

lemma is_value_same:
  "(eval r (IsValue (fst o') v) = Some True) = (directed_key o' v = directed_key o' (cell r (fst o')))"
  by (auto simp: directed_key_def)

lemma branches_after:
  "length vs = length os \<Longrightarrow>
   (\<exists>c \<in> set (branches prefix (zip os vs)). eval r c = Some True) =
     ((\<forall>p \<in> set prefix. eval r p = Some True) \<and> cursor_key os vs < order_key os r)"
proof (induction os arbitrary: vs prefix)
  case Nil
  then show ?case by (simp add: cursor_key_def order_key_def)
next
  case (Cons o' os)
  then obtain v vs' where v: "vs = v # vs'" "length vs' = length os"
    by (cases vs) auto
  show ?case
    using Cons.IH [OF v(2), of "prefix @ [IsValue (fst o') v]"] last_piece_after [of r o' v]
      is_value_same [of r o' v]
    by (auto simp: v(1) cursor_key_def order_key_def simp del: eval.simps(9))
qed

lemma keyset_condition:
  assumes "length vs = length os"
  shows "(eval r (OrList (branches [] (zip os vs))) = Some True) = (cursor_key os vs < order_key os r)"
proof -
  have "(eval r (OrList (branches [] (zip os vs))) = Some True) =
      (\<exists>c \<in> set (branches [] (zip os vs)). eval r c = Some True)"
    by (simp add: image_iff eq_commute [of "Some True"])
  then show ?thesis
    using branches_after [OF assms, of "[]" r] by simp
qed

section \<open>Pages\<close>

lemma filter_after_sorted:
  fixes f :: "'a \<Rightarrow> 'b::linorder"
  assumes "sorted (map f xs)" "distinct (map f xs)" "i < length xs"
  shows "filter (\<lambda>y. f (xs ! i) < f y) xs = drop (Suc i) xs"
  using assms
proof (induction xs arbitrary: i)
  case (Cons x xs)
  have lt: "f x < f y" if "y \<in> set xs" for y
    using Cons.prems that by (auto simp: less_le)
  show ?case
  proof (cases i)
    case 0
    with lt show ?thesis by (auto simp: filter_id_conv)
  next
    case (Suc j)
    then have j: "j < length xs" using Cons.prems by simp
    then have "\<not> f (xs ! j) < f x" using lt [of "xs ! j"] by auto
    with Suc j Cons show ?thesis by simp
  qed
qed simp

text \<open>A stored row of a schema: every column holds a value that its field can read.\<close>

definition row_typed :: "blob_schema \<Rightarrow> row_view \<Rightarrow> bool" where
  "row_typed s r =
     (list_all (\<lambda>x. case from_sql (snd x) (cell r (fst x)) of Inl _ \<Rightarrow> False | Inr _ \<Rightarrow> True) (sc_fields s))"

text \<open>The record of a row, as \<open>find\<close> returns it.\<close>

definition record_of :: "blob_schema \<Rightarrow> row_view \<Rightarrow> query_record" where
  "record_of s r =
     \<lparr> qr_id = rv_id r, qr_schema_name = sc_name s, qr_schema_version = sc_version s,
       qr_metadata = map (\<lambda>x. (fst x, cell r (fst x))) (sc_fields s) \<rparr>"

lemma map_of_cells: "map_of (map (\<lambda>x. (fst x, g (fst x))) fs) n = (if n \<in> fst ` set fs then Some (g n) else None)"
  by (induction fs) auto

lemma cursor_value_record:
  assumes "query_field s (PStr n) = Inr (n, f)"
  shows "cursor_value (record_of s r) n = Inr (cell r n)"
proof (cases "n = ''id''")
  case True
  then show ?thesis by (simp add: cursor_value_def record_of_def cell_def)
next
  case False
  with assms have "n \<in> fst ` set (sc_fields s)"
    by (auto simp: query_field_Inr dest: map_of_SomeD intro: rev_image_eqI)
  with False show ?thesis
    by (simp add: cursor_value_def record_of_def map_of_cells)
qed

lemma cursor_item_stored:
  assumes t: "row_typed s r" and f: "query_field s (PStr n) = Inr (n, f)"
  shows "cursor_item s ((n, d), cell r n) = Inr (cell r n)"
proof (cases "n = ''id''")
  case True
  then show ?thesis
    by (simp add: cursor_item_def query_field_def from_sql_def normalize_def cell_def Text_def)
next
  case False
  with f have "(n, f) \<in> set (sc_fields s)"
    by (auto simp: query_field_Inr dest: map_of_SomeD)
  with t obtain x where x: "from_sql f (cell r n) = Inr x"
    by (cases "from_sql f (cell r n)") (auto simp: row_typed_def list_all_iff)
  show ?thesis
  proof (cases "cell r n = PNone")
    case True
    then have "\<not> f_required f"
      using x by (auto simp: from_sql_def normalize_def split: if_splits)
    with True False f show ?thesis by (simp add: cursor_item_def)
  next
    case False
    with f x from_sql_normalize [OF x] show ?thesis by (simp add: cursor_item_def)
  qed
qed

text \<open>A cursor made from a record is accepted, and restricts the query to the rows after it.\<close>

lemma cursor_query:
  assumes q: "compile_query s whr preds ob (AfterValue PNone) (PInt n) = Inr q"
    and t: "row_typed s r" and m: "1 \<le> m" "m \<le> 1000"
  shows "\<exists>c q'. cursor (record_of s r) s ob = Inr c \<and>
    compile_query s whr preds ob (AfterCursor c) (PInt m) = Inr q' \<and>
    q_order q' = q_order q \<and> q_limit q' = m \<and>
    (\<forall>x. selected q' x = (selected q x \<and> order_key (q_order q) r < order_key (q_order q) x))"
proof -
  from q obtain terms cs os where
    p: "where_terms whr preds = Inr terms" "emapM (compile_term s) terms = Inr cs"
       "ordering s ob = Inr os" and
    q': "q = \<lparr> q_table = table_name s,
        q_clauses = [StateReady, SchemaName (sc_name s), BlobVersion (sc_version s),
                     RowVersion (sc_version s)] @ cs, q_order = os, q_limit = n \<rparr>"
    by (auto simp: compile_query_def keyset_def)
  have fields: "\<exists>f. query_field s (PStr (fst o')) = Inr (fst o', f)" if "o' \<in> set os" for o'
    using ordering_Inr [OF p(3)] that by blast
  define vs where "vs = map (\<lambda>o'. cell r (fst o')) os"
  have "emapM (\<lambda>o'. cursor_value (record_of s r) (fst o')) os = Inr vs"
    unfolding vs_def by (rule emapM_Inr_map) (use fields cursor_value_record in blast)
  then have c: "cursor (record_of s r) s ob = Inr \<lparr> cur_schema_name = sc_name s,
      cur_schema_version = sc_version s, cur_order = os, cur_values = vs \<rparr>" (is "_ = Inr ?c")
    using p(3) by (simp add: cursor_def record_of_def)
  have z: "zip os vs = map (\<lambda>o'. (o', cell r (fst o'))) os"
    unfolding vs_def by (simp add: zip_map2 zip_same_conv_map)
  have "emapM (cursor_item s) (zip os vs) = Inr (map snd (zip os vs))"
    unfolding z by (rule emapM_Inr_map) (use fields cursor_item_stored [OF t] in fastforce)
  moreover have "map snd (zip os vs) = vs"
    by (simp add: vs_def)
  ultimately have k: "keyset s os (AfterCursor ?c) = Inr [OrList (branches [] (zip os vs))]"
    by (simp add: keyset_def implied_cursor_def vs_def)
  have ck: "cursor_key os vs = order_key os r"
    unfolding cursor_key_def order_key_def z by simp
  have l: "length vs = length os" by (simp add: vs_def)
  show ?thesis
    using c p k m keyset_condition [OF l] ck
    by (auto simp: compile_query_def q' selected_def)
qed

lemma order_key_inj:
  assumes "ordering s ob = Inr os" "order_key os r = order_key os x"
  shows "rv_id r = rv_id x"
proof -
  have "os \<noteq> []" "fst (last os) = ''id''"
    using ordering_Inr [OF assms(1)] by auto
  then have "(''id'', snd (last os)) \<in> set os"
    by (metis last_in_set prod.collapse)
  then have "directed_key (''id'', snd (last os)) (cell r ''id'') =
      directed_key (''id'', snd (last os)) (cell x ''id'')"
    using assms(2) by (auto simp: order_key_def)
  then show ?thesis
    by (auto simp: directed_key_def cell_def split: if_splits)
qed

lemma next_page:
  assumes q: "compile_query s whr preds ob (AfterValue PNone) (PInt n) = Inr q"
    and rows: "distinct (map rv_id rows)" and t: "\<forall>r \<in> set rows. row_typed s r"
    and m: "1 \<le> m" "m \<le> 1000" and i: "i < length (matching q rows)"
  shows "\<exists>c q'. cursor (record_of s (matching q rows ! i)) s ob = Inr c \<and>
    compile_query s whr preds ob (AfterCursor c) (PInt m) = Inr q' \<and>
    run_query q' rows = take (nat m) (map rv_id (drop (Suc i) (matching q rows)))"
proof -
  let ?M = "matching q rows" and ?K = "order_key (q_order q)"
  let ?r = "?M ! i"
  from q have os: "ordering s ob = Inr (q_order q)"
    by (auto simp: compile_query_def)
  have "?r \<in> set rows"
    using i nth_mem [OF i] by (auto simp: matching_def)
  with t have "row_typed s ?r" by blast
  from cursor_query [OF q this m] obtain c q' where
    c: "cursor (record_of s ?r) s ob = Inr c"
      "compile_query s whr preds ob (AfterCursor c) (PInt m) = Inr q'"
      "q_order q' = q_order q" "q_limit q' = m"
      "\<forall>x. selected q' x = (selected q x \<and> ?K ?r < ?K x)" by blast
  have "map rv_id ?M = map rv_id (sort_key ?K (filter (selected q) rows))"
    by (simp add: matching_def)
  have dr: "distinct (map rv_id (filter (selected q) rows))"
    using rows by (rule distinct_map_filter)
  have "inj_on ?K (set (filter (selected q) rows))"
    by (rule inj_onI) (rule distinct_map_inj [OF dr _ _ order_key_inj [OF os]])
  moreover have "distinct (filter (selected q) rows)"
    using dr by (simp only: distinct_map)
  ultimately have d: "distinct (map ?K ?M)"
    unfolding matching_def distinct_map by simp
  have "selected q' = (\<lambda>x. selected q x \<and> ?K ?r < ?K x)"
    using c(5) by blast
  then have "matching q' rows = sort_key ?K (filter (\<lambda>x. ?K ?r < ?K x) (filter (selected q) rows))"
    using c(3) by (simp only: matching_def filter_filter conj_commute)
  also have "\<dots> = filter (\<lambda>x. ?K ?r < ?K x) ?M"
    by (simp only: matching_def filter_sort)
  also have "\<dots> = drop (Suc i) ?M"
    by (rule filter_after_sorted) (use i d in \<open>simp_all add: matching_def\<close>)
  finally show ?thesis
    using c by (auto simp: run_query_def)
qed

end
