(* ===== verification/Tables.thy ===== *)
theory Tables
  imports Keyset
begin

text \<open>
  The catalog database: its tables as lists of rows, \<open>sqlite_master\<close> as a list of named
  definitions, and one function per writing statement of the library with the constraints and the
  triggers that the statement meets (the DDL of \<^verbatim>\<open>installation.py\<close>,
  \<^verbatim>\<open>payload_catalog.py\<close>, \<^verbatim>\<open>encodings.py\<close> and
  \<^verbatim>\<open>lifecycle.py\<close>). A trigger acts when it is among the installed objects.
\<close>

section \<open>Rows\<close>

datatype blob_state = Publishing | Ready | PendingDelete
datatype gc_reason = RetiredBlob | DiscardedToken | OrphanObject
datatype gc_state = Pending | Done

record schema_row =
  sr_name :: string
  sr_version :: int
  sr_table :: string
  sr_definition :: json

record blob_row =
  b_id :: string
  b_schema :: string
  b_version :: int
  b_state :: blob_state

record prepared_row =
  p_token :: string
  p_storage :: string
  p_key :: string
  p_size :: int
  p_digest :: string
  p_algorithm :: string
  p_handler :: string
  p_handler_version :: int
  p_schema :: string
  p_version :: int

record object_row =
  o_blob :: string
  o_token :: string

record encoding_row =
  e_token :: string
  e_id :: string
  e_version :: int
  e_descriptor :: json

record retired_row =
  t_blob :: string
  t_token :: string
  t_schema :: string
  t_version :: int
  t_metadata_version :: int

record gc_row =
  g_storage :: string
  g_key :: string
  g_token :: "string option"
  g_blob :: "string option"
  g_reason :: gc_reason
  g_state :: gc_state
  g_error :: "string option"

text \<open>The rows of all data tables, each with the name of its table.\<close>

record data_row =
  d_table :: string
  d_id :: string
  d_schema_version :: int
  d_version :: int
  d_cols :: "(string \<times> pyval) list"

record migration_row =
  j_name :: string
  j_schema :: string
  j_source :: int
  j_target :: int
  j_transform :: string
  j_running :: bool
  j_total :: int
  j_migrated :: int
  j_last_id :: "string option"

text \<open>A row of an application table that references \<open>ms_blobs(id)\<close>.\<close>

record app_ref =
  a_blob :: string
  a_deferred :: bool

section \<open>Installed objects\<close>

text \<open>
  The text of an SQL object, by what it depends on: \<open>Own n\<close> is the fixed text that the source
  has for its object \<open>n\<close>; a data table has, for each schema version it holds, the columns of
  that version; \<open>layout\<close> marks the table of a migrated schema. \<open>Foreign\<close> is any other
  text.
\<close>

datatype sqldef =
    Own string
  | TableDef (def_schema: string) (def_versions: "(int \<times> (string \<times> fkind \<times> bool) list) list")
      (def_layout: bool)
  | UpdateGuard string "string list"
  | InsertGuard string
  | IndexDef string index "int option"
  | LayoutUpdate string int "string list"
  | LayoutInsert string int
  | LayoutDelete string int
  | ReadyGuard string bool
  | RetireGuard string
  | Foreign string

record db =
  objects :: "(string \<times> sqldef) list"
  formats :: "(string \<times> int) list"
  ms_schemas :: "schema_row list"
  ms_blobs :: "blob_row list"
  ms_payload_schemas :: "(string \<times> int) list"
  ms_prepared :: "prepared_row list"
  ms_objects :: "object_row list"
  ms_encodings :: "encoding_row list"
  ms_lifecycle_schemas :: "string list"
  ms_retired :: "retired_row list"
  ms_gc :: "gc_row list"
  ms_metadata_layouts :: "string list"
  ms_migrations :: "migration_row list"
  data :: "data_row list"
  app_refs :: "app_ref list"

definition has_object :: "db \<Rightarrow> string \<Rightarrow> bool" where
  "has_object d n = (n \<in> fst ` set (objects d))"

text \<open>A statement on a table that does not exist fails with an operational error.\<close>

definition table :: "db \<Rightarrow> string \<Rightarrow> unit res" where
  "table d n = require (has_object d n) ValidationError ''no such table''"

definition trigger :: "db \<Rightarrow> string \<Rightarrow> bool" where
  "trigger d n = (map_of (objects d) n = Some (Own n))"

definition checked :: "bool \<Rightarrow> string \<Rightarrow> unit res" where
  "checked b msg = require b ConstraintError msg"

text \<open>\<open>RAISE(ABORT, msg)\<close> in a trigger whose condition holds.\<close>

definition abort_when :: "bool \<Rightarrow> string \<Rightarrow> unit res" where
  "abort_when b msg = require (\<not> b) ConstraintError msg"

lemma checked_Inr [simp]: "(checked b msg = Inr u) = b"
  by (simp add: checked_def)

lemma abort_when_Inr [simp]: "(abort_when b msg = Inr u) = (\<not> b)"
  by (simp add: abort_when_def)

lemma table_Inr [simp]: "(table d n = Inr u) = has_object d n"
  by (simp add: table_def)

text \<open>The parameters that \<open>sqlite3\<close> binds; others raise before the statement runs.\<close>

fun bindable :: "pyval \<Rightarrow> bool" where
  "bindable PNone = True"
| "bindable (PBool b) = True"
| "bindable (PInt n) = int64 n"
| "bindable (PFloat x) = True"
| "bindable (PStr s) = True"
| "bindable (PBytes s) = True"
| "bindable v = False"

definition bind_params :: "pyval list \<Rightarrow> unit res" where
  "bind_params vs = require (list_all bindable vs) ValidationError ''parameter cannot be bound''"

lemma bind_params_Inr [simp]: "(bind_params vs = Inr u) = list_all bindable vs"
  by (simp add: bind_params_def)

section \<open>Registry, blobs and objects\<close>

definition schema_keys :: "db \<Rightarrow> (string \<times> int) set" where
  "schema_keys d = (\<lambda>s. (sr_name s, sr_version s)) ` set (ms_schemas d)"

text \<open>\<open>INSERT INTO ms_blobs (id, schema_name, schema_version) VALUES (?, ?, ?)\<close>\<close>

definition insert_blob :: "string \<Rightarrow> string \<Rightarrow> int \<Rightarrow> db \<Rightarrow> db res" where
  "insert_blob i n v d =
     ebind (table d ''ms_blobs'') (\<lambda>_.
     ebind (abort_when (trigger d ''ms_no_resurrection'' \<and> i \<in> t_blob ` set (ms_retired d))
              ''retired blob IDs cannot be reused'') (\<lambda>_.
     ebind (checked (i \<noteq> []) ''CHECK'') (\<lambda>_.
     ebind (checked (i \<notin> b_id ` set (ms_blobs d)) ''UNIQUE'') (\<lambda>_.
     ebind (checked ((n, v) \<in> schema_keys d) ''FOREIGN KEY'') (\<lambda>_.
     Inr (d\<lparr> ms_blobs := ms_blobs d @
       [\<lparr> b_id = i, b_schema = n, b_version = v, b_state = Publishing \<rparr>] \<rparr>))))))"

text \<open>\<open>INSERT INTO ms_objects VALUES (?, ?)\<close>\<close>

definition insert_object :: "string \<Rightarrow> string \<Rightarrow> db \<Rightarrow> db res" where
  "insert_object i tok d =
     ebind (table d ''ms_objects'') (\<lambda>_.
     ebind (abort_when (trigger d ''ms_unrevoked_object'' \<and> Some tok \<in> g_token ` set (ms_gc d))
              ''prepared token is revoked'') (\<lambda>_.
     ebind (checked (i \<notin> o_blob ` set (ms_objects d) \<and> tok \<notin> o_token ` set (ms_objects d))
              ''UNIQUE'') (\<lambda>_.
     ebind (checked (i \<in> b_id ` set (ms_blobs d) \<and> tok \<in> p_token ` set (ms_prepared d))
              ''FOREIGN KEY'') (\<lambda>_.
     Inr (d\<lparr> ms_objects := ms_objects d @ [\<lparr> o_blob = i, o_token = tok \<rparr>] \<rparr>)))))"

text \<open>\<open>INSERT INTO ms_encodings VALUES(?,?,?,?)\<close>; its reference to the journal is deferred.\<close>

definition insert_encoding :: "encoding_row \<Rightarrow> db \<Rightarrow> db res" where
  "insert_encoding e d =
     ebind (table d ''ms_encodings'') (\<lambda>_.
     ebind (bind_params [PInt (e_version e)]) (\<lambda>_.
     ebind (abort_when (trigger d ''ms_encoding_insert'' \<and> e_token e \<in> p_token ` set (ms_prepared d))
              ''encoding must precede physical journal'') (\<lambda>_.
     ebind (checked (e_id e \<noteq> [] \<and> e_id e \<noteq> ''file'' \<and> 0 < e_version e) ''CHECK'') (\<lambda>_.
     ebind (checked (e_token e \<notin> e_token ` set (ms_encodings d)) ''UNIQUE'') (\<lambda>_.
     Inr (d\<lparr> ms_encodings := ms_encodings d @ [e] \<rparr>))))))"

definition digest_form :: "string \<Rightarrow> bool" where
  "digest_form s = (length s = 32 \<and> list_all is_hex_digit s)"

text \<open>\<open>INSERT INTO ms_prepared (...) VALUES (...)\<close>\<close>

definition insert_prepared :: "prepared_row \<Rightarrow> db \<Rightarrow> db res" where
  "insert_prepared p d =
     ebind (table d ''ms_prepared'') (\<lambda>_.
     ebind (bind_params [PInt (p_size p), PInt (p_handler_version p), PInt (p_version p)]) (\<lambda>_.
     ebind (abort_when (trigger d ''ms_fresh_object_key'' \<and>
                        (p_storage p, p_key p) \<in> (\<lambda>g. (g_storage g, g_key g)) ` set (ms_gc d))
              ''object key was queued for cleanup'') (\<lambda>_.
     ebind (checked (0 \<le> p_size p \<and> digest_form (p_digest p) \<and> p_algorithm p = ''xxh3_128'' \<and>
                     p_handler p = ''file'' \<and> p_handler_version p = 1) ''CHECK'') (\<lambda>_.
     ebind (checked (p_token p \<notin> p_token ` set (ms_prepared d) \<and>
                     (p_storage p, p_key p) \<notin> (\<lambda>q. (p_storage q, p_key q)) ` set (ms_prepared d))
              ''UNIQUE'') (\<lambda>_.
     ebind (checked ((p_schema p, p_version p) \<in> schema_keys d) ''FOREIGN KEY'') (\<lambda>_.
     Inr (d\<lparr> ms_prepared := ms_prepared d @ [p] \<rparr>)))))))"

section \<open>Data tables\<close>

definition data_table_of :: "string \<Rightarrow> string" where
  "data_table_of name = ''ms_data_'' @ hex name"

fun as_table :: "sqldef \<Rightarrow> sqldef option" where
  "as_table (TableDef n vs l) = Some (TableDef n vs l)"
| "as_table def = None"

definition table_def :: "db \<Rightarrow> string \<Rightarrow> sqldef res" where
  "table_def d t =
     expect (case map_of (objects d) t of None \<Rightarrow> None | Some def \<Rightarrow> as_table def)
       ValidationError ''no such table''"

text \<open>The columns of a table: those of its versions, in the order in which they appear.\<close>

definition def_columns :: "sqldef \<Rightarrow> (string \<times> fkind) list" where
  "def_columns def =
     remdups (concat (map (\<lambda>(v, cols). map (\<lambda>(n, k, r). (n, k)) cols) (def_versions def)))"

text \<open>The column checks; the bound on floats holds of every finite binary64 value.\<close>

fun column_ok :: "fkind \<Rightarrow> pyval \<Rightarrow> bool" where
  "column_ok k PNone = True"
| "column_ok KText (PStr s) = True"
| "column_ok KInt64 (PInt n) = int64 n"
| "column_ok KFloat (PFloat (Finite r)) = True"
| "column_ok KBoolean (PInt n) = (n = 0 \<or> n = 1)"
| "column_ok KTimestamp (PStr s) = utc_form s"
| "column_ok k v = False"

definition col_value :: "(string \<times> pyval) list \<Rightarrow> string \<Rightarrow> pyval" where
  "col_value cols n = (case map_of cols n of None \<Rightarrow> PNone | Some v \<Rightarrow> v)"

text \<open>\<open>NOT NULL\<close> of the required columns, NULL in the columns of other versions.\<close>

definition version_ok :: "sqldef \<Rightarrow> int \<Rightarrow> (string \<times> pyval) list \<Rightarrow> bool" where
  "version_ok def v cols =
     (case map_of (def_versions def) v of
        None \<Rightarrow> False
      | Some vcols \<Rightarrow>
          list_all (\<lambda>(n, k, req). req \<longrightarrow> col_value cols n \<noteq> PNone) vcols \<and>
          list_all (\<lambda>(n, k). n \<notin> fst ` set vcols \<longrightarrow> col_value cols n = PNone) (def_columns def))"

definition row_checks :: "sqldef \<Rightarrow> int \<Rightarrow> (string \<times> pyval) list \<Rightarrow> bool" where
  "row_checks def v cols =
     (version_ok def v cols \<and> list_all (\<lambda>(n, k). column_ok k (col_value cols n)) (def_columns def))"

text \<open>A unique index: no other indexed row has the same values, none of them NULL.\<close>

definition index_clash :: "index \<Rightarrow> int option \<Rightarrow> data_row \<Rightarrow> data_row \<Rightarrow> bool" where
  "index_clash ix ver r r' =
     ((case ver of None \<Rightarrow> True | Some v \<Rightarrow> d_schema_version r = v \<and> d_schema_version r' = v) \<and>
      list_all (\<lambda>n. col_value (d_cols r) n \<noteq> PNone \<and>
                    sql_key (col_value (d_cols r) n) = sql_key (col_value (d_cols r') n))
        (ix_fields ix))"

fun clashes :: "data_row \<Rightarrow> data_row list \<Rightarrow> sqldef \<Rightarrow> bool" where
  "clashes r rows (IndexDef t ix ver) =
     (t = d_table r \<and> ix_unique ix \<and>
      list_ex (\<lambda>r'. d_table r' = t \<and> d_id r' \<noteq> d_id r \<and> index_clash ix ver r r') rows)"
| "clashes r rows def = False"

definition unique_ok :: "db \<Rightarrow> data_row \<Rightarrow> bool" where
  "unique_ok d r = (\<not> list_ex (\<lambda>(n, def). clashes r (data d) def) (objects d))"

text \<open>\<open>MAX\<close> of the versions that a table holds.\<close>

definition latest_version :: "sqldef \<Rightarrow> int" where
  "latest_version def = foldr max (map fst (def_versions def)) 0"

definition data_key :: "data_row \<Rightarrow> string \<times> string" where
  "data_key r = (d_table r, d_id r)"

definition blob_keys :: "db \<Rightarrow> (string \<times> string \<times> int) set" where
  "blob_keys d = (\<lambda>b. (b_id b, b_schema b, b_version b)) ` set (ms_blobs d)"

text \<open>
  \<open>INSERT INTO <table> (id, schema_version, <fields>) VALUES (...)\<close>. The reference to
  \<open>ms_blobs\<close> is immediate in a plain table and deferred in the table of a migrated schema.
\<close>

definition insert_data :: "string \<Rightarrow> string \<Rightarrow> int \<Rightarrow> (string \<times> pyval) list \<Rightarrow> db \<Rightarrow> db res" where
  "insert_data t i v values d =
     ebind (table_def d t) (\<lambda>def.
     ebind (require (list_all (\<lambda>x. fst x \<in> fst ` set (def_columns def)) values) ValidationError
              ''no such column'') (\<lambda>_.
     ebind (bind_params (map snd values)) (\<lambda>_.
     let cols = map (\<lambda>(n, k). (n, col_value values n)) (def_columns def);
         row = \<lparr> d_table = t, d_id = i, d_schema_version = v, d_version = 1, d_cols = cols \<rparr>
     in
     ebind (abort_when (def_layout def \<and> v \<noteq> latest_version def)
              ''insert requires latest schema and initial version'') (\<lambda>_.
     ebind (checked (row_checks def v cols) ''CHECK'') (\<lambda>_.
     ebind (checked ((t, i) \<notin> data_key ` set (data d) \<and> unique_ok d row) ''UNIQUE'') (\<lambda>_.
     ebind (checked (def_layout def \<or> (i, def_schema def, v) \<in> blob_keys d) ''FOREIGN KEY'') (\<lambda>_.
     Inr (d\<lparr> data := data d @ [row] \<rparr>))))))))"

text \<open>The immutable columns that the update trigger of a table protects.\<close>

fun guarded :: "sqldef \<Rightarrow> string list" where
  "guarded (UpdateGuard n cols) = cols"
| "guarded (LayoutUpdate n v cols) = cols"
| "guarded def = []"

definition guarded_columns :: "db \<Rightarrow> string \<Rightarrow> string list" where
  "guarded_columns d t = (case map_of (objects d) (t @ ''_update'') of None \<Rightarrow> [] | Some def \<Rightarrow> guarded def)"

definition set_cols :: "(string \<times> pyval) list \<Rightarrow> (string \<times> pyval) list \<Rightarrow> (string \<times> pyval) list" where
  "set_cols values cols = map (\<lambda>(n, v). (n, case map_of values n of None \<Rightarrow> v | Some w \<Rightarrow> w)) cols"

definition update_hit :: "string \<Rightarrow> string \<Rightarrow> int \<Rightarrow> int \<Rightarrow> data_row \<Rightarrow> bool" where
  "update_hit t i sv ver r =
     (d_table r = t \<and> d_id r = i \<and> d_schema_version r = sv \<and> d_version r = ver)"

definition updated_row :: "(string \<times> pyval) list \<Rightarrow> data_row \<Rightarrow> data_row" where
  "updated_row values r = r\<lparr> d_version := d_version r + 1, d_cols := set_cols values (d_cols r) \<rparr>"

text \<open>
  \<open>UPDATE <table> SET <fields>, version=version+1 WHERE id=? AND schema_version=? AND version=?
  RETURNING id\<close>: the new database and whether a row was returned.
\<close>

definition update_data ::
  "string \<Rightarrow> string \<Rightarrow> int \<Rightarrow> int \<Rightarrow> (string \<times> pyval) list \<Rightarrow> db \<Rightarrow> (bool \<times> db) res" where
  "update_data t i sv ver values d =
     ebind (table_def d t) (\<lambda>def.
     ebind (require (list_all (\<lambda>x. fst x \<in> fst ` set (def_columns def)) values) ValidationError
              ''no such column'') (\<lambda>_.
     ebind (bind_params (map snd values)) (\<lambda>_.
     case find (update_hit t i sv ver) (data d) of
       None \<Rightarrow> Inr (False, d)
     | Some r \<Rightarrow>
         let r' = updated_row values r in
         ebind (abort_when (list_ex (\<lambda>n. sql_key (col_value (d_cols r') n) \<noteq>
                                         sql_key (col_value (d_cols r) n)) (guarded_columns d t) \<or>
                            def_layout def \<and> sv \<noteq> latest_version def)
                  ''immutable field or invalid concurrency version'') (\<lambda>_.
         ebind (checked (row_checks def sv (d_cols r')) ''CHECK'') (\<lambda>_.
         ebind (checked (unique_ok d r') ''UNIQUE'') (\<lambda>_.
         Inr (True, d\<lparr> data := map (\<lambda>x. if update_hit t i sv ver x then r' else x) (data d) \<rparr>)))))))"

section \<open>State changes of blobs\<close>

text \<open>What the publication guard of a schema asks for; \<open>evolved\<close> admits older tokens.\<close>

definition guard_satisfied :: "db \<Rightarrow> bool \<Rightarrow> blob_row \<Rightarrow> bool" where
  "guard_satisfied d evolved b =
     (list_ex (\<lambda>m. d_table m = data_table_of (b_schema b) \<and> d_id m = b_id b \<and>
                   d_schema_version m = b_version b) (data d) \<and>
      list_ex (\<lambda>ob. o_blob ob = b_id b \<and>
                 list_ex (\<lambda>p. p_token p = o_token ob \<and> p_schema p = b_schema b \<and>
                            (if evolved then p_version p \<le> b_version b else p_version p = b_version b))
                   (ms_prepared d)) (ms_objects d))"

fun guard_blocks :: "db \<Rightarrow> blob_row \<Rightarrow> sqldef \<Rightarrow> bool" where
  "guard_blocks d b (ReadyGuard n evolved) = (b_schema b = n \<and> \<not> guard_satisfied d evolved b)"
| "guard_blocks d b def = False"

definition set_state :: "string \<Rightarrow> blob_state \<Rightarrow> db \<Rightarrow> db" where
  "set_state i st d = d\<lparr> ms_blobs := map (\<lambda>b. if b_id b = i then b\<lparr> b_state := st \<rparr> else b) (ms_blobs d) \<rparr>"

text \<open>\<open>UPDATE ms_blobs SET state='ready' WHERE id=? AND state='publishing'\<close>\<close>

definition update_ready :: "string \<Rightarrow> db \<Rightarrow> db res" where
  "update_ready i d =
     ebind (table d ''ms_blobs'') (\<lambda>_.
     case row_with b_id i (ms_blobs d) of
       None \<Rightarrow> Inr d
     | Some b \<Rightarrow>
         if b_state b \<noteq> Publishing then Inr d
         else ebind (abort_when (list_ex (\<lambda>x. guard_blocks d b (snd x)) (objects d))
                       ''blob is not ready for publication'') (\<lambda>_.
              Inr (set_state i Ready d)))"

text \<open>\<open>UPDATE ms_blobs SET state='pending_delete' WHERE id=?\<close>\<close>

definition update_pending_delete :: "string \<Rightarrow> db \<Rightarrow> db res" where
  "update_pending_delete i d =
     ebind (table d ''ms_blobs'') (\<lambda>_.
     case row_with b_id i (ms_blobs d) of
       None \<Rightarrow> Inr d
     | Some b \<Rightarrow>
         ebind (abort_when (trigger d ''ms_state_transition'' \<and> b_state b \<noteq> PendingDelete \<and>
                            i \<notin> t_blob ` set (ms_retired d)) ''invalid lifecycle transition'') (\<lambda>_.
         Inr (set_state i PendingDelete d)))"

section \<open>Retirement\<close>

text \<open>\<open>INSERT INTO ms_retired VALUES (?,?,?,?,?)\<close>\<close>

definition insert_retired :: "retired_row \<Rightarrow> db \<Rightarrow> db res" where
  "insert_retired t d =
     ebind (table d ''ms_retired'') (\<lambda>_.
     ebind (checked (0 < t_metadata_version t) ''CHECK'') (\<lambda>_.
     ebind (checked (t_blob t \<notin> t_blob ` set (ms_retired d) \<and> t_token t \<notin> t_token ` set (ms_retired d))
              ''UNIQUE'') (\<lambda>_.
     ebind (checked (t_token t \<in> p_token ` set (ms_prepared d) \<and> (t_schema t, t_version t) \<in> schema_keys d)
              ''FOREIGN KEY'') (\<lambda>_.
     Inr (d\<lparr> ms_retired := ms_retired d @ [t] \<rparr>)))))"

definition gc_key :: "gc_row \<Rightarrow> string \<times> string" where
  "gc_key g = (g_storage g, g_key g)"

definition gc_conflict :: "gc_row \<Rightarrow> gc_row \<Rightarrow> bool" where
  "gc_conflict g h =
     (gc_key g = gc_key h \<or> g_token g \<noteq> None \<and> g_token g = g_token h \<or>
      g_blob g \<noteq> None \<and> g_blob g = g_blob h)"

definition gc_reference_ok :: "gc_row \<Rightarrow> db \<Rightarrow> bool" where
  "gc_reference_ok g d = (case g_blob g of None \<Rightarrow> True | Some i \<Rightarrow> i \<in> t_blob ` set (ms_retired d))"

text \<open>\<open>INSERT INTO ms_gc(...)\<close>, and \<open>INSERT OR IGNORE\<close>, which skips a row that is not unique.\<close>

definition insert_gc :: "gc_row \<Rightarrow> db \<Rightarrow> db res" where
  "insert_gc g d =
     ebind (table d ''ms_gc'') (\<lambda>_.
     ebind (checked (\<not> list_ex (gc_conflict g) (ms_gc d)) ''UNIQUE'') (\<lambda>_.
     ebind (checked (gc_reference_ok g d) ''FOREIGN KEY'') (\<lambda>_.
     Inr (d\<lparr> ms_gc := ms_gc d @ [g] \<rparr>))))"

definition insert_or_ignore_gc :: "gc_row \<Rightarrow> db \<Rightarrow> db res" where
  "insert_or_ignore_gc g d =
     ebind (table d ''ms_gc'') (\<lambda>_.
     if list_ex (gc_conflict g) (ms_gc d) then Inr d
     else ebind (checked (gc_reference_ok g d) ''FOREIGN KEY'') (\<lambda>_.
          Inr (d\<lparr> ms_gc := ms_gc d @ [g] \<rparr>)))"

text \<open>
  \<open>UPDATE ms_gc SET state=?,last_error=? WHERE storage_id=? AND object_key=? AND
  state='pending'\<close>
\<close>

definition mark_gc :: "string \<Rightarrow> string \<Rightarrow> gc_state \<Rightarrow> string option \<Rightarrow> db \<Rightarrow> db res" where
  "mark_gc sid key st err d =
     ebind (table d ''ms_gc'') (\<lambda>_.
     Inr (d\<lparr> ms_gc := map (\<lambda>g. if gc_key g = (sid, key) \<and> g_state g = Pending
                               then g\<lparr> g_state := st, g_error := err \<rparr> else g) (ms_gc d) \<rparr>))"

fun retire_blocks :: "db \<Rightarrow> string \<Rightarrow> sqldef \<Rightarrow> bool" where
  "retire_blocks d i (RetireGuard n) = (i \<notin> t_blob ` set (ms_retired d))"
| "retire_blocks d i def = False"

definition retire_guard_of :: "db \<Rightarrow> string \<Rightarrow> string \<Rightarrow> bool" where
  "retire_guard_of d t i =
     (case map_of (objects d) (t @ ''_retire'') of None \<Rightarrow> False | Some def \<Rightarrow> retire_blocks d i def)"

text \<open>\<open>DELETE FROM <table> WHERE id=?\<close>\<close>

definition delete_data :: "string \<Rightarrow> string \<Rightarrow> db \<Rightarrow> db res" where
  "delete_data t i d =
     ebind (table_def d t) (\<lambda>def.
     case find (\<lambda>r. d_table r = t \<and> d_id r = i) (data d) of
       None \<Rightarrow> Inr d
     | Some r \<Rightarrow>
         ebind (abort_when (retire_guard_of d t i) ''metadata deletion requires explicit retirement'') (\<lambda>_.
         ebind (abort_when (def_layout def \<and> d_schema_version r \<noteq> latest_version def)
                  ''old metadata is frozen for migration'') (\<lambda>_.
         Inr (d\<lparr> data := filter (\<lambda>x. data_key x \<noteq> (t, i)) (data d) \<rparr>))))"

text \<open>\<open>DELETE FROM ms_objects WHERE blob_id=?\<close>\<close>

definition delete_object_row :: "string \<Rightarrow> db \<Rightarrow> db res" where
  "delete_object_row i d =
     ebind (table d ''ms_objects'') (\<lambda>_.
     ebind (abort_when (trigger d ''ms_retire_object'' \<and>
              list_ex (\<lambda>ob. o_blob ob = i \<and>
                 \<not> list_ex (\<lambda>t. t_blob t = i \<and> t_token t = o_token ob) (ms_retired d)) (ms_objects d))
              ''object association requires explicit retirement'') (\<lambda>_.
     Inr (d\<lparr> ms_objects := filter (\<lambda>ob. o_blob ob \<noteq> i) (ms_objects d) \<rparr>)))"

text \<open>\<open>DELETE FROM ms_blobs WHERE id=?\<close>; a deferred reference is checked by the commit.\<close>

definition delete_blob :: "string \<Rightarrow> db \<Rightarrow> db res" where
  "delete_blob i d =
     ebind (table d ''ms_blobs'') (\<lambda>_.
     case row_with b_id i (ms_blobs d) of
       None \<Rightarrow> Inr d
     | Some b \<Rightarrow>
         ebind (abort_when (trigger d ''ms_retire_identity'' \<and>
                  (b_state b \<noteq> PendingDelete \<or> i \<notin> t_blob ` set (ms_retired d)))
                  ''blob retirement requires queued deletion'') (\<lambda>_.
         ebind (checked (i \<notin> o_blob ` set (ms_objects d) \<and>
                  \<not> list_ex (\<lambda>r. data_key r = (data_table_of (b_schema b), i) \<and> d_schema_version r = b_version b) (data d) \<and>
                  \<not> list_ex (\<lambda>a. a_blob a = i \<and> \<not> a_deferred a) (app_refs d)) ''FOREIGN KEY'') (\<lambda>_.
         Inr (d\<lparr> ms_blobs := filter (\<lambda>x. b_id x \<noteq> i) (ms_blobs d) \<rparr>))))"

section \<open>References\<close>

text \<open>\<open>pragma_foreign_key_check\<close>: the tables of the rows whose reference has no target.\<close>

definition data_reference_ok :: "db \<Rightarrow> data_row \<Rightarrow> bool" where
  "data_reference_ok d r =
     list_ex (\<lambda>b. b_id b = d_id r \<and> data_table_of (b_schema b) = d_table r \<and>
                 b_version b = d_schema_version r) (ms_blobs d)"

definition foreign_key_check :: "db \<Rightarrow> string list" where
  "foreign_key_check d =
     map (\<lambda>_. ''ms_blobs'') (filter (\<lambda>b. (b_schema b, b_version b) \<notin> schema_keys d) (ms_blobs d)) @
     map (\<lambda>_. ''ms_payload_schemas'') (filter (\<lambda>x. x \<notin> schema_keys d) (ms_payload_schemas d)) @
     map (\<lambda>_. ''ms_prepared'') (filter (\<lambda>p. (p_schema p, p_version p) \<notin> schema_keys d) (ms_prepared d)) @
     map (\<lambda>_. ''ms_objects'')
       (filter (\<lambda>ob. \<not> (o_blob ob \<in> b_id ` set (ms_blobs d) \<and> o_token ob \<in> p_token ` set (ms_prepared d)))
         (ms_objects d)) @
     map (\<lambda>_. ''ms_encodings'') (filter (\<lambda>e. e_token e \<notin> p_token ` set (ms_prepared d)) (ms_encodings d)) @
     map (\<lambda>_. ''ms_retired'')
       (filter (\<lambda>t. \<not> (t_token t \<in> p_token ` set (ms_prepared d) \<and> (t_schema t, t_version t) \<in> schema_keys d))
         (ms_retired d)) @
     map (\<lambda>_. ''ms_gc'') (filter (\<lambda>g. \<not> gc_reference_ok g d) (ms_gc d)) @
     map d_table (filter (\<lambda>r. \<not> data_reference_ok d r) (data d)) @
     map (\<lambda>_. ''application'') (filter (\<lambda>a. a_blob a \<notin> b_id ` set (ms_blobs d)) (app_refs d))"

text \<open>The references that a commit checks.\<close>

definition deferred_ok :: "db \<Rightarrow> bool" where
  "deferred_ok d =
     (list_all (\<lambda>e. e_token e \<in> p_token ` set (ms_prepared d)) (ms_encodings d) \<and>
      list_all (\<lambda>r. case map_of (objects d) (d_table r) of
                     None \<Rightarrow> True
                   | Some def \<Rightarrow> (as_table def \<noteq> None \<and> def_layout def) \<longrightarrow> data_reference_ok d r) (data d) \<and>
      list_all (\<lambda>a. a_deferred a \<longrightarrow> a_blob a \<in> b_id ` set (ms_blobs d)) (app_refs d))"

end
