(* ===== verification/Install.thy ===== *)
theory Install
  imports Tables
begin

text \<open>
  Installation of the catalog format, of schemas and of the additive extensions
  (\<^verbatim>\<open>installation.py\<close>, the installation parts of \<^verbatim>\<open>payload_catalog.py\<close>,
  \<^verbatim>\<open>encodings.py\<close> and \<^verbatim>\<open>lifecycle.py\<close>, and the layout of a migrated
  schema from \<^verbatim>\<open>migrations.py\<close>). Every function reads or returns the database of
  the running transaction.
\<close>

section \<open>Objects\<close>

definition core_names :: "string list" where
  "core_names = [''ms_format'', ''ms_schemas'', ''ms_blobs'', ''ms_blob_identity'']"

definition payload_names :: "string list" where
  "payload_names = [''ms_payload_format'', ''ms_payload_schemas'', ''ms_prepared'', ''ms_objects'',
     ''ms_prepared_immutable'', ''ms_objects_immutable'', ''ms_insert_publishing'']"

definition encoding_names :: "string list" where
  "encoding_names = [''ms_encoding_format'', ''ms_encodings'', ''ms_encoding_insert'',
     ''ms_encoding_update'', ''ms_encoding_delete'']"

definition lifecycle_names :: "string list" where
  "lifecycle_names = [''ms_lifecycle_format'', ''ms_lifecycle_schemas'', ''ms_retired'', ''ms_gc'',
     ''ms_state_transition'', ''ms_no_resurrection'', ''ms_retire_identity'', ''ms_retire_object'',
     ''ms_unrevoked_object'', ''ms_fresh_object_key'', ''ms_gc_identity'', ''ms_gc_retain'',
     ''ms_retired_update'', ''ms_retired_delete'']"

definition migration_names :: "string list" where
  "migration_names = [''ms_metadata_layouts'', ''ms_migrations'', ''ms_migrations_active'',
     ''ms_migration_steps'']"

definition own :: "string list \<Rightarrow> (string \<times> sqldef) list" where
  "own = map (\<lambda>n. (n, Own n))"

text \<open>\<open>_verify(objects, expected)\<close>\<close>

definition verify_objects :: "(string \<times> sqldef) list \<Rightarrow> db \<Rightarrow> unit res" where
  "verify_objects expected d =
     require (list_all (\<lambda>x. map_of (objects d) (fst x) = Some (snd x)) expected)
       SchemaConflictError ''Missing or modified MeldStore SQL object''"

definition verify_format :: "string \<Rightarrow> string \<Rightarrow> db \<Rightarrow> unit res" where
  "verify_format t msg d =
     require (map snd (filter (\<lambda>x. fst x = t) (formats d)) = [1]) SchemaConflictError msg"

text \<open>A \<open>CREATE\<close> statement; names of objects are compared without case.\<close>

definition create :: "string \<times> sqldef \<Rightarrow> db \<Rightarrow> db res" where
  "create x d =
     ebind (require (ascii_lower (fst x) \<notin> (\<lambda>y. ascii_lower (fst y)) ` set (objects d))
              ValidationError ''object already exists'') (\<lambda>_.
     Inr (d\<lparr> objects := objects d @ [x] \<rparr>))"

fun create_all :: "(string \<times> sqldef) list \<Rightarrow> db \<Rightarrow> db res" where
  "create_all [] d = Inr d"
| "create_all (x # xs) d = ebind (create x d) (create_all xs)"

definition insert_format :: "string \<Rightarrow> db \<Rightarrow> db res" where
  "insert_format t d =
     ebind (checked ((t, 1) \<notin> set (formats d)) ''UNIQUE'') (\<lambda>_.
     Inr (d\<lparr> formats := formats d @ [(t, 1)] \<rparr>))"

section \<open>The objects of a schema\<close>

definition table_cols :: "blob_schema \<Rightarrow> (string \<times> fkind \<times> bool) list" where
  "table_cols s = map (\<lambda>x. (fst x, f_kind (snd x), f_required (snd x))) (sc_fields s)"

definition immutables :: "blob_schema \<Rightarrow> string list" where
  "immutables s = map fst (filter (\<lambda>x. f_immutable (snd x)) (sc_fields s))"

text \<open>\<open>_schema_objects(schema)\<close>\<close>

definition schema_objects :: "blob_schema \<Rightarrow> (string \<times> sqldef) list" where
  "schema_objects s =
     (let t = table_name s in
      [(t, TableDef (sc_name s) [(1, table_cols s)] False),
       (t @ ''_update'', UpdateGuard (sc_name s) (immutables s)),
       (t @ ''_insert'', InsertGuard (sc_name s))] @
      map (\<lambda>(k, ix). (t @ ''_i'' @ dec k, IndexDef t ix None)) (enumerate 0 (sc_indexes s)))"

text \<open>The columns that all versions of a schema have together.\<close>

fun union_fields :: "(string \<times> field) list \<Rightarrow> (string \<times> field) list \<Rightarrow> (string \<times> field) list res" where
  "union_fields acc [] = Inr acc"
| "union_fields acc ((n, f) # fs) =
     (case map_of acc n of
        None \<Rightarrow> union_fields (acc @ [(n, \<lparr> f_kind = f_kind f, f_required = False, f_immutable = False \<rparr>)]) fs
      | Some g \<Rightarrow>
          if f_kind g \<noteq> f_kind f
          then raise SchemaConflictError ''Changing a field type requires a new field name''
          else union_fields acc fs)"

text \<open>\<open>layout(schemas)\<close>, for the declarations of one name in the order of their versions.\<close>

definition layout :: "blob_schema list \<Rightarrow> (string \<times> sqldef) list res" where
  "layout schemas =
     (if schemas = [] then raise PyIndexError ''list index out of range''
      else
        let latest = last schemas; t = table_name latest; v = sc_version latest in
        ebind (union_fields [] (concat (map sc_fields schemas))) (\<lambda>cols.
        ebind (mk_schema (PStr (sc_name latest)) (PDict (py_fields cols)) (PInt 1) (PTuple [])
                 (PTuple [PStr ''file'']) PNone PNone) (\<lambda>_.
        Inr ([(t, TableDef (sc_name latest) (map (\<lambda>s. (sc_version s, table_cols s)) schemas) True),
              (t @ ''_update'', LayoutUpdate (sc_name latest) v (immutables latest)),
              (t @ ''_insert'', LayoutInsert (sc_name latest) v),
              (t @ ''_delete'', LayoutDelete (sc_name latest) v)] @
             concat (map (\<lambda>s. map (\<lambda>(k, ix).
                 (t @ ''_v'' @ dec (nat (sc_version s)) @ ''_i'' @ dec k,
                  IndexDef t ix (Some (sc_version s)))) (enumerate 0 (sc_indexes s))) schemas)))))"

text \<open>\<open>evolved\<close>, \<open>declarations\<close> and \<open>verify\<close> of \<^verbatim>\<open>migrations.py\<close>\<close>

definition evolved :: "db \<Rightarrow> string \<Rightarrow> bool" where
  "evolved d name = (has_object d ''ms_metadata_layouts'' \<and> name \<in> set (ms_metadata_layouts d))"

definition declarations :: "db \<Rightarrow> string \<Rightarrow> blob_schema list res" where
  "declarations d name =
     emapM (\<lambda>r. decode (sr_definition r))
       (sort_key sr_version (filter (\<lambda>r. sr_name r = name) (ms_schemas d)))"

definition verify_layout :: "db \<Rightarrow> string \<Rightarrow> unit res" where
  "verify_layout d name =
     ebind (verify_objects (own migration_names) d) (\<lambda>_.
     ebind (declarations d name) (\<lambda>schemas.
     ebind (layout schemas) (\<lambda>expected. verify_objects expected d)))"

text \<open>\<open>guard\<close> and \<open>schema_guard\<close>: the publication and the retirement trigger of a schema.\<close>

definition ready_guard :: "blob_schema \<Rightarrow> bool \<Rightarrow> string \<times> sqldef" where
  "ready_guard s ev = (table_name s @ ''_ready'', ReadyGuard (sc_name s) ev)"

definition retire_guard :: "string \<Rightarrow> string \<times> sqldef" where
  "retire_guard name = (data_table_of name @ ''_retire'', RetireGuard name)"

section \<open>Installation\<close>

definition lookup_schema :: "db \<Rightarrow> string \<Rightarrow> int \<Rightarrow> schema_row list" where
  "lookup_schema d n v = filter (\<lambda>r. sr_name r = n \<and> sr_version r = v) (ms_schemas d)"

text \<open>\<open>INSERT INTO ms_schemas (...) VALUES (?, ?, ?, ?)\<close>\<close>

definition insert_schema :: "blob_schema \<Rightarrow> db \<Rightarrow> db res" where
  "insert_schema s d =
     ebind (checked (0 < sc_version s) ''CHECK'') (\<lambda>_.
     ebind (checked ((sc_name s, sc_version s) \<notin> schema_keys d) ''UNIQUE'') (\<lambda>_.
     Inr (d\<lparr> ms_schemas := ms_schemas d @
       [\<lparr> sr_name = sc_name s, sr_version = sc_version s, sr_table = table_name s,
          sr_definition = schema_definition s \<rparr>] \<rparr>)))"

definition install_core :: "db \<Rightarrow> db res" where
  "install_core d =
     (if \<not> has_object d ''ms_format''
      then ebind (require (\<not> list_ex (\<lambda>x. starts_with ''ms_'' (ascii_lower (fst x))) (objects d))
                    SchemaConflictError ''Reserved ms_ namespace already contains SQL objects'') (\<lambda>_.
           ebind (create_all (own core_names) d) (insert_format ''ms_format''))
      else ebind (verify_objects (own core_names) d) (\<lambda>_.
           ebind (verify_format ''ms_format'' ''Unsupported or damaged catalog format'' d) (\<lambda>_. Inr d)))"

text \<open>\<open>install(schema, tx)\<close> of \<^verbatim>\<open>installation.py\<close>; \<open>objects\<close> is read before the core is created.\<close>

definition install :: "blob_schema \<Rightarrow> db \<Rightarrow> db res" where
  "install s d0 =
     ebind (install_core d0) (\<lambda>d.
     case lookup_schema d (sc_name s) (sc_version s) of
       r # rs \<Rightarrow>
         ebind (require (map (\<lambda>r. (sr_definition r, sr_table r)) (r # rs) = [(schema_definition s, table_name s)])
                  SchemaConflictError ''Schema name/version already has a different definition'') (\<lambda>_.
         ebind (if evolved d (sc_name s) then verify_layout d (sc_name s)
                else verify_objects (schema_objects s) d0) (\<lambda>_. Inr d))
     | [] \<Rightarrow>
         ebind (require (sc_version s = 1) SchemaConflictError
                  ''Use an explicit MetadataMigration to install a new version'') (\<lambda>_.
         ebind (require (\<not> list_ex (\<lambda>x. has_object d0 (fst x)) (schema_objects s)) SchemaConflictError
                  ''Schema SQL names already exist'') (\<lambda>_.
         ebind (insert_schema s d) (create_all (schema_objects s)))))"

text \<open>\<open>install(schema, tx)\<close> of \<^verbatim>\<open>payload_catalog.py\<close>\<close>

definition payload_format :: "db \<Rightarrow> db res" where
  "payload_format d =
     (if \<not> has_object d ''ms_payload_format''
      then ebind (require (\<not> list_ex (has_object d) payload_names) SchemaConflictError
                    ''Partial or conflicting payload extension'') (\<lambda>_.
           ebind (table d ''ms_blobs'') (\<lambda>_.
           ebind (require (list_all (\<lambda>b. b_state b = Publishing) (ms_blobs d)) SchemaConflictError
                    ''Cannot adopt existing ready/retired S01 fixture rows'') (\<lambda>_.
           ebind (create_all (own payload_names) d) (insert_format ''ms_payload_format''))))
      else ebind (verify_objects (own payload_names) d) (\<lambda>_.
           ebind (verify_format ''ms_payload_format'' ''Unsupported payload extension version'' d)
             (\<lambda>_. Inr d)))"

definition payload_install :: "blob_schema \<Rightarrow> db \<Rightarrow> db res" where
  "payload_install s d0 =
     ebind (payload_format d0) (\<lambda>d.
     let g = ready_guard s (evolved d (sc_name s)); key = (sc_name s, sc_version s) in
     if key \<in> set (ms_payload_schemas d)
     then ebind (verify_objects [g] d0) (\<lambda>_. Inr d)
     else ebind (require (\<not> has_object d0 (fst g)) SchemaConflictError
                   ''Publication guard exists without schema enrollment'') (\<lambda>_.
          ebind (require (list_all (\<lambda>b. b_schema b = sc_name s \<longrightarrow> b_state b = Publishing) (ms_blobs d))
                   SchemaConflictError ''Cannot adopt ready/retired rows from an unenrolled schema'') (\<lambda>_.
          ebind (create g d) (\<lambda>d.
          ebind (checked (key \<in> schema_keys d) ''FOREIGN KEY'') (\<lambda>_.
          Inr (d\<lparr> ms_payload_schemas := ms_payload_schemas d @ [key] \<rparr>))))))"

text \<open>\<open>install\<close> and \<open>verify\<close> of \<^verbatim>\<open>encodings.py\<close>\<close>

definition verify_encodings :: "db \<Rightarrow> unit res" where
  "verify_encodings d =
     ebind (verify_objects (own encoding_names) d) (\<lambda>_.
     verify_format ''ms_encoding_format'' ''Unsupported encoding extension'' d)"

definition install_encodings :: "db \<Rightarrow> db res" where
  "install_encodings d =
     (if \<not> has_object d ''ms_encoding_format''
      then ebind (require (\<not> list_ex (has_object d) encoding_names) SchemaConflictError
                    ''Partial encoding extension'') (\<lambda>_.
           ebind (create_all (own encoding_names) d) (insert_format ''ms_encoding_format''))
      else ebind (verify_encodings d) (\<lambda>_. Inr d))"

text \<open>\<open>verify\<close>, \<open>install\<close> and \<open>install_schema\<close> of \<^verbatim>\<open>lifecycle.py\<close>\<close>

definition verify_lifecycle :: "db \<Rightarrow> unit res" where
  "verify_lifecycle d =
     ebind (verify_objects (own lifecycle_names) d) (\<lambda>_.
     ebind (verify_format ''ms_lifecycle_format'' ''Unsupported lifecycle extension'' d) (\<lambda>_.
     ebind (emapM (\<lambda>n. ebind (mk_schema (PStr n) (PDict []) (PInt 1) (PTuple [])
                                (PTuple [PStr ''file'']) PNone PNone) (\<lambda>_.
                       verify_objects [retire_guard n] d)) (ms_lifecycle_schemas d)) (\<lambda>_. Inr ())))"

definition install_lifecycle :: "db \<Rightarrow> db res" where
  "install_lifecycle d =
     (if has_object d ''ms_lifecycle_format'' then ebind (verify_lifecycle d) (\<lambda>_. Inr d)
      else ebind (require (\<not> list_ex (has_object d) lifecycle_names) SchemaConflictError
                    ''Partial lifecycle extension'') (\<lambda>_.
           ebind (table d ''ms_blobs'') (\<lambda>_.
           ebind (require (list_all (\<lambda>b. b_state b \<noteq> PendingDelete) (ms_blobs d)) SchemaConflictError
                    ''Resolve legacy pending_delete rows before installing S04'') (\<lambda>_.
           ebind (create_all (own lifecycle_names) d) (insert_format ''ms_lifecycle_format'')))))"

definition lifecycle_schema :: "blob_schema \<Rightarrow> db \<Rightarrow> db res" where
  "lifecycle_schema s d =
     (let g = retire_guard (sc_name s) in
      if sc_name s \<in> set (ms_lifecycle_schemas d)
      then ebind (verify_objects [g] d) (\<lambda>_. Inr d)
      else ebind (require (\<not> has_object d (fst g)) SchemaConflictError
                    ''Retirement guard exists without enrollment'') (\<lambda>_.
           ebind (create g d) (\<lambda>d.
           Inr (d\<lparr> ms_lifecycle_schemas := ms_lifecycle_schemas d @ [sc_name s] \<rparr>))))"

text \<open>\<open>Store.install_schema\<close>, in one transaction, and \<open>Store.install_lifecycle\<close>.\<close>

definition store_install_schema :: "blob_schema \<Rightarrow> db \<Rightarrow> db res" where
  "store_install_schema s d =
     ebind (install s d) (\<lambda>d.
     ebind (payload_install s d) (\<lambda>d.
     ebind (install_encodings d) (\<lambda>d.
     ebind (install_lifecycle d) (lifecycle_schema s))))"

fun lifecycle_schemas :: "schema_row list \<Rightarrow> db \<Rightarrow> db res" where
  "lifecycle_schemas [] d = Inr d"
| "lifecycle_schemas (r # rows) d =
     ebind (decode (sr_definition r)) (\<lambda>s. ebind (lifecycle_schema s d) (lifecycle_schemas rows))"

definition store_install_lifecycle :: "db \<Rightarrow> db res" where
  "store_install_lifecycle d =
     ebind (install_lifecycle d) (\<lambda>d.
     ebind (table d ''ms_schemas'') (\<lambda>_.
     lifecycle_schemas (sort_key (\<lambda>r. (sr_name r, sr_version r)) (ms_schemas d)) d))"

definition empty_db :: db where
  "empty_db =
     \<lparr> objects = [], formats = [], ms_schemas = [], ms_blobs = [], ms_payload_schemas = [],
       ms_prepared = [], ms_objects = [], ms_encodings = [], ms_lifecycle_schemas = [],
       ms_retired = [], ms_gc = [], ms_metadata_layouts = [], ms_migrations = [], data = [],
       app_refs = [] \<rparr>"

end
