(* ===== verification/Store.thy ===== *)
theory Store
  imports Install
begin

text \<open>
  The operations of \<^verbatim>\<open>store.py\<close> on the catalog, with \<open>encodings.matches\<close> and
  \<open>encodings.read\<close>: each is a function of the database of the running transaction, with the
  storage identity of the store as an argument. An operation that raises returns no database: it
  poisons its transaction, which then cannot commit (theory \<open>Catalog\<close>).
\<close>

section \<open>Tokens and records\<close>

text \<open>
  \<open>PreparedFile\<close>, \<open>PreparedValue\<close> (with its encoding), or another value. A descriptor is
  the JSON value of its canonical text.
\<close>

datatype token_arg =
    PreparedFile prepared_row
  | PreparedValue prepared_row string int json
  | NotPrepared

text \<open>\<open>physical(prepared)\<close>: the fields of the base class.\<close>

fun physical :: "token_arg \<Rightarrow> prepared_row option" where
  "physical (PreparedFile p) = Some p"
| "physical (PreparedValue p i v desc) = Some p"
| "physical NotPrepared = None"

fun logical :: "token_arg \<Rightarrow> encoding_row option" where
  "logical (PreparedValue p i v desc) =
     Some \<lparr> e_token = p_token p, e_id = i, e_version = v, e_descriptor = desc \<rparr>"
| "logical t = None"

record blob_record =
  r_id :: string
  r_schema_name :: string
  r_schema_version :: int
  r_state :: blob_state
  r_token :: string
  r_storage :: string
  r_key :: string
  r_size :: int
  r_digest :: string
  r_algorithm :: string
  r_handler :: string
  r_handler_version :: int
  r_version :: int
  r_metadata :: "(string \<times> pyval) list"
  r_descriptor :: "json option"

section \<open>Reading\<close>

text \<open>\<open>encodings.read(tx, token)\<close>\<close>

definition read_encoding :: "string \<Rightarrow> db \<Rightarrow> encoding_row option res" where
  "read_encoding tok d =
     (if \<not> has_object d ''ms_encoding_format''
      then (if list_ex (has_object d) encoding_names
            then raise SchemaConflictError ''Partial encoding extension''
            else Inr None)
      else ebind (verify_encodings d) (\<lambda>_. Inr (row_with e_token tok (ms_encodings d))))"

text \<open>\<open>encodings.matches(tx, prepared)\<close>\<close>

definition matches :: "token_arg \<Rightarrow> prepared_row \<Rightarrow> db \<Rightarrow> bool res" where
  "matches arg p d =
     ebind (table d ''ms_prepared'') (\<lambda>_.
     if row_with p_token (p_token p) (ms_prepared d) \<noteq> Some p then Inr False
     else ebind (read_encoding (p_token p) d) (\<lambda>row. Inr (row = logical arg)))"

text \<open>\<open>_schema(schema, tx, write=write)\<close>; \<open>None\<close> is a value that is no \<open>BlobSchema\<close>.\<close>

definition writable :: "blob_schema \<Rightarrow> db \<Rightarrow> unit res" where
  "writable s d =
     require (\<forall>r \<in> set (ms_schemas d). sr_name r = sc_name s \<longrightarrow> sr_version r \<le> sc_version s)
       SchemaConflictError ''Old schema versions are read-only after migration starts''"

definition check_schema :: "bool \<Rightarrow> blob_schema option \<Rightarrow> db \<Rightarrow> blob_schema res" where
  "check_schema wr arg d =
     ebind (expect arg ValidationError ''Supply the installed BlobSchema declaration'') (\<lambda>s.
     ebind (table d ''ms_schemas'') (\<lambda>_.
     ebind (require (map sr_definition (lookup_schema d (sc_name s) (sc_version s)) = [schema_definition s])
              SchemaConflictError ''Schema is not installed or its definition differs'') (\<lambda>_.
     ebind (if wr then writable s d else Inr ()) (\<lambda>_.
     let g = ready_guard s (evolved d (sc_name s)) in
     ebind (require (map_of (objects d) (fst g) = Some (snd g)) SchemaConflictError
              ''Call Store.install_schema before using payload APIs'') (\<lambda>_. Inr s)))))"

text \<open>\<open>{name: fields[name] for name in declaration.fields}\<close>\<close>

definition select_fields :: "blob_schema \<Rightarrow> (string \<times> pyval) list \<Rightarrow> (string \<times> pyval) list res" where
  "select_fields s cols =
     emapM (\<lambda>x. ebind (expect (map_of cols (fst x)) PyKeyError (fst x)) (\<lambda>v. Inr (fst x, v))) (sc_fields s)"

text \<open>The last part of \<open>_record\<close>: the logical encoding replaces the physical handler.\<close>

definition with_encoding :: "encoding_row option \<Rightarrow> blob_record \<Rightarrow> blob_record" where
  "with_encoding e r =
     (case e of
        None \<Rightarrow> r
      | Some row \<Rightarrow> r\<lparr> r_handler := e_id row, r_handler_version := e_version row,
                       r_descriptor := Some (e_descriptor row) \<rparr>)"

definition record_row :: "blob_row \<Rightarrow> prepared_row \<Rightarrow> data_row \<Rightarrow> (string \<times> pyval) list \<Rightarrow> blob_record" where
  "record_row b p m md =
     \<lparr> r_id = b_id b, r_schema_name = b_schema b, r_schema_version = b_version b,
       r_state = b_state b, r_token = p_token p, r_storage = p_storage p, r_key = p_key p,
       r_size = p_size p, r_digest = p_digest p, r_algorithm = p_algorithm p,
       r_handler = p_handler p, r_handler_version = p_handler_version p,
       r_version = d_version m, r_metadata = md, r_descriptor = None \<rparr>"

definition data_row_of :: "string \<Rightarrow> string \<Rightarrow> db \<Rightarrow> data_row option" where
  "data_row_of t i d = row_with data_key (t, i) (data d)"

text \<open>The two left joins of \<open>_record\<close>.\<close>

definition prepared_of :: "string \<Rightarrow> db \<Rightarrow> prepared_row option" where
  "prepared_of i d =
     (case row_with o_blob i (ms_objects d) of
        None \<Rightarrow> None
      | Some ob \<Rightarrow> row_with p_token (o_token ob) (ms_prepared d))"

text \<open>\<open>_record(id, tx, ready_only=ready)\<close>\<close>

definition get_record :: "bool \<Rightarrow> string \<Rightarrow> db \<Rightarrow> blob_record res" where
  "get_record ready i d =
     ebind (table d ''ms_blobs'') (\<lambda>_.
     ebind (table d ''ms_objects'') (\<lambda>_.
     ebind (table d ''ms_prepared'') (\<lambda>_.
     ebind (expect (row_with b_id i (filter (\<lambda>b. ready \<longrightarrow> b_state b = Ready) (ms_blobs d)))
              NotFoundError ''No blob'') (\<lambda>b.
     ebind (expect (prepared_of i d) IntegrityError ''Blob object association is missing or inconsistent'')
       (\<lambda>p.
     ebind (require (p_schema p = b_schema b \<and> p_version p \<le> b_version b) IntegrityError
              ''Blob object association is missing or inconsistent'') (\<lambda>_.
     ebind (table_def d (data_table_of (b_schema b))) (\<lambda>_.
     ebind (expect (data_row_of (data_table_of (b_schema b)) i d) IntegrityError
              ''Blob metadata is missing'') (\<lambda>m.
     ebind (require (d_schema_version m = b_version b) IntegrityError
              ''Blob metadata version is inconsistent'') (\<lambda>_.
     ebind (case lookup_schema d (b_schema b) (b_version b) of
              [] \<Rightarrow> raise PyIndexError ''list index out of range''
            | r # rs \<Rightarrow> decode (sr_definition r)) (\<lambda>s.
     ebind (select_fields s (d_cols m)) (\<lambda>md.
     ebind (read_encoding (p_token p) d) (\<lambda>e.
     Inr (with_encoding e (record_row b p m md))))))))))))))"

section \<open>Publication\<close>

text \<open>\<open>finalize(prepared, tx=tx, schema=schema, metadata=metadata, id=id)\<close>\<close>

definition insert_rows :: "string \<Rightarrow> blob_schema \<Rightarrow> (string \<times> pyval) list \<Rightarrow> string \<Rightarrow> db \<Rightarrow> db res" where
  "insert_rows i s values tok d =
     ebind (insert_blob i (sc_name s) (sc_version s) d) (\<lambda>d.
     ebind (insert_data (table_name s) i (sc_version s) values d) (\<lambda>d.
     insert_object i tok d))"

definition token_usable :: "string \<Rightarrow> blob_schema \<Rightarrow> token_arg \<Rightarrow> db \<Rightarrow> prepared_row res" where
  "token_usable sid s arg d =
     ebind (expect (physical arg) ValidationError ''Expected a PreparedFile token'') (\<lambda>p.
     ebind (matches arg p d) (\<lambda>ok.
     ebind (require (ok \<and> p_storage p = sid) ValidationError
              ''Unknown, altered or foreign prepared token'') (\<lambda>_.
     ebind (require (\<not> (has_object d ''ms_gc'' \<and> Some (p_token p) \<in> g_token ` set (ms_gc d)))
              ConflictError ''Prepared token has been revoked for cleanup'') (\<lambda>_.
     ebind (require ((p_schema p, p_version p) = (sc_name s, sc_version s)) ValidationError
              ''Prepared token belongs to another schema'') (\<lambda>_. Inr p)))))"

definition finalize ::
  "string \<Rightarrow> token_arg \<Rightarrow> blob_schema option \<Rightarrow> pyval \<Rightarrow> pyval \<Rightarrow> db \<Rightarrow> (blob_record \<times> db) res" where
  "finalize sid arg schema metadata id' d =
     ebind (py_identifier id') (\<lambda>i.
     ebind (check_schema True schema d) (\<lambda>s.
     ebind (normalize_metadata s metadata) (\<lambda>values.
     ebind (token_usable sid s arg d) (\<lambda>p.
     if i \<in> b_id ` set (ms_blobs d)
     then ebind (get_record False i d) (\<lambda>existing.
          ebind (require (r_token existing = p_token p \<and> r_metadata existing = values) ConflictError
                   ''Blob ID already identifies a different operation'') (\<lambda>_. Inr (existing, d)))
     else ebind (require (p_token p \<notin> o_token ` set (ms_objects d)) ConflictError
                   ''Prepared token is already associated with another blob'') (\<lambda>_.
          ebind (insert_rows i s values (p_token p) d) (\<lambda>d'.
          ebind (get_record False i d') (\<lambda>r. Inr (r, d'))))))))"

text \<open>\<open>publish(id, tx=tx)\<close>\<close>

definition publish :: "string \<Rightarrow> string \<Rightarrow> db \<Rightarrow> (blob_record \<times> db) res" where
  "publish sid i d =
     ebind (get_record False i d) (\<lambda>r.
     ebind (require (r_storage r = sid) ValidationError ''Blob belongs to another storage root'') (\<lambda>_.
     ebind (require (r_state r \<in> {Publishing, Ready}) ConflictError
              ''Retired blob cannot be published'') (\<lambda>_.
     ebind (update_ready i d) (\<lambda>d'.
     ebind (get_record True i d') (\<lambda>r'. Inr (r', d'))))))"

section \<open>Preparation\<close>

text \<open>The transaction of \<open>_prepare_snapshot\<close> that journals a completed upload.\<close>

definition journal :: "token_arg \<Rightarrow> blob_schema option \<Rightarrow> db \<Rightarrow> db res" where
  "journal arg schema d =
     ebind (check_schema True schema d) (\<lambda>_.
     ebind (expect (physical arg) ValidationError ''Expected a PreparedFile token'') (\<lambda>p.
     ebind (case logical arg of
              None \<Rightarrow> Inr d
            | Some e \<Rightarrow> ebind (verify_encodings d) (\<lambda>_. insert_encoding e d)) (\<lambda>d.
     insert_prepared p d)))"

text \<open>\<open>_check_file_schema\<close>\<close>

definition check_file_schema :: "blob_schema option \<Rightarrow> string \<Rightarrow> db \<Rightarrow> blob_schema res" where
  "check_file_schema schema handler d =
     ebind (check_schema True schema d) (\<lambda>s.
     ebind (require (handler = ''file'' \<and> handler \<in> set (sc_handlers s)) ValidationError
              ''File import requires the allowed passthrough handler'') (\<lambda>_. Inr s))"

text \<open>
  \<open>_retry\<close>: the result of an earlier import of the same identity; \<open>encoding\<close> is the handler,
  its version and the descriptor of an encoded value.
\<close>

definition retry ::
  "string \<Rightarrow> string \<Rightarrow> blob_schema \<Rightarrow> (string \<times> pyval) list \<Rightarrow> int \<Rightarrow> string \<Rightarrow>
   (string \<times> int \<times> json) option \<Rightarrow> db \<Rightarrow> blob_record option res" where
  "retry sid i s values nbytes digest encoding d =
     ebind (require (\<not> (has_object d ''ms_retired'' \<and> i \<in> t_blob ` set (ms_retired d))) ConflictError
              ''Retired blob IDs cannot be reused'') (\<lambda>_.
     ebind (table d ''ms_blobs'') (\<lambda>_.
     if i \<notin> b_id ` set (ms_blobs d) then Inr None
     else
       ebind (case get_record False i d of
                Inl e \<Rightarrow> if issubclass (kind_of e) NotFoundError
                         then raise ConflictError ''Blob ID exists without a complete object association''
                         else Inl e
              | Inr r \<Rightarrow> Inr r) (\<lambda>r.
       ebind (require ((r_schema_name r, r_schema_version r) = (sc_name s, sc_version s) \<and>
                r_metadata r = values \<and> r_storage r = sid \<and> r_size r = nbytes \<and> r_digest r = digest \<and>
                (r_handler r, r_handler_version r) =
                  (case encoding of None \<Rightarrow> (''file'', 1) | Some (h, v, desc) \<Rightarrow> (h, v)) \<and>
                r_state r = Ready) ConflictError
                ''Existing ID is different or unfinished; resolve explicitly'') (\<lambda>_.
       ebind (require (case encoding of None \<Rightarrow> True | Some (h, v, desc) \<Rightarrow> r_descriptor r = Some desc)
                ConflictError ''Existing ID has a different encoding descriptor'') (\<lambda>_.
       Inr (Some r))))))"

text \<open>The last transaction of \<open>import_file\<close> and of \<open>put\<close>.\<close>

definition complete_import ::
  "string \<Rightarrow> string \<Rightarrow> token_arg \<Rightarrow> blob_schema \<Rightarrow> pyval \<Rightarrow> (string \<times> pyval) list \<Rightarrow> int \<Rightarrow> string \<Rightarrow>
   (string \<times> int \<times> json) option \<Rightarrow> db \<Rightarrow> (blob_record \<times> db) res" where
  "complete_import sid i arg s metadata values nbytes digest encoding d =
     ebind (retry sid i s values nbytes digest encoding d) (\<lambda>result.
     case result of
       Some r \<Rightarrow> Inr (r, d)
     | None \<Rightarrow>
         ebind (finalize sid arg (Some s) metadata (PStr i) d) (\<lambda>(_, d').
         publish sid i d'))"

section \<open>Reading and changing published blobs\<close>

definition stat :: "pyval \<Rightarrow> db \<Rightarrow> blob_record res" where
  "stat id' d = ebind (py_identifier id') (\<lambda>i. get_record True i d)"

text \<open>The rows of the join in a compiled query.\<close>

fun state_text :: "blob_state \<Rightarrow> string" where
  "state_text Publishing = ''publishing''"
| "state_text Ready = ''ready''"
| "state_text PendingDelete = ''pending_delete''"

definition view_of :: "blob_row \<Rightarrow> data_row \<Rightarrow> row_view" where
  "view_of b m =
     \<lparr> rv_id = b_id b, rv_state = state_text (b_state b), rv_schema_name = b_schema b,
       rv_blob_version = b_version b, rv_row_version = d_schema_version m, rv_cols = d_cols m \<rparr>"

definition join_rows :: "string \<Rightarrow> db \<Rightarrow> row_view list" where
  "join_rows t d =
     concat (map (\<lambda>b. case data_row_of t (b_id b) d of None \<Rightarrow> [] | Some m \<Rightarrow> [view_of b m]) (ms_blobs d))"

definition find_blobs ::
  "blob_schema option \<Rightarrow> pyval \<Rightarrow> pred_arg list option \<Rightarrow> order_arg list option \<Rightarrow> after_arg \<Rightarrow> pyval \<Rightarrow>
   db \<Rightarrow> blob_record list res" where
  "find_blobs schema whr predicates order_by after limit d =
     ebind (check_schema False schema d) (\<lambda>s.
     ebind (compile_query s whr predicates order_by after limit) (\<lambda>q.
     ebind (table d ''ms_blobs'') (\<lambda>_.
     ebind (table_def d (q_table q)) (\<lambda>_.
     ebind (bind_params (query_params q)) (\<lambda>_.
     emapM (\<lambda>i. get_record True i d) (run_query q (join_rows (q_table q) d)))))))"

text \<open>\<open>update_metadata\<close>: the loop over the changes, and the guarded update.\<close>

definition check_change :: "blob_schema \<Rightarrow> pyval \<times> pyval \<Rightarrow> (string \<times> pyval) res" where
  "check_change s x =
     (case fst x of
        PStr n \<Rightarrow>
          ebind (expect (map_of (sc_fields s) n) PyKeyError n) (\<lambda>f.
          ebind (require (\<not> f_immutable f) ValidationError ''Immutable metadata field'') (\<lambda>_.
          ebind (normalize f (snd x)) (\<lambda>v. Inr (n, v))))
      | _ \<Rightarrow> raise PyKeyError ''not a field'')"

definition check_changes :: "blob_schema \<Rightarrow> pyval \<Rightarrow> (string \<times> pyval) list res" where
  "check_changes s changes =
     ebind (expect (as_dict changes) ValidationError
              ''changes must be a nonempty mapping of declared metadata fields'') (\<lambda>items.
     ebind (require (items \<noteq> [] \<and>
              list_all (\<lambda>x. fst x \<in> (\<lambda>f. PStr (fst f)) ` set (sc_fields s)) items)
              ValidationError ''changes must be a nonempty mapping of declared metadata fields'') (\<lambda>_.
     emapM (check_change s) items))"

definition update_metadata ::
  "pyval \<Rightarrow> blob_schema option \<Rightarrow> pyval \<Rightarrow> pyval \<Rightarrow> db \<Rightarrow> (blob_record \<times> db) res" where
  "update_metadata id' schema changes expected_version d =
     ebind (py_identifier id') (\<lambda>i.
     ebind (check_schema True schema d) (\<lambda>s.
     ebind (expect (as_int expected_version) ValidationError
              ''expected_version must be a positive, incrementable int64'') (\<lambda>ver.
     ebind (require (1 \<le> ver \<and> ver < 2 ^ 63 - 1) ValidationError
              ''expected_version must be a positive, incrementable int64'') (\<lambda>_.
     ebind (check_changes s changes) (\<lambda>values.
     ebind (get_record True i d) (\<lambda>current.
     ebind (require ((r_schema_name current, r_schema_version current, r_version current) =
                       (sc_name s, sc_version s, ver)) ConflictError
              ''Metadata schema or concurrency version is stale'') (\<lambda>_.
     ebind (update_data (table_name s) i (sc_version s) ver values d) (\<lambda>(hit, d').
     ebind (require hit ConflictError ''Metadata changed before the guarded update'') (\<lambda>_.
     ebind (get_record True i d') (\<lambda>r. Inr (r, d')))))))))))"

end
