(* ===== verification/Lifecycle.thy ===== *)
theory Lifecycle
  imports Store
begin

text \<open>
  \<^verbatim>\<open>lifecycle.py\<close>: retirement of blobs, revocation of prepared tokens and the
  inspection of uncertain outcomes. A cleanup intent is a row of \<open>ms_gc\<close>; bytes are removed only
  by the maintenance operations (theory \<open>Maintenance\<close>).
\<close>

section \<open>Retirement\<close>

text \<open>\<open>retired(tx, id)\<close>: the retirement with its cleanup intent.\<close>

definition retirement :: "string \<Rightarrow> db \<Rightarrow> (retired_row \<times> gc_row) option res" where
  "retirement i d =
     ebind (table d ''ms_retired'') (\<lambda>_.
     ebind (table d ''ms_gc'') (\<lambda>_.
     Inr (case row_with t_blob i (ms_retired d) of
            None \<Rightarrow> None
          | Some t \<Rightarrow>
              (case row_with g_blob (Some i) (ms_gc d) of None \<Rightarrow> None | Some g \<Rightarrow> Some (t, g)))))"

definition retired_of :: "blob_record \<Rightarrow> retired_row" where
  "retired_of r =
     \<lparr> t_blob = r_id r, t_token = r_token r, t_schema = r_schema_name r,
       t_version = r_schema_version r, t_metadata_version = r_version r \<rparr>"

definition gc_of :: "blob_record \<Rightarrow> gc_row" where
  "gc_of r =
     \<lparr> g_storage = r_storage r, g_key = r_key r, g_token = Some (r_token r), g_blob = Some (r_id r),
       g_reason = RetiredBlob, g_state = Pending, g_error = None \<rparr>"

text \<open>The six writing statements of \<open>delete\<close>.\<close>

definition retire_rows :: "blob_record \<Rightarrow> db \<Rightarrow> db res" where
  "retire_rows r d =
     ebind (insert_retired (retired_of r) d) (\<lambda>d.
     ebind (insert_gc (gc_of r) d) (\<lambda>d.
     ebind (update_pending_delete (r_id r) d) (\<lambda>d.
     ebind (delete_data (data_table_of (r_schema_name r)) (r_id r) d) (\<lambda>d.
     ebind (delete_object_row (r_id r) d) (\<lambda>d.
     delete_blob (r_id r) d)))))"

definition migrating :: "string \<Rightarrow> db \<Rightarrow> bool" where
  "migrating name d =
     (has_object d ''ms_migrations'' \<and> list_ex (\<lambda>j. j_schema j = name \<and> j_running j) (ms_migrations d))"

text \<open>\<open>delete(store, id, expected_version, tx)\<close>\<close>

definition delete ::
  "string \<Rightarrow> pyval \<Rightarrow> pyval \<Rightarrow> db \<Rightarrow> ((retired_row \<times> gc_row) option \<times> db) res" where
  "delete sid id' expected_version d =
     ebind (py_identifier id') (\<lambda>i.
     ebind (expect (as_int expected_version) ValidationError
              ''expected_version must be a positive int64'') (\<lambda>ver.
     ebind (require (1 \<le> ver \<and> ver < 2 ^ 63) ValidationError
              ''expected_version must be a positive int64'') (\<lambda>_.
     ebind (verify_lifecycle d) (\<lambda>_.
     ebind (retirement i d) (\<lambda>previous.
     case previous of
       Some (t, g) \<Rightarrow>
         ebind (require (g_storage g = sid) ValidationError
                  ''Retirement belongs to another storage root'') (\<lambda>_.
         ebind (require (t_metadata_version t = ver) ConflictError
                  ''Retirement concurrency version differs'') (\<lambda>_. Inr (Some (t, g), d)))
     | None \<Rightarrow>
         ebind (get_record False i d) (\<lambda>r.
         ebind (require (r_storage r = sid) ValidationError ''Blob belongs to another storage root'') (\<lambda>_.
         ebind (require (r_version r = ver) ConflictError ''Metadata concurrency version is stale'') (\<lambda>_.
         ebind (require (\<not> migrating (r_schema_name r) d) ConflictError
                  ''Finish the schema migration before retiring its blobs'') (\<lambda>_.
         ebind (retire_rows r d) (\<lambda>d'.
         ebind (retirement i d') (\<lambda>result. Inr (result, d')))))))))))) "

text \<open>\<open>deletion_status(id)\<close>\<close>

definition deletion_status :: "pyval \<Rightarrow> db \<Rightarrow> (retired_row \<times> gc_row) res" where
  "deletion_status id' d =
     ebind (py_identifier id') (\<lambda>i.
     ebind (verify_lifecycle d) (\<lambda>_.
     ebind (retirement i d) (\<lambda>r. expect r NotFoundError ''No retirement'')))"

section \<open>Revocation of tokens\<close>

definition discarded_gc :: "prepared_row \<Rightarrow> gc_row" where
  "discarded_gc p =
     \<lparr> g_storage = p_storage p, g_key = p_key p, g_token = Some (p_token p), g_blob = None,
       g_reason = DiscardedToken, g_state = Pending, g_error = None \<rparr>"

text \<open>\<open>discard(store, prepared, tx)\<close>\<close>

definition discard :: "string \<Rightarrow> token_arg \<Rightarrow> db \<Rightarrow> (gc_row \<times> db) res" where
  "discard sid arg d =
     ebind (verify_lifecycle d) (\<lambda>_.
     ebind (expect (physical arg) ValidationError ''Expected the PreparedFile of this storage root'') (\<lambda>p.
     ebind (require (p_storage p = sid) ValidationError
              ''Expected the PreparedFile of this storage root'') (\<lambda>_.
     ebind (matches arg p d) (\<lambda>ok.
     ebind (require ok ValidationError ''Prepared token is unknown or altered'') (\<lambda>_.
     ebind (table d ''ms_objects'') (\<lambda>_.
     ebind (require (p_token p \<notin> o_token ` set (ms_objects d)) ConflictError
              ''Prepared token belongs to a blob; resolve that blob first'') (\<lambda>_.
     ebind (require (p_token p \<notin> t_token ` set (ms_retired d)) ConflictError
              ''Prepared token belongs to a retired blob'') (\<lambda>_.
     ebind (insert_or_ignore_gc (discarded_gc p) d) (\<lambda>d'.
     ebind (expect (row_with g_token (Some (p_token p)) (ms_gc d')) PyIndexError
              ''list index out of range'') (\<lambda>g. Inr (g, d')))))))))))"

section \<open>Resolution of an uncertain outcome\<close>

datatype outcome =
    OutRetired retired_row gc_row
  | OutBlob blob_record
  | OutDiscarded
  | OutUnknown
  | OutPrepared

text \<open>\<open>resolve(store, id, prepared, schema, metadata, tx)\<close>, after the \<open>verify\<close> of \<open>Store.resolve\<close>.\<close>

definition resolve ::
  "string \<Rightarrow> pyval \<Rightarrow> token_arg \<Rightarrow> blob_schema option \<Rightarrow> pyval \<Rightarrow> db \<Rightarrow> outcome res" where
  "resolve sid id' arg schema metadata d =
     ebind (verify_lifecycle d) (\<lambda>_.
     ebind (py_identifier id') (\<lambda>i.
     ebind (expect (physical arg) ValidationError ''Expected the PreparedFile of this storage root'') (\<lambda>p.
     ebind (require (p_storage p = sid) ValidationError
              ''Expected the PreparedFile of this storage root'') (\<lambda>_.
     ebind (check_schema False schema d) (\<lambda>s.
     ebind (normalize_metadata s metadata) (\<lambda>values.
     ebind (require ((p_schema p, p_version p) = (sc_name s, sc_version s)) ValidationError
              ''Token and schema differ'') (\<lambda>_.
     ebind (table d ''ms_prepared'') (\<lambda>_.
     let journaled = (row_with p_token (p_token p) (ms_prepared d) \<noteq> None) in
     ebind (if journaled then matches arg p d else Inr True) (\<lambda>ok.
     ebind (require ok ConflictError ''Prepared token descriptor differs'') (\<lambda>_.
     ebind (retirement i d) (\<lambda>prior.
     case prior of
       Some (t, g) \<Rightarrow>
         ebind (require (t_token t = p_token p) ConflictError
                  ''ID belongs to another retired operation'') (\<lambda>_. Inr (OutRetired t g))
     | None \<Rightarrow>
         if i \<in> b_id ` set (ms_blobs d)
         then ebind (get_record False i d) (\<lambda>r.
              ebind (require ((r_token r, r_schema_name r, r_schema_version r, r_metadata r) =
                                (p_token p, sc_name s, sc_version s, values)) ConflictError
                       ''ID exists with different object or metadata'') (\<lambda>_. Inr (OutBlob r)))
         else if p_token p \<in> o_token ` set (ms_objects d)
         then raise ConflictError ''Token is associated with another ID''
         else if Some (p_token p) \<in> g_token ` set (ms_gc d) then Inr OutDiscarded
         else Inr (if journaled then OutPrepared else OutUnknown))))))))))))"

end
