(* ===== verification/Storage.thy ===== *)
theory Storage
  imports Store
begin

text \<open>
  Local payload storage (\<^verbatim>\<open>storage.py\<close>): a root is a map from object paths to bytes.
  The hash XXH3-128 is the parameter \<open>xxh\<close> (its hexadecimal digest); of it only the form of the
  digest is ever assumed. The transfers of \<open>obstore\<close> are the operations that its documentation
  gives them: \<open>put\<close>, \<open>rename\<close> without overwriting, \<open>get\<close>, \<open>delete\<close>.
\<close>

type_synonym bytes = string
type_synonym root = "string \<rightharpoonup> bytes"
type_synonym digest = "bytes \<Rightarrow> string"

definition is_digest :: "digest \<Rightarrow> bool" where
  "is_digest xxh = (\<forall>b. digest_form (xxh b))"

text \<open>\<open>KEY_PATTERN\<close> and \<open>CLEANUP_PATTERN\<close>\<close>

definition hex32 :: "string \<Rightarrow> bool" where
  "hex32 s = (length s = 32 \<and> list_all is_hex_digit s)"

definition object_key :: "string \<Rightarrow> bool" where
  "object_key k = (starts_with ''objects/'' k \<and> hex32 (drop 8 k))"

definition cleanup_pattern :: "string \<Rightarrow> bool" where
  "cleanup_pattern k = (object_key k \<or> starts_with ''staging/'' k \<and> hex32 (drop 8 k))"

text \<open>\<open>hash_file(path)\<close> reads chunks of one MiB and counts their bytes.\<close>

function chunks :: "nat \<Rightarrow> bytes \<Rightarrow> bytes list" where
  "chunks n b = (if b = [] \<or> n = 0 then [] else take n b # chunks n (drop n b))"
  by pat_completeness auto

termination chunks
  by (relation "measure (\<lambda>(n, b). length b)") auto

declare chunks.simps [simp del]

definition CHUNK_SIZE :: nat where
  "CHUNK_SIZE = 1024 * 1024"

definition hash_file :: "digest \<Rightarrow> bytes \<Rightarrow> int \<times> string" where
  "hash_file xxh b =
     (let cs = chunks CHUNK_SIZE b
      in (sum_list (map (int \<circ> length) cs), xxh (concat cs)))"

lemma concat_chunks: "0 < n \<Longrightarrow> concat (chunks n b) = b"
  by (induction n b rule: chunks.induct) (subst chunks.simps, simp)

lemma sum_chunks: "0 < n \<Longrightarrow> sum_list (map (int \<circ> length) (chunks n b)) = int (length b)"
proof (induction n b rule: chunks.induct)
  case (1 n b)
  show ?case
  proof (cases "b = []")
    case False
    have "int (length (take n b)) + int (length (drop n b)) = int (length b)"
      by (metis append_take_drop_id length_append of_nat_add)
    with 1 False show ?thesis by (subst chunks.simps) (simp add: comp_def)
  qed (subst chunks.simps, simp)
qed

lemma hash_file_eq: "hash_file xxh b = (int (length b), xxh b)"
  using concat_chunks [of CHUNK_SIZE b] sum_chunks [of CHUNK_SIZE b]
  by (simp add: hash_file_def CHUNK_SIZE_def)

text \<open>
  \<open>upload(path, key)\<close>: the bytes reach a fresh staging path, which is then renamed without
  overwriting. \<open>fault\<close> says how far a failing transfer came: not at all, or to the staging path.
\<close>

datatype transfer = Transferred | StageFailed | StageLeft

definition upload :: "transfer \<Rightarrow> string \<Rightarrow> bytes \<Rightarrow> string \<Rightarrow> root \<Rightarrow> root \<times> unit res" where
  "upload fault stage b key r =
     (if \<not> object_key key then (r, raise ValidationError ''Invalid MeldStore object key'')
      else if fault = StageFailed then (r, raise StorageError ''Local upload failed'')
      else if fault = StageLeft \<or> r key \<noteq> None
      then (r(stage \<mapsto> b), raise StorageError ''Local upload failed'')
      else (r(key \<mapsto> b), Inr ()))"

text \<open>
  \<open>materialize(key, byte_size, digest)\<close>. The answer of \<open>obstore.get\<close> is the announced size
  with the streamed chunks, or nothing for a missing object; what the backend sends is not trusted.
\<close>

type_synonym answer = "(int \<times> bytes list) option"

fun receive :: "int \<Rightarrow> int \<Rightarrow> bytes list \<Rightarrow> int res" where
  "receive limit n [] = Inr n"
| "receive limit n (c # cs) =
     (if limit < n + int (length c) then raise IntegrityError ''Stored data exceeds catalog size''
      else receive limit (n + int (length c)) cs)"

definition materialize :: "digest \<Rightarrow> string \<Rightarrow> int \<Rightarrow> string \<Rightarrow> answer \<Rightarrow> bytes res" where
  "materialize xxh key byte_size dig got =
     ebind (require (object_key key) ValidationError ''Invalid MeldStore object key'') (\<lambda>_.
     ebind (expect got IntegrityError ''Catalog references a missing object'') (\<lambda>(announced, cs).
     ebind (require (announced = byte_size) IntegrityError ''Stored size differs from catalog'') (\<lambda>_.
     ebind (receive byte_size 0 cs) (\<lambda>n.
     ebind (require (n = byte_size \<and> xxh (concat cs) = dig) IntegrityError
              ''Stored bytes fail XXH3-128 verification'') (\<lambda>_. Inr (concat cs))))))"

text \<open>The answer for the bytes that a root holds.\<close>

definition get_object :: "string \<Rightarrow> root \<Rightarrow> answer" where
  "get_object key r = map_option (\<lambda>b. (int (length b), chunks CHUNK_SIZE b)) (r key)"

lemma sum_lengths: "sum_list (map (int \<circ> length) cs) = int (length (concat cs))"
  by (induction cs) simp_all

lemma receive_eq:
  "(receive limit n cs = Inr m) = (m = n + int (length (concat cs)) \<and> (cs = [] \<or> m \<le> limit))"
proof (induction cs arbitrary: n)
  case (Cons c cs)
  show ?case
    using Cons.IH [of "n + int (length c)"] by auto
qed auto

lemma materialize_Inr:
  "(materialize xxh key n dig got = Inr b) =
     (\<exists>cs. object_key key \<and> got = Some (n, cs) \<and> b = concat cs \<and> int (length b) = n \<and> xxh b = dig)"
  by (auto simp: materialize_def receive_eq)

lemma materialize_object:
  "(materialize xxh key n dig (get_object key r) = Inr b) =
     (object_key key \<and> r key = Some b \<and> int (length b) = n \<and> xxh b = dig)"
proof -
  have "concat (chunks CHUNK_SIZE b) = b" for b
    by (rule concat_chunks) (simp add: CHUNK_SIZE_def)
  then show ?thesis
    unfolding materialize_Inr get_object_def by (cases "r key") auto
qed

text \<open>
  \<open>cleanup_key\<close> and \<open>delete_object(key)\<close>; \<open>linked\<close> are the paths that are, or lead through,
  symbolic links or junctions, and directories. \<open>ok\<close> tells whether the deletion succeeds.
\<close>

definition cleanup_key :: "(string \<Rightarrow> bool) \<Rightarrow> pyval \<Rightarrow> string res" where
  "cleanup_key linked k =
     (case k of
        PStr key \<Rightarrow>
          if \<not> cleanup_pattern key
          then raise ValidationError ''Cleanup accepts only exact MeldStore object/staging keys''
          else if linked key
          then raise ValidationError ''Cleanup will not follow symlinks or junctions''
          else Inr key
      | _ \<Rightarrow> raise ValidationError ''Cleanup accepts only exact MeldStore object/staging keys'')"

definition delete_object :: "(string \<Rightarrow> bool) \<Rightarrow> bool \<Rightarrow> string \<Rightarrow> root \<Rightarrow> root \<times> unit res" where
  "delete_object linked ok key r =
     (case cleanup_key linked (PStr key) of
        Inl e \<Rightarrow> (r, Inl e)
      | Inr _ \<Rightarrow>
          if ok \<or> r key = None then (r(key := None), Inr ())
          else (r, raise StorageError ''Object deletion failed; cleanup remains pending''))"

end
