(* ===== verification/Catalog.thy ===== *)
theory Catalog
  imports Errors
begin

text \<open>
  Transactions of \<^verbatim>\<open>catalog.py\<close> over the \<open>sqlite3\<close> adapter. A connection has its
  committed data, the data of an open transaction and the \<open>query_only\<close> switch; each driver call
  may fail before or after its effect. The code inside \<open>with catalog.transaction()\<close> is a program
  of statements and library operations that may catch what they raise. \<open>ok\<close> tells which data a
  \<open>COMMIT\<close> accepts (the deferred constraints).
\<close>

section \<open>Connection\<close>

datatype fault = NoFault | FailBefore | FailAfter

record 'd connection =
  committed :: 'd
  working :: "'d option"
  query_only :: bool

datatype driver_error = DriverConstraint | DriverBusy | DriverOther

datatype failure = Raised error | Driver driver_error | Interrupt

text \<open>\<open>_translate(exc)\<close>: library errors stay, driver errors become library errors.\<close>

fun translate :: "failure \<Rightarrow> failure" where
  "translate (Raised e) = Raised e"
| "translate (Driver DriverConstraint) = Raised (Err ConstraintError [])"
| "translate (Driver DriverBusy) = Raised (Err BusyError [])"
| "translate (Driver DriverOther) = Raised (Err ValidationError [])"
| "translate Interrupt = Interrupt"

text \<open>A driver call with an effect: the connection afterwards and whether the call raised.\<close>

definition driver_call :: "fault \<Rightarrow> ('c \<Rightarrow> 'c) \<Rightarrow> 'c \<Rightarrow> 'c \<times> bool" where
  "driver_call f effect c =
     (case f of NoFault \<Rightarrow> (effect c, False) | FailBefore \<Rightarrow> (c, True) | FailAfter \<Rightarrow> (effect c, True))"

definition do_begin :: "'d connection \<Rightarrow> 'd connection" where
  "do_begin c = c\<lparr> working := Some (committed c) \<rparr>"

definition do_rollback :: "'d connection \<Rightarrow> 'd connection" where
  "do_rollback c = c\<lparr> working := None \<rparr>"

definition do_commit :: "'d connection \<Rightarrow> 'd connection" where
  "do_commit c =
     (case working c of None \<Rightarrow> c | Some w \<Rightarrow> c\<lparr> committed := w, working := None \<rparr>)"

text \<open>The call that sets \<open>query_only\<close> and reads it back.\<close>

definition set_query_only :: "bool \<Rightarrow> 'd connection \<Rightarrow> 'd connection" where
  "set_query_only b c = c\<lparr> query_only := b \<rparr>"

section \<open>Programs inside a transaction\<close>

text \<open>
  A statement has its text, which \<open>_check_sql\<close> accepts or not, an answer, and whether it writes.
  \<open>Operation\<close> is a library operation under \<open>tx.operation()\<close>; \<open>Idle\<close> is a call that needs
  an idle catalog: storage I/O, or another \<open>transaction()\<close>.
\<close>

record ('d, 'r) stmt =
  st_allowed :: bool
  st_writes :: bool
  st_run :: "'d \<Rightarrow> driver_error + 'r \<times> 'd"

datatype ('d, 'r) prog =
    Return 'r
  | Throw failure
  | Sql "('d, 'r) stmt" "failure + 'r \<Rightarrow> ('d, 'r) prog"
  | Operation "'d \<Rightarrow> error + 'r \<times> 'd" "failure + 'r \<Rightarrow> ('d, 'r) prog"
  | Idle "failure \<Rightarrow> ('d, 'r) prog"

text \<open>The data and \<open>tx._failed\<close>.\<close>

type_synonym 'd tx = "'d \<times> bool"

definition run_stmt :: "bool \<Rightarrow> ('d, 'r) stmt \<Rightarrow> 'd \<Rightarrow> driver_error + 'r \<times> 'd" where
  "run_stmt qo st d =
     (if st_writes st then if qo then Inl DriverOther else st_run st d
      else case st_run st d of Inl e \<Rightarrow> Inl e | Inr (x, _) \<Rightarrow> Inr (x, d))"

text \<open>\<open>Transaction.sql\<close>\<close>

definition tx_sql :: "bool \<Rightarrow> ('d, 'r) stmt \<Rightarrow> 'd tx \<Rightarrow> 'd tx \<times> (failure + 'r)" where
  "tx_sql qo st t =
     (case t of (d, failed) \<Rightarrow>
       if failed then ((d, True), Inl (Raised (Err TransactionError ''Transaction is expired or failed'')))
       else if \<not> st_allowed st
       then ((d, True), Inl (Raised (Err ValidationError ''Transaction and connection control SQL is not supported'')))
       else case run_stmt qo st d of
         Inl e \<Rightarrow> ((d, True), Inl (translate (Driver e)))
       | Inr (x, d') \<Rightarrow> ((d', False), Inr x))"

text \<open>
  \<open>require_transaction\<close> and \<open>Transaction.operation\<close> around a library operation; in
  query-only mode its first writing statement raises.
\<close>

definition tx_operation ::
  "bool \<Rightarrow> ('d \<Rightarrow> error + 'r \<times> 'd) \<Rightarrow> 'd tx \<Rightarrow> 'd tx \<times> (failure + 'r)" where
  "tx_operation qo op t =
     (case t of (d, failed) \<Rightarrow>
       if failed then ((d, True), Inl (Raised (Err TransactionError ''Transaction is expired or failed'')))
       else case op d of
         Inl e \<Rightarrow> ((d, True), Inl (Raised e))
       | Inr (x, d') \<Rightarrow>
           if qo \<and> d' \<noteq> d then ((d, True), Inl (translate (Driver DriverOther)))
           else ((d', False), Inr x))"

text \<open>\<open>require_idle\<close>, and \<open>transaction\<close>, while a transaction is active.\<close>

definition busy_call :: "'d tx \<Rightarrow> 'd tx \<times> failure" where
  "busy_call t =
     ((fst t, True), Raised (Err TransactionError ''Storage I/O must occur outside a catalog transaction''))"

primrec exec :: "('d, 'r) prog \<Rightarrow> bool \<Rightarrow> 'd tx \<Rightarrow> 'd tx \<times> (failure + 'r)" where
  "exec (Return x) qo t = (t, Inr x)"
| "exec (Throw f) qo t = (t, Inl f)"
| "exec (Sql st k) qo t = (case tx_sql qo st t of (t', r) \<Rightarrow> exec (k r) qo t')"
| "exec (Operation op k) qo t =
     (case tx_operation qo op t of (t', r) \<Rightarrow> exec (k r) qo t')"
| "exec (Idle k) qo t = (case busy_call t of (t', f) \<Rightarrow> exec (k f) qo t')"

section \<open>Transactions\<close>

datatype phase = BeginPhase | CommitPhase | RollbackPhase | CleanupPhase
datatype certainty = OutcomeUnknown | OutcomeCommitted | OutcomeRolledBack

datatype 'r tx_result =
    Returned 'r
  | Failed failure
  | Uncertain error_kind phase certainty

text \<open>The driver calls of one transaction, each with its fault; what a failing start raises.\<close>

record faults =
  f_read_mode :: fault
  f_enter_mode :: fault
  f_begin :: fault
  f_undo :: fault
  f_undo_mode :: fault
  f_rollback :: fault
  f_commit :: fault
  f_leave_mode :: fault
  f_error :: failure

record 'd catalog =
  conn :: "'d connection"
  active :: bool
  closed :: bool
  broken :: bool

text \<open>\<open>_check()\<close>; \<open>here\<close> tells whether the caller is the creating thread.\<close>

definition check :: "bool \<Rightarrow> 'd catalog \<Rightarrow> unit res" where
  "check here c =
     ebind (require here TransactionError ''Catalog is confined to its creating thread'') (\<lambda>_.
     ebind (require (\<not> closed c) TransactionError ''Catalog is closed'') (\<lambda>_.
     require (\<not> broken c) TransactionError ''Catalog needs closing after a failed commit or rollback''))"

definition quarantine :: "'d catalog \<Rightarrow> 'd catalog" where
  "quarantine c = c\<lparr> broken := True \<rparr>"

text \<open>The start: entering query-only mode for a reader, and \<open>BEGIN\<close>; the mode that was read.\<close>

definition start :: "bool \<Rightarrow> faults \<Rightarrow> 'd connection \<Rightarrow> 'd connection \<times> bool \<times> bool option" where
  "start write fs c =
     (if write
      then (case driver_call (f_begin fs) do_begin c of (c1, bad) \<Rightarrow> (c1, bad, None))
      else if f_read_mode fs \<noteq> NoFault then (c, True, None)
      else case driver_call (f_enter_mode fs) (set_query_only True) c of
        (c1, True) \<Rightarrow> (c1, True, Some (query_only c))
      | (c1, False) \<Rightarrow>
          (case driver_call (f_begin fs) do_begin c1 of (c2, bad) \<Rightarrow> (c2, bad, Some (query_only c))))"

text \<open>The recovery from a failed start: \<open>ROLLBACK\<close> of an open transaction and the old mode.\<close>

definition undo :: "faults \<Rightarrow> bool option \<Rightarrow> 'd connection \<Rightarrow> 'd connection \<times> bool" where
  "undo fs previous c =
     (case (if working c \<noteq> None then driver_call (f_undo fs) do_rollback c else (c, False)) of
        (c1, True) \<Rightarrow> (c1, True)
      | (c1, False) \<Rightarrow>
          (case previous of
             None \<Rightarrow> (c1, False)
           | Some m \<Rightarrow> driver_call (f_undo_mode fs) (set_query_only m) c1))"

text \<open>The end of a transaction whose body raised \<open>f\<close>.\<close>

definition roll_back ::
  "bool \<Rightarrow> faults \<Rightarrow> bool option \<Rightarrow> failure \<Rightarrow> 'd catalog \<Rightarrow> 'd catalog \<times> 'r tx_result" where
  "roll_back write fs previous f c =
     (case driver_call (f_rollback fs) do_rollback (conn c) of
        (k, True) \<Rightarrow> (quarantine (c\<lparr> conn := k \<rparr>), Uncertain RollbackError RollbackPhase OutcomeUnknown)
      | (k, False) \<Rightarrow>
          if write then (c\<lparr> conn := k \<rparr>, Failed f)
          else case driver_call (f_leave_mode fs) (set_query_only (previous = Some True)) k of
            (k', True) \<Rightarrow>
              (quarantine (c\<lparr> conn := k' \<rparr>), Uncertain RollbackError CleanupPhase OutcomeRolledBack)
          | (k', False) \<Rightarrow> (c\<lparr> conn := k' \<rparr>, Failed f))"

text \<open>The end of a transaction whose body returned; \<open>COMMIT\<close> fails on data that \<open>ok\<close> rejects.\<close>

definition finish ::
  "('d \<Rightarrow> bool) \<Rightarrow> bool \<Rightarrow> faults \<Rightarrow> bool option \<Rightarrow> 'r \<Rightarrow> 'd catalog \<Rightarrow> 'd catalog \<times> 'r tx_result" where
  "finish ok write fs previous x c =
     (let accepted = (case working (conn c) of None \<Rightarrow> True | Some w \<Rightarrow> ok w) in
      case driver_call (if accepted then f_commit fs else FailBefore) do_commit (conn c) of
        (k, True) \<Rightarrow> (quarantine (c\<lparr> conn := k \<rparr>), Uncertain CommitError CommitPhase OutcomeUnknown)
      | (k, False) \<Rightarrow>
          if write then (c\<lparr> conn := k \<rparr>, Returned x)
          else case driver_call (f_leave_mode fs) (set_query_only (previous = Some True)) k of
            (k', True) \<Rightarrow>
              (quarantine (c\<lparr> conn := k' \<rparr>), Uncertain CommitError CleanupPhase OutcomeCommitted)
          | (k', False) \<Rightarrow> (c\<lparr> conn := k' \<rparr>, Returned x))"

text \<open>\<open>with catalog.transaction(write=write)\<close> around a program, with the \<open>sqlite\<close> adapter.\<close>

definition transaction ::
  "('d \<Rightarrow> bool) \<Rightarrow> bool \<Rightarrow> bool \<Rightarrow> faults \<Rightarrow> ('d, 'r) prog \<Rightarrow> 'd catalog \<Rightarrow> 'd catalog \<times> 'r tx_result" where
  "transaction ok here write fs body c =
     (case check here c of
        Inl e \<Rightarrow> (c, Failed (Raised e))
      | Inr _ \<Rightarrow>
          if active c then (c, Failed (Raised (Err TransactionError ''Nested transactions are not supported'')))
          else case start write fs (conn c) of
            (k, True, previous) \<Rightarrow>
              (case undo fs previous k of
                 (k', True) \<Rightarrow>
                   (quarantine (c\<lparr> conn := k' \<rparr>),
                    Uncertain TransactionOutcomeError BeginPhase OutcomeUnknown)
               | (k', False) \<Rightarrow> (c\<lparr> conn := k' \<rparr>, Failed (translate (f_error fs))))
          | (k, False, previous) \<Rightarrow>
              (case exec body (query_only k) (committed k, False) of
                 ((w, failed), r) \<Rightarrow>
                   let c1 = c\<lparr> conn := k\<lparr> working := Some w \<rparr> \<rparr> in
                   case r of
                     Inl f \<Rightarrow> roll_back write fs previous f c1
                   | Inr x \<Rightarrow>
                       if failed
                       then roll_back write fs previous
                              (Raised (Err TransactionError ''Failed transaction cannot commit'')) c1
                       else finish ok write fs previous x c1))"

text \<open>The data that a transaction would commit, and whether it tries to.\<close>

definition body_result :: "('d, 'r) prog \<Rightarrow> bool \<Rightarrow> 'd \<Rightarrow> 'd" where
  "body_result body qo d = fst (fst (exec body qo (d, False)))"

definition body_commits :: "('d, 'r) prog \<Rightarrow> bool \<Rightarrow> 'd \<Rightarrow> bool" where
  "body_commits body qo d =
     (case exec body qo (d, False) of ((w, failed), r) \<Rightarrow> \<not> failed \<and> (\<exists>x. r = Inr x))"

section \<open>A failure inside a transaction\<close>

lemma tx_sql_failed: "snd t \<Longrightarrow> fst (tx_sql qo st t) = t"
  by (cases t) (simp add: tx_sql_def)

lemma tx_operation_failed: "snd t \<Longrightarrow> fst (tx_operation qo op t) = t"
  by (cases t) (simp add: tx_operation_def)

lemma busy_call_failed: "snd t \<Longrightarrow> fst (busy_call t) = t"
  by (cases t) (simp add: busy_call_def)

text \<open>Once failed, a transaction stays failed and its data stays as it is.\<close>

lemma exec_failed: "snd t \<Longrightarrow> fst (exec p qo t) = t"
proof (induction p arbitrary: t)
  case (Sql st k)
  then show ?case using tx_sql_failed [OF Sql.prems, of qo st] by (auto split: prod.splits)
next
  case (Operation op k)
  then show ?case using tx_operation_failed [OF Operation.prems, of qo op] by (auto split: prod.splits)
next
  case (Idle k)
  then show ?case using busy_call_failed [OF Idle.prems] by (auto split: prod.splits)
qed simp_all

lemma tx_sql_raises: "snd (tx_sql qo st t) = Inl f \<Longrightarrow> snd (fst (tx_sql qo st t))"
  by (auto simp: tx_sql_def split: prod.splits if_splits sum.splits)

lemma tx_operation_raises: "snd (tx_operation qo op t) = Inl f \<Longrightarrow> snd (fst (tx_operation qo op t))"
  by (auto simp: tx_operation_def split: prod.splits if_splits sum.splits)

text \<open>The failures that a program meets, whether or not it catches them.\<close>

primrec meets_failure :: "('d, 'r) prog \<Rightarrow> bool \<Rightarrow> 'd tx \<Rightarrow> bool" where
  "meets_failure (Return x) qo t = False"
| "meets_failure (Throw f) qo t = True"
| "meets_failure (Sql st k) qo t =
     (case tx_sql qo st t of (t', r) \<Rightarrow> (\<exists>f. r = Inl f) \<or> meets_failure (k r) qo t')"
| "meets_failure (Operation op k) qo t =
     (case tx_operation qo op t of (t', r) \<Rightarrow> (\<exists>f. r = Inl f) \<or> meets_failure (k r) qo t')"
| "meets_failure (Idle k) qo t = True"

lemma failure_poisons:
  "meets_failure p qo t \<Longrightarrow> snd (fst (exec p qo t)) \<or> (\<exists>f. snd (exec p qo t) = Inl f)"
proof (induction p arbitrary: t)
  case (Sql st k)
  obtain t' r where s: "tx_sql qo st t = (t', r)" by (cases "tx_sql qo st t")
  show ?case
  proof (cases r)
    case (Inl f)
    then have "snd t'" using tx_sql_raises [of qo st t f] s by simp
    then show ?thesis using exec_failed [of t' "k r" qo] s by simp
  next
    case (Inr x)
    then show ?thesis using Sql.IH [of "k r" t'] Sql.prems s by auto
  qed
next
  case (Operation op k)
  obtain t' r where s: "tx_operation qo op t = (t', r)" by (cases "tx_operation qo op t")
  show ?case
  proof (cases r)
    case (Inl f)
    then have "snd t'" using tx_operation_raises [of qo op t f] s by simp
    then show ?thesis using exec_failed [of t' "k r" qo] s by simp
  next
    case (Inr x)
    then show ?thesis using Operation.IH [of "k r" t'] Operation.prems s by auto
  qed
next
  case (Idle k)
  obtain t' f where s: "busy_call t = (t', f)" by (cases "busy_call t")
  then have "snd t'" by (auto simp: busy_call_def)
  then show ?case using exec_failed [of t' "k f" qo] s by simp
qed simp_all

lemma body_commits_clean: "body_commits p qo d \<Longrightarrow> \<not> meets_failure p qo (d, False)"
  using failure_poisons [of p qo "(d, False)"] by (auto simp: body_commits_def split: prod.splits)

text \<open>In query-only mode the data does not change.\<close>

lemma exec_query_only: "fst (fst (exec p True t)) = fst t"
proof (induction p arbitrary: t)
  case (Sql st k)
  have "fst (fst (tx_sql True st t)) = fst t"
    by (auto simp: tx_sql_def run_stmt_def split: prod.splits if_splits sum.splits)
  then show ?case using Sql.IH by (auto split: prod.splits)
next
  case (Operation op k)
  have "fst (fst (tx_operation True op t)) = fst t"
    by (auto simp: tx_operation_def split: prod.splits if_splits sum.splits)
  then show ?case using Operation.IH by (auto split: prod.splits)
next
  case (Idle k)
  then show ?case by (auto simp: busy_call_def)
qed simp_all

section \<open>Outcomes\<close>

lemma driver_call_cases:
  "driver_call f effect c = (c', bad) \<Longrightarrow> (c' = effect c \<or> bad \<and> c' = c) \<and> bad = (f \<noteq> NoFault)"
  by (auto simp: driver_call_def split: fault.splits)

lemma start_failed:
  assumes "start write fs c = (c', True, previous)"
  shows "committed c' = committed c"
    "(case previous of None \<Rightarrow> query_only c' | Some m \<Rightarrow> m) = query_only c"
  using assms
  by (auto simp: start_def driver_call_def do_begin_def set_query_only_def
      split: if_splits fault.splits prod.splits bool.splits)

lemma start_ok:
  assumes "start write fs c = (c', False, previous)"
  shows "committed c' = committed c" "query_only c' = (query_only c \<or> \<not> write)"
    "previous = (if write then None else Some (query_only c))"
  using assms
  by (auto simp: start_def driver_call_def do_begin_def set_query_only_def
      split: if_splits fault.splits prod.splits bool.splits)

lemma undo_keeps:
  assumes "undo fs previous c = (c', bad)"
  shows "committed c' = committed c \<and>
    (\<not> bad \<longrightarrow> working c' = None \<and> query_only c' = (case previous of None \<Rightarrow> query_only c | Some m \<Rightarrow> m))"
  using assms
  by (auto simp: undo_def driver_call_def do_rollback_def set_query_only_def
      split: if_splits fault.splits prod.splits bool.splits option.splits)

text \<open>What an outcome tells about the committed data, given the old data and the result of the body.\<close>

fun outcome_true :: "'r tx_result \<Rightarrow> 'd \<Rightarrow> 'd \<Rightarrow> 'd \<Rightarrow> bool" where
  "outcome_true (Returned x) old new now = (now = new)"
| "outcome_true (Failed f) old new now = (now = old)"
| "outcome_true (Uncertain k ph OutcomeCommitted) old new now = (now = new)"
| "outcome_true (Uncertain k ph OutcomeRolledBack) old new now = (now = old)"
| "outcome_true (Uncertain k ph OutcomeUnknown) old new now = (now = old \<or> now = new)"

fun uncertain :: "'r tx_result \<Rightarrow> bool" where
  "uncertain (Uncertain k ph o') = True"
| "uncertain r = False"

definition idle :: "'d catalog \<Rightarrow> bool" where
  "idle c = (\<not> active c \<and> \<not> closed c \<and> \<not> broken c \<and> working (conn c) = None)"

definition settled :: "'d catalog \<Rightarrow> 'd catalog \<Rightarrow> 'r tx_result \<Rightarrow> bool" where
  "settled c c' r =
     (broken c' = uncertain r \<and> \<not> active c' \<and> closed c' = closed c \<and>
      (\<not> uncertain r \<longrightarrow> idle c' \<and> query_only (conn c') = query_only (conn c)))"

lemma roll_back_outcome:
  assumes "roll_back write fs previous f c = (c', r)"
    and "\<not> active c" "\<not> closed c" "\<not> broken c"
  shows "committed (conn c') = committed (conn c) \<and> outcome_true r (committed (conn c)) new (committed (conn c')) \<and>
    (\<forall>x. r \<noteq> Returned x) \<and> broken c' = uncertain r \<and> \<not> active c' \<and> closed c' = closed c \<and>
    (\<not> uncertain r \<longrightarrow> working (conn c') = None \<and>
      query_only (conn c') = (if write then query_only (conn c) else previous = Some True))"
  using assms
  by (auto simp: roll_back_def driver_call_def do_rollback_def set_query_only_def quarantine_def
      split: if_splits fault.splits prod.splits bool.splits)

lemma finish_outcome:
  assumes "finish ok write fs previous x c = (c', r)"
    and "\<not> active c" "\<not> closed c" "\<not> broken c" "working (conn c) = Some w"
  shows "outcome_true r (committed (conn c)) w (committed (conn c')) \<and>
    (committed (conn c') \<noteq> committed (conn c) \<longrightarrow> ok w) \<and>
    ((\<exists>y. r = Returned y) \<longrightarrow> ok w \<and> r = Returned x) \<and>
    broken c' = uncertain r \<and> \<not> active c' \<and> closed c' = closed c \<and>
    (\<not> uncertain r \<longrightarrow> working (conn c') = None \<and>
      query_only (conn c') = (if write then query_only (conn c) else previous = Some True))"
  using assms
  by (auto simp: finish_def driver_call_def do_commit_def set_query_only_def quarantine_def
      split: if_splits fault.splits prod.splits bool.splits)

lemma transaction_outcome:
  fixes c :: "'d catalog"
  defines "D \<equiv> committed (conn c)"
  assumes t: "transaction ok True write fs body c = (c', r)" and i: "idle c"
    and q: "qo = (query_only (conn c) \<or> \<not> write)"
  shows "settled c c' r \<and> outcome_true r D (body_result body qo D) (committed (conn c')) \<and>
    (committed (conn c') \<noteq> D \<or> (\<exists>x. r = Returned x) \<longrightarrow>
      body_commits body qo D \<and> ok (body_result body qo D))"
proof -
  have a: "\<not> active c" "\<not> closed c" "\<not> broken c" "working (conn c) = None" "check True c = Inr ()"
    using i by (simp_all add: idle_def check_def)
  obtain k bad previous where s: "start write fs (conn c) = (k, bad, previous)"
    by (cases "start write fs (conn c)") auto
  show ?thesis
  proof (cases bad)
    case True
    obtain k' bad' where u: "undo fs previous k = (k', bad')" by (cases "undo fs previous k")
    have tr: "(c', r) = (if bad' then (quarantine (c\<lparr> conn := k' \<rparr>), Uncertain TransactionOutcomeError BeginPhase OutcomeUnknown)
        else (c\<lparr> conn := k' \<rparr>, Failed (translate (f_error fs))))"
      using t a s True u by (cases bad') (simp_all add: transaction_def)
    have sT: "start write fs (conn c) = (k, True, previous)"
      using s True by simp
    have k': "committed k' = D" "\<not> bad' \<Longrightarrow> working k' = None \<and> query_only k' = query_only (conn c)"
      using start_failed [OF sT] undo_keeps [OF u] by (simp_all add: D_def)
    show ?thesis
    proof (cases bad')
      case True
      then show ?thesis using tr a k' by (simp add: quarantine_def settled_def D_def)
    next
      case False
      then show ?thesis using tr a k' by (simp add: settled_def idle_def D_def)
    qed
  next
    case False
    obtain w failed b where e: "exec body (query_only k) (committed k, False) = ((w, failed), b)"
      by (metis prod.exhaust)
    have sF: "start write fs (conn c) = (k, False, previous)"
      using s False by simp
    note so = start_ok [OF sF]
    have k: "committed k = D" "query_only k = qo"
      unfolding D_def q by (rule so)+
    have W: "body_result body qo D = w"
      using e k by (simp add: body_result_def)
    let ?c1 = "c\<lparr> conn := k\<lparr> working := Some w \<rparr> \<rparr>"
    have c1: "\<not> active ?c1" "\<not> closed ?c1" "\<not> broken ?c1" "committed (conn ?c1) = D"
        "working (conn ?c1) = Some w" "query_only (conn ?c1) = qo" "closed ?c1 = closed c"
      using a k by simp_all
    have qm: "(if write then qo else previous = Some True) = query_only (conn c)"
      by (simp add: so(3) q)
    show ?thesis
    proof (cases "\<not> failed \<and> (\<exists>x. b = Inr x)")
      case True
      then obtain x where x: "b = Inr x" "\<not> failed" by blast
      have f: "finish ok write fs previous x ?c1 = (c', r)"
        using t a(1,5) s False e x by (simp add: transaction_def Let_def)
      have "body_commits body qo D"
        using e k x by (simp add: body_commits_def)
      then show ?thesis
        using finish_outcome [OF f c1(1-3) c1(5)] c1 qm W
        by (auto simp: settled_def idle_def)
    next
      case no: False
      obtain f where f: "roll_back write fs previous f ?c1 = (c', r)"
        using t a(1,5) s False e no by (cases b) (auto simp: transaction_def Let_def split: if_splits)
      show ?thesis
        using roll_back_outcome [OF f c1(1-3), of w] c1 qm W
        by (auto simp: settled_def idle_def)
    qed
  qed
qed

text \<open>A quarantined, closed or foreign-thread catalog refuses transactions and does not change.\<close>

lemma transaction_refused:
  "\<not> here \<or> closed c \<or> broken c \<Longrightarrow>
   \<exists>m. transaction ok here write fs body c = (c, Failed (Raised (Err TransactionError m)))"
  by (auto simp: transaction_def check_def require_def ensure_def)

section \<open>The contract of a transaction\<close>

text \<open>
  What either adapter promises of a run: a true outcome, and changed data only from a body that
  commits. It follows that caught failures poison, that readers change nothing, and that the
  deferred constraints stay met.
\<close>

locale truthful_scope =
  fixes run :: "('d, 'r) prog \<Rightarrow> 's \<Rightarrow> 's \<times> 'r tx_result"
    and ready :: "'s \<Rightarrow> bool" and stored :: "'s \<Rightarrow> 'd" and reading :: "'s \<Rightarrow> bool" and ok :: "'d \<Rightarrow> bool"
  assumes truthful: "ready s \<Longrightarrow> run body s = (s', r) \<Longrightarrow>
    outcome_true r (stored s) (body_result body (reading s) (stored s)) (stored s') \<and>
    (stored s' \<noteq> stored s \<or> (\<exists>x. r = Returned x) \<longrightarrow>
       body_commits body (reading s) (stored s) \<and> ok (body_result body (reading s) (stored s)))"
begin

lemma poisoned:
  assumes "ready s" "run body s = (s', r)" "meets_failure body (reading s) (stored s, False)"
  shows "stored s' = stored s \<and> (\<forall>x. r \<noteq> Returned x)"
  using truthful [OF assms(1,2)] assms(3) body_commits_clean [of body "reading s" "stored s"] by auto

lemma read_only:
  assumes "ready s" "run body s = (s', r)" "reading s"
  shows "stored s' = stored s"
proof -
  have "body_result body (reading s) (stored s) = stored s"
    using exec_query_only [of body "(stored s, False)"] assms(3) by (simp add: body_result_def)
  then have "outcome_true r (stored s) (stored s) (stored s')"
    using truthful [OF assms(1,2)] by simp
  then show ?thesis
    by (cases "(r, stored s, stored s, stored s')" rule: outcome_true.cases) simp_all
qed

lemma constraints_kept:
  assumes "ready s" "run body s = (s', r)" "ok (stored s)"
  shows "ok (stored s')"
proof (cases "stored s' = stored s")
  case False
  then have "ok (body_result body (reading s) (stored s))" using truthful [OF assms(1,2)] by blast
  moreover have "stored s' = body_result body (reading s) (stored s)"
    using truthful [OF assms(1,2)] False
    by (cases "(r, stored s, body_result body (reading s) (stored s), stored s')" rule: outcome_true.cases) simp_all
  ultimately show ?thesis by simp
qed (simp add: assms(3))

end

interpretation sqlite: truthful_scope "transaction ok True w fs" idle "\<lambda>c. committed (conn c)"
  "\<lambda>c. query_only (conn c) \<or> \<not> w" ok for ok and w and fs
  by unfold_locales (blast dest: transaction_outcome [OF _ _ refl])

section \<open>One library operation in a transaction of its own\<close>

text \<open>
  \<open>transact\<close> is what a faultless transaction around one operation does to the committed data;
  the operations of the store are composed with it.
\<close>

definition transact :: "('d \<Rightarrow> bool) \<Rightarrow> ('d \<Rightarrow> error + 'r \<times> 'd) \<Rightarrow> 'd \<Rightarrow> 'd \<times> (error + 'r)" where
  "transact ok op d =
     (case op d of
        Inl e \<Rightarrow> (d, Inl e)
      | Inr (x, d') \<Rightarrow>
          if ok d' then (d', Inr x)
          else (d, Inl (Err CommitError ''Commit outcome is uncertain; close and reopen before retrying'')))"

definition no_faults :: faults where
  "no_faults = \<lparr> f_read_mode = NoFault, f_enter_mode = NoFault, f_begin = NoFault, f_undo = NoFault,
     f_undo_mode = NoFault, f_rollback = NoFault, f_commit = NoFault, f_leave_mode = NoFault,
     f_error = Interrupt \<rparr>"

lemma no_faults_simps [simp]:
  "f_begin no_faults = NoFault" "f_rollback no_faults = NoFault" "f_commit no_faults = NoFault"
  by (simp_all add: no_faults_def)

definition single :: "('d \<Rightarrow> error + 'r \<times> 'd) \<Rightarrow> ('d, 'r) prog" where
  "single op = Operation op (\<lambda>r. case r of Inl f \<Rightarrow> Throw f | Inr x \<Rightarrow> Return x)"

fun result_matches :: "'r tx_result \<Rightarrow> error + 'r \<Rightarrow> bool" where
  "result_matches (Returned x) r = (r = Inr x)"
| "result_matches (Failed f) r = (case r of Inl e \<Rightarrow> f = Raised e | Inr x \<Rightarrow> False)"
| "result_matches (Uncertain k ph o') r = raises r k"

lemma transact_is_transaction:
  assumes "idle c" and m: "\<not> query_only (conn c)"
  shows "case transaction ok True True no_faults (single op) c of (c', r) \<Rightarrow>
    committed (conn c') = fst (transact ok op (committed (conn c))) \<and>
    result_matches r (snd (transact ok op (committed (conn c))))"
proof -
  have c: "check True c = Inr ()" "\<not> active c" "query_only (conn c) = False"
    using assms by (simp_all add: idle_def check_def)
  have s: "start True no_faults (conn c) = (do_begin (conn c), False, None)"
    by (simp add: start_def driver_call_def)
  show ?thesis
    by (cases "op (committed (conn c))")
      (auto simp: transaction_def c s single_def tx_operation_def transact_def do_begin_def Let_def
        finish_def roll_back_def driver_call_def do_commit_def do_rollback_def
        quarantine_def)
qed

text \<open>The interface that the store relies on: an operation takes effect wholly or not at all.\<close>

locale atomic_runner =
  fixes run :: "('d \<Rightarrow> error + 'r \<times> 'd) \<Rightarrow> 'd \<Rightarrow> 'd \<times> (error + 'r)"
  assumes run_returns: "run op d = (d', Inr x) \<Longrightarrow> op d = Inr (x, d')"
    and run_raises: "run op d = (d', Inl e) \<Longrightarrow> d' = d"
begin

lemma run_invariant:
  assumes "P d" "\<And>x d'. op d = Inr (x, d') \<Longrightarrow> P d'"
  shows "P (fst (run op d))"
proof (cases "snd (run op d)")
  case (Inl e)
  then have "fst (run op d) = d"
    by (metis prod.collapse run_raises)
  with assms(1) show ?thesis by simp
next
  case (Inr x)
  then have "op d = Inr (x, fst (run op d))"
    by (metis prod.collapse run_returns)
  with assms(2) show ?thesis by blast
qed

lemma run_changes: "fst (run op d) \<noteq> d \<Longrightarrow> \<exists>x. op d = Inr (x, fst (run op d))"
  by (metis obj_sumE prod.collapse run_raises run_returns)

end

interpretation tx: atomic_runner "transact ok" for ok
  by unfold_locales (auto simp: transact_def split: sum.splits prod.splits if_splits)

section \<open>Properties\<close>

text \<open>A catalog of a number, with a program that adds to it, fails in a statement, and catches it.\<close>

definition sample_catalog :: "nat catalog" where
  "sample_catalog =
     \<lparr> conn = \<lparr> committed = 5, working = None, query_only = False \<rparr>, active = False,
       closed = False, broken = False \<rparr>"

definition add_stmt :: "nat \<Rightarrow> (nat, nat) stmt" where
  "add_stmt n = \<lparr> st_allowed = True, st_writes = True, st_run = (\<lambda>d. Inr (d + n, d + n)) \<rparr>"

definition bad_stmt :: "(nat, nat) stmt" where
  "bad_stmt = \<lparr> st_allowed = True, st_writes = True, st_run = (\<lambda>d. Inl DriverConstraint) \<rparr>"

definition sample_prog :: "(nat, nat) prog" where
  "sample_prog = Sql (add_stmt 2) (\<lambda>r. Return 0)"

definition catching_prog :: "(nat, nat) prog" where
  "catching_prog = Sql (add_stmt 2) (\<lambda>r. Sql bad_stmt (\<lambda>r. Return 0))"

text \<open>
  C8. Whatever driver calls fail, the outcome of a transaction tells the truth about the committed
  data: it returned or failed, or it is uncertain with the certainty it names; the catalog is
  quarantined exactly in the uncertain cases and is otherwise idle again in its old mode; and
  changed data is always the result of a body that ran without failure and met the deferred
  constraints.
\<close>

theorem outcomes_are_truthful:
  assumes "transaction ok True write fs body c = (c', r)" and "idle c"
  defines "D \<equiv> committed (conn c)" and "qo \<equiv> query_only (conn c) \<or> \<not> write"
  shows "settled c c' r \<and> outcome_true r D (body_result body qo D) (committed (conn c')) \<and>
    (committed (conn c') \<noteq> D \<or> (\<exists>x. r = Returned x) \<longrightarrow>
      body_commits body qo D \<and> ok (body_result body qo D))"
  using transaction_outcome [OF assms(1,2) refl] by (simp add: D_def qo_def)

theorem outcomes_are_truthful_witness:
  "case transaction (\<lambda>d. True) True True (no_faults\<lparr> f_commit := FailAfter \<rparr>) sample_prog sample_catalog of
     (c', r) \<Rightarrow> r = Uncertain CommitError CommitPhase OutcomeUnknown \<and> committed (conn c') = 7 \<and>
       outcome_true r 5 (body_result sample_prog False 5) (committed (conn c'))"
proof -
  have t: "transaction (\<lambda>d. True) True True (no_faults\<lparr> f_commit := FailAfter \<rparr>) sample_prog sample_catalog =
      (sample_catalog\<lparr> conn := \<lparr> committed = 7, working = None, query_only = False \<rparr>, broken := True \<rparr>,
       Uncertain CommitError CommitPhase OutcomeUnknown)"
    by (simp add: transaction_def check_def sample_catalog_def start_def driver_call_def do_begin_def
        sample_prog_def add_stmt_def tx_sql_def run_stmt_def finish_def do_commit_def quarantine_def Let_def)
  have "idle sample_catalog"
    by (simp add: idle_def sample_catalog_def)
  from outcomes_are_truthful [OF t this] show ?thesis
    unfolding t by (simp add: sample_catalog_def)
qed

text \<open>
  C19. A transaction in which anything failed never commits, even when the program caught the
  failure: a rejected or failing statement, a raising library operation, storage work inside the
  transaction.
\<close>

theorem caught_failures_poison:
  assumes "transaction ok True write fs body c = (c', r)" and "idle c"
    and "meets_failure body (query_only (conn c) \<or> \<not> write) (committed (conn c), False)"
  shows "committed (conn c') = committed (conn c) \<and> (\<forall>x. r \<noteq> Returned x)"
  by (rule sqlite.poisoned [OF assms(2,1,3)])

theorem caught_failures_poison_witness:
  "committed (conn (fst (transaction (\<lambda>d. True) True True no_faults catching_prog sample_catalog))) = 5"
proof -
  have "idle sample_catalog"
    by (simp add: idle_def sample_catalog_def)
  moreover have "meets_failure catching_prog (query_only (conn sample_catalog) \<or> \<not> True)
      (committed (conn sample_catalog), False)"
    by (simp add: catching_prog_def sample_catalog_def tx_sql_def run_stmt_def add_stmt_def bad_stmt_def)
  ultimately show ?thesis
    using caught_failures_poison [of "\<lambda>d. True" True no_faults catching_prog sample_catalog]
    by (cases "transaction (\<lambda>d. True) True True no_faults catching_prog sample_catalog")
      (simp add: sample_catalog_def)
qed

text \<open>
  C30. A library operation in a transaction of its own, with a driver that works, is \<open>transact\<close>:
  it takes effect and returns, or raises its own error, or fails at the commit for a deferred
  constraint, and then changes nothing.
\<close>

theorem operation_transaction:
  assumes "idle c" and "\<not> query_only (conn c)"
  shows "case transaction ok True True no_faults (single op) c of (c', r) \<Rightarrow>
    committed (conn c') = fst (transact ok op (committed (conn c))) \<and>
    result_matches r (snd (transact ok op (committed (conn c))))"
  using assms by (rule transact_is_transaction)

theorem operation_transaction_witness:
  "case transaction (\<lambda>d. d < 6) True True no_faults (single (\<lambda>d. Inr ((), d + 2))) sample_catalog of
     (c', r) \<Rightarrow> committed (conn c') = 5 \<and> r \<noteq> Returned ()"
proof -
  have "idle sample_catalog" "\<not> query_only (conn sample_catalog)"
    by (simp_all add: idle_def sample_catalog_def)
  from operation_transaction [OF this, of "\<lambda>d. d < 6" "\<lambda>d. Inr ((), d + 2)"] show ?thesis
    by (auto simp: transact_def sample_catalog_def)
qed

end
