(* ===== verification/Maintenance.thy ===== *)
theory Maintenance
  imports Lifecycle Storage Catalog
begin

text \<open>
  \<^verbatim>\<open>maintenance.py\<close>: reporting, queueing of orphans and the restartable cleanup. The
  catalog transactions are functions of the database; \<open>cleanup\<close> works on the pair of database and
  storage root, one object and one transaction at a time.
\<close>

section \<open>Checks\<close>

definition bound :: "int \<Rightarrow> pyval \<Rightarrow> int res" where
  "bound maximum v =
     ebind (expect (as_int v) ValidationError ''Bound must be an integer in range'') (\<lambda>n.
     ebind (require (1 \<le> n \<and> n \<le> maximum) ValidationError ''Bound must be an integer in range'') (\<lambda>_.
     Inr n))"

text \<open>\<open>_check(store, tx)\<close>\<close>

definition check_catalog :: "db \<Rightarrow> unit res" where
  "check_catalog d =
     ebind (verify_lifecycle d) (\<lambda>_.
     require (foreign_key_check d = []) IntegrityError
       ''Catalog has foreign key violations; cleanup is unsafe'')"

section \<open>Reporting\<close>

datatype catalog_error =
    ForeignKeyViolation string
  | BadRecord string
  | BadState string
  | Reappeared string

record report =
  rp_ready :: "prepared_row list"
  rp_publishing :: "prepared_row list"
  rp_prepared :: "prepared_row list"
  rp_pending :: "gc_row list"
  rp_missing :: "string list"
  rp_corrupt :: "string list"
  rp_orphans :: "string list"
  rp_staging :: "string list"
  rp_unrecognized :: "string list"
  rp_errors :: "catalog_error list"

text \<open>The state of the blob of a prepared row, by the two left joins.\<close>

definition blob_state_of :: "prepared_row \<Rightarrow> db \<Rightarrow> (string \<times> blob_state) option" where
  "blob_state_of p d =
     (case row_with o_token (p_token p) (ms_objects d) of
        None \<Rightarrow> None
      | Some ob \<Rightarrow>
          (case row_with b_id (o_blob ob) (ms_blobs d) of
             None \<Rightarrow> None
           | Some b \<Rightarrow> Some (b_id b, b_state b)))"

definition storage_rows :: "string \<Rightarrow> db \<Rightarrow> prepared_row list" where
  "storage_rows sid d = filter (\<lambda>p. p_storage p = sid) (ms_prepared d)"

definition storage_gc :: "string \<Rightarrow> db \<Rightarrow> gc_row list" where
  "storage_gc sid d = filter (\<lambda>g. g_storage g = sid) (ms_gc d)"

text \<open>The loop over the blobs, which collects the records that fail with \<open>IntegrityError\<close>.\<close>

fun record_errors :: "string list \<Rightarrow> db \<Rightarrow> catalog_error list res" where
  "record_errors [] d = Inr []"
| "record_errors (i # ids) d =
     (case get_record False i d of
        Inr r \<Rightarrow> record_errors ids d
      | Inl e \<Rightarrow>
          if issubclass (kind_of e) IntegrityError
          then ebind (record_errors ids d) (\<lambda>es. Inr (BadRecord i # es))
          else Inl e)"

definition report_catalog :: "string \<Rightarrow> int \<Rightarrow> db \<Rightarrow> catalog_error list res" where
  "report_catalog sid max_entries d =
     ebind (verify_lifecycle d) (\<lambda>_.
     ebind (require (int (length (storage_rows sid d)) \<le> max_entries \<and>
                     int (length (storage_gc sid d)) \<le> max_entries \<and>
                     int (length (ms_blobs d)) \<le> max_entries) ValidationError
              ''Catalog report exceeds max_entries'') (\<lambda>_.
     ebind (record_errors (map b_id (ms_blobs d)) d) (\<lambda>es.
     Inr (map ForeignKeyViolation (take (nat max_entries + 1) (foreign_key_check d)) @ es))))"

text \<open>The loop over the prepared rows; \<open>inv\<close> is the inventory and \<open>intact\<close> the verification.\<close>

definition queued :: "string \<Rightarrow> string \<Rightarrow> db \<Rightarrow> gc_row option" where
  "queued sid key d = row_with gc_key (sid, key) (ms_gc d)"

definition place :: "prepared_row \<Rightarrow> (string \<times> blob_state) option \<Rightarrow> report \<Rightarrow> report" where
  "place p st r =
     (case st of
        None \<Rightarrow> r\<lparr> rp_prepared := rp_prepared r @ [p] \<rparr>
      | Some (i, Ready) \<Rightarrow> r\<lparr> rp_ready := rp_ready r @ [p] \<rparr>
      | Some (i, Publishing) \<Rightarrow> r\<lparr> rp_publishing := rp_publishing r @ [p] \<rparr>
      | Some (i, PendingDelete) \<Rightarrow> r\<lparr> rp_errors := rp_errors r @ [BadState i] \<rparr>)"

definition inspect ::
  "(string \<times> int) list \<Rightarrow> bool \<Rightarrow> (prepared_row \<Rightarrow> bytes res) \<Rightarrow> prepared_row \<Rightarrow> report \<Rightarrow> report res" where
  "inspect files verify fetch p r =
     (case map_of files (p_key p) of
        None \<Rightarrow> Inr (r\<lparr> rp_missing := rp_missing r @ [p_key p] \<rparr>)
      | Some n \<Rightarrow>
          if n \<noteq> p_size p then Inr (r\<lparr> rp_corrupt := rp_corrupt r @ [p_key p] \<rparr>)
          else if verify
          then (case fetch p of
                  Inr b \<Rightarrow> Inr r
                | Inl e \<Rightarrow>
                    if issubclass (kind_of e) IntegrityError
                    then Inr (r\<lparr> rp_corrupt := rp_corrupt r @ [p_key p] \<rparr>)
                    else Inl e)
          else Inr r)"

definition report_row ::
  "string \<Rightarrow> db \<Rightarrow> (string \<times> int) list \<Rightarrow> bool \<Rightarrow> (prepared_row \<Rightarrow> bytes res) \<Rightarrow> prepared_row \<Rightarrow> report \<Rightarrow>
   report res" where
  "report_row sid d files verify fetch p r =
     (case queued sid (p_key p) d of
        Some g \<Rightarrow> Inr (if g_state g = Pending then r\<lparr> rp_pending := rp_pending r @ [g] \<rparr> else r)
      | None \<Rightarrow>
          (case blob_state_of p d of
             Some (i, PendingDelete) \<Rightarrow> Inr (place p (Some (i, PendingDelete)) r)
           | st \<Rightarrow> inspect files verify fetch p (place p st r)))"

fun report_rows ::
  "string \<Rightarrow> db \<Rightarrow> (string \<times> int) list \<Rightarrow> bool \<Rightarrow> (prepared_row \<Rightarrow> bytes res) \<Rightarrow> prepared_row list \<Rightarrow> report \<Rightarrow>
   report res" where
  "report_rows sid d files verify fetch [] r = Inr r"
| "report_rows sid d files verify fetch (p # ps) r =
     ebind (report_row sid d files verify fetch p r) (report_rows sid d files verify fetch ps)"

text \<open>The two last loops: the remaining cleanup intents and the files that no row names.\<close>

definition own_files :: "string list" where
  "own_files = [''meldstore-storage.json'', ''meldstore-access.sqlite'', ''meldstore-access.sqlite-journal'']"

definition unknown_intents :: "string \<Rightarrow> db \<Rightarrow> gc_row list" where
  "unknown_intents sid d =
     filter (\<lambda>g. g_key g \<notin> p_key ` set (storage_rows sid d) \<and> g_state g = Pending) (storage_gc sid d)"

definition report_file :: "string \<Rightarrow> db \<Rightarrow> string \<Rightarrow> report \<Rightarrow> report" where
  "report_file sid d key r =
     (case queued sid key d of
        Some g \<Rightarrow> if g_state g = Done then r\<lparr> rp_errors := rp_errors r @ [Reappeared key] \<rparr> else r
      | None \<Rightarrow>
          if key \<in> p_key ` set (storage_rows sid d) \<or> key \<in> set own_files then r
          else if \<not> cleanup_pattern key then r\<lparr> rp_unrecognized := rp_unrecognized r @ [key] \<rparr>
          else if starts_with ''objects/'' key then r\<lparr> rp_orphans := rp_orphans r @ [key] \<rparr>
          else r\<lparr> rp_staging := rp_staging r @ [key] \<rparr>)"

definition empty_report :: report where
  "empty_report =
     \<lparr> rp_ready = [], rp_publishing = [], rp_prepared = [], rp_pending = [], rp_missing = [],
       rp_corrupt = [], rp_orphans = [], rp_staging = [], rp_unrecognized = [], rp_errors = [] \<rparr>"

text \<open>
  \<open>reconcile(store, verify, max_entries)\<close>: \<open>files\<close> are the paths and sizes that
  \<open>obstore.list\<close> yields, in its order.
\<close>

definition reconcile ::
  "digest \<Rightarrow> string \<Rightarrow> pyval \<Rightarrow> pyval \<Rightarrow> (string \<times> int) list \<Rightarrow> (string \<Rightarrow> answer) \<Rightarrow> db \<Rightarrow> report res" where
  "reconcile xxh sid verify max_entries files get d =
     ebind (bound 1000000 max_entries) (\<lambda>n.
     ebind (expect (as_bool verify) ValidationError ''verify must be boolean'') (\<lambda>check.
     ebind (report_catalog sid n d) (\<lambda>errs.
     ebind (require (int (length files) \<le> n) ValidationError ''Inventory exceeds max_entries'') (\<lambda>_.
     ebind (report_rows sid d files check
              (\<lambda>p. materialize xxh (p_key p) (p_size p) (p_digest p) (get (p_key p)))
              (storage_rows sid d) (empty_report\<lparr> rp_errors := errs \<rparr>)) (\<lambda>r.
     Inr (fold (report_file sid d) (map fst files)
            (r\<lparr> rp_pending := rp_pending r @ unknown_intents sid d \<rparr>)))))))"

section \<open>Queueing orphans\<close>

definition orphan_gc :: "string \<Rightarrow> string \<Rightarrow> gc_row" where
  "orphan_gc sid key =
     \<lparr> g_storage = sid, g_key = key, g_token = None, g_blob = None, g_reason = OrphanObject,
       g_state = Pending, g_error = None \<rparr>"

fun queue_keys :: "string \<Rightarrow> string list \<Rightarrow> db \<Rightarrow> db res" where
  "queue_keys sid [] d = Inr d"
| "queue_keys sid (key # keys) d =
     ebind (require ((sid, key) \<notin> (\<lambda>p. (p_storage p, p_key p)) ` set (ms_prepared d)) ConflictError
              ''Known prepared objects are protected; resolve or discard their token explicitly'') (\<lambda>_.
     ebind (insert_or_ignore_gc (orphan_gc sid key) d) (queue_keys sid keys))"

text \<open>\<open>queue_orphans(store, keys)\<close>; \<open>None\<close> is a value that is neither a tuple nor a list.\<close>

definition checked_keys :: "(string \<Rightarrow> bool) \<Rightarrow> pyval list option \<Rightarrow> string list res" where
  "checked_keys linked keys =
     ebind (expect keys ValidationError ''Supply 1..1000 distinct exact keys from reconciliation'') (\<lambda>ks.
     ebind (require (1 \<le> length ks \<and> length ks \<le> 1000 \<and> list_all is_str ks \<and> distinct ks)
              ValidationError ''Supply 1..1000 distinct exact keys from reconciliation'') (\<lambda>_.
     emapM (cleanup_key linked) ks))"

definition queue_orphans ::
  "(string \<Rightarrow> bool) \<Rightarrow> string \<Rightarrow> pyval list option \<Rightarrow> db \<Rightarrow> (string list \<times> db) res" where
  "queue_orphans linked sid keys d =
     ebind (checked_keys linked keys) (\<lambda>ks.
     ebind (check_catalog d) (\<lambda>_.
     ebind (queue_keys sid ks d) (\<lambda>d'. Inr (ks, d'))))"

section \<open>Cleanup\<close>

text \<open>The jobs of one call, with the check that no job names a live object.\<close>

definition job_live :: "db \<Rightarrow> gc_row \<Rightarrow> bool" where
  "job_live d g =
     (list_ex (\<lambda>p. p_storage p = g_storage g \<and> p_key p = g_key g \<and>
                 p_token p \<in> o_token ` set (ms_objects d)) (ms_prepared d) \<or>
      (case g_blob g of None \<Rightarrow> False | Some i \<Rightarrow> i \<noteq> [] \<and> i \<in> b_id ` set (ms_blobs d)))"

definition cleanup_jobs :: "string \<Rightarrow> int \<Rightarrow> db \<Rightarrow> gc_row list res" where
  "cleanup_jobs sid limit d =
     ebind (check_catalog d) (\<lambda>_.
     let jobs = take (nat limit) (sort_key g_key (filter (\<lambda>g. g_state g = Pending) (storage_gc sid d))) in
     ebind (require (list_all (\<lambda>g. \<not> job_live d g) jobs) ConflictError
              ''Queued object still has a live catalog reference'') (\<lambda>_. Inr jobs))"

text \<open>
  One job: the deletion of the object, with its failure recorded, and the transaction that marks
  the job. Only \<open>StorageError\<close> and \<open>ValidationError\<close> are caught.
\<close>

record world =
  w_db :: db
  w_root :: root

definition job_error :: "unit res \<Rightarrow> string option" where
  "job_error r = (case r of Inl e \<Rightarrow> Some (message_of e) | Inr _ \<Rightarrow> None)"

definition job_state :: "string option \<Rightarrow> gc_state" where
  "job_state err = (case err of Some (c # cs) \<Rightarrow> Pending | _ \<Rightarrow> Done)"

definition run_job :: "(string \<Rightarrow> bool) \<Rightarrow> bool \<Rightarrow> gc_row \<Rightarrow> world \<Rightarrow> world \<times> gc_state res" where
  "run_job linked ok g w =
     (case delete_object linked ok (g_key g) (w_root w) of
        (r', res) \<Rightarrow>
          let err = job_error res;
              (d', m) = transact deferred_ok
                          (\<lambda>d. ebind (mark_gc (g_storage g) (g_key g) (job_state err) err d) (\<lambda>d'. Inr ((), d')))
                          (w_db w)
          in (\<lparr> w_db = d', w_root = r' \<rparr>,
              case m of Inl e \<Rightarrow> Inl e | Inr _ \<Rightarrow> Inr (job_state err)))"

text \<open>\<open>oks\<close> tells for each job whether the backend deletes.\<close>

fun run_jobs ::
  "(string \<Rightarrow> bool) \<Rightarrow> (gc_row \<times> bool) list \<Rightarrow> world \<Rightarrow> world \<times> (string \<times> gc_state) list res" where
  "run_jobs linked [] w = (w, Inr [])"
| "run_jobs linked ((g, ok) # jobs) w =
     (case run_job linked ok g w of
        (w', Inl e) \<Rightarrow> (w', Inl e)
      | (w', Inr st) \<Rightarrow>
          (case run_jobs linked jobs w' of
             (w'', Inl e) \<Rightarrow> (w'', Inl e)
           | (w'', Inr rs) \<Rightarrow> (w'', Inr ((g_key g, st) # rs))))"

text \<open>\<open>cleanup(store, limit)\<close>\<close>

definition cleanup ::
  "(string \<Rightarrow> bool) \<Rightarrow> (gc_row \<Rightarrow> bool) \<Rightarrow> string \<Rightarrow> pyval \<Rightarrow> world \<Rightarrow> world \<times> (string \<times> gc_state) list res" where
  "cleanup linked ok sid limit w =
     (case bound 1000 limit of
        Inl e \<Rightarrow> (w, Inl e)
      | Inr n \<Rightarrow>
          (case cleanup_jobs sid n (w_db w) of
             Inl e \<Rightarrow> (w, Inl e)
           | Inr jobs \<Rightarrow> run_jobs linked (map (\<lambda>g. (g, ok g)) jobs) w))"

end
