(* ===== verification/Migration.thy ===== *)
theory Migration
  imports Maintenance
begin

text \<open>
  Metadata migration (\<^verbatim>\<open>migrations.py\<close>): the plan and its checks, the rebuild of a data
  table, the start of a migration, one batch, and the loop of transactions that \<open>run\<close> makes of them.
  The application takes part by its transformation, its coordination hooks and its own SQL objects:
  those are parameters. The table \<open>ms_migration_steps\<close> is a value of its own; it is empty outside a
  transaction.
\<close>

section \<open>Plans\<close>

datatype 'f callable = Callable 'f | Absent | NotCallable

definition as_call :: "'f callable \<Rightarrow> 'f option" where
  "as_call c = (case c of Callable f \<Rightarrow> Some f | _ \<Rightarrow> None)"

type_synonym transform = "(string \<times> pyval) list \<Rightarrow> pyval res"
type_synonym hook = "db \<Rightarrow> db res"

record migration =
  mg_name :: string
  mg_source :: blob_schema
  mg_target :: blob_schema
  mg_transform_id :: string
  mg_transform :: transform
  mg_before :: "hook option"
  mg_after :: "hook option"

text \<open>\<open>MetadataMigration.__post_init__\<close>\<close>

definition mk_migration ::
  "pyval \<Rightarrow> blob_schema option \<Rightarrow> blob_schema option \<Rightarrow> pyval \<Rightarrow> transform callable \<Rightarrow>
   hook callable \<Rightarrow> hook callable \<Rightarrow> migration res" where
  "mk_migration name source target transform_id transform before after =
     ebind (py_identifier name) (\<lambda>n.
     ebind (py_identifier transform_id) (\<lambda>tid.
     ebind (expect source ValidationError ''Migration requires source and target BlobSchema declarations'') (\<lambda>s.
     ebind (expect target ValidationError ''Migration requires source and target BlobSchema declarations'') (\<lambda>t.
     ebind (require (sc_name s = sc_name t \<and> sc_version t = sc_version s + 1) ValidationError
              ''Migration must advance one version of the same schema'') (\<lambda>_.
     ebind (require ((sc_handlers s, sc_validator_id s) = (sc_handlers t, sc_validator_id t)) ValidationError
              ''Metadata migration cannot change the payload contract'') (\<lambda>_.
     ebind (expect (as_call transform) ValidationError ''transform must be callable'') (\<lambda>f.
     ebind (require ((as_call before = None) = (as_call after = None) \<and>
              before \<noteq> NotCallable \<and> after \<noteq> NotCallable)
              ValidationError ''Provide both callable DDL coordination hooks or neither'') (\<lambda>_.
     Inr \<lparr> mg_name = n, mg_source = s, mg_target = t, mg_transform_id = tid, mg_transform = f,
           mg_before = as_call before, mg_after = as_call after \<rparr>))))))))"

definition mg_table :: "migration \<Rightarrow> string" where
  "mg_table plan = table_name (mg_source plan)"

section \<open>The application's SQL objects\<close>

text \<open>
  What SQLite knows of a definition that is not the library's: whether it is a trigger, whether it
  is an index or trigger on a given table, and its foreign keys into a given table (the other columns
  of \<open>pragma_foreign_key_list\<close>); and which tables have \<open>TEMP\<close> triggers.
\<close>

record app_sql =
  app_trigger :: "string \<Rightarrow> bool"
  app_on_table :: "string \<Rightarrow> string \<Rightarrow> bool"
  app_foreign_keys :: "string \<Rightarrow> string \<Rightarrow> string list"
  app_temp_triggers :: "string \<Rightarrow> bool"

text \<open>The indexes and triggers whose \<open>tbl_name\<close> is a data table.\<close>

fun on_table :: "app_sql \<Rightarrow> string \<Rightarrow> sqldef \<Rightarrow> bool" where
  "on_table app t (UpdateGuard n cols) = (data_table_of n = t)"
| "on_table app t (InsertGuard n) = (data_table_of n = t)"
| "on_table app t (IndexDef t' ix v) = (t' = t)"
| "on_table app t (LayoutUpdate n v cols) = (data_table_of n = t)"
| "on_table app t (LayoutInsert n v) = (data_table_of n = t)"
| "on_table app t (LayoutDelete n v) = (data_table_of n = t)"
| "on_table app t (RetireGuard n) = (data_table_of n = t)"
| "on_table app t (Foreign sql) = app_on_table app sql t"
| "on_table app t def = False"

fun is_trigger :: "app_sql \<Rightarrow> sqldef \<Rightarrow> bool" where
  "is_trigger app (IndexDef t ix v) = False"
| "is_trigger app (Foreign sql) = app_trigger app sql"
| "is_trigger app def = True"

text \<open>\<open>_incoming(tx, table)\<close>\<close>

fun foreign_keys :: "app_sql \<Rightarrow> string \<Rightarrow> string \<times> sqldef \<Rightarrow> (string \<times> string) list" where
  "foreign_keys app t (n, Foreign sql) = map (Pair n) (app_foreign_keys app sql t)"
| "foreign_keys app t (n, def) = []"

definition incoming :: "app_sql \<Rightarrow> string \<Rightarrow> db \<Rightarrow> (string \<times> string) list" where
  "incoming app t d = concat (map (foreign_keys app t) (sort_key fst (objects d)))"

section \<open>The rebuild of a data table\<close>

text \<open>\<open>DROP TABLE\<close>: the table, its rows, its indexes and its triggers.\<close>

definition drop_table :: "app_sql \<Rightarrow> string \<Rightarrow> db \<Rightarrow> db" where
  "drop_table app t d =
     d\<lparr> objects := filter (\<lambda>(n, def). n \<noteq> t \<and> \<not> on_table app t def) (objects d),
        data := filter (\<lambda>r. d_table r \<noteq> t) (data d) \<rparr>"

text \<open>A row of the old table as a row of the new one: the columns that it does not have are NULL.\<close>

definition widen :: "sqldef \<Rightarrow> data_row \<Rightarrow> data_row" where
  "widen def r = r\<lparr> d_cols := map (\<lambda>(n, k). (n, col_value (d_cols r) n)) (def_columns def) \<rparr>"

text \<open>\<open>INSERT INTO <table> (<names>) SELECT <names> FROM <backup>\<close>\<close>

definition insert_rows_into :: "string \<Rightarrow> string list \<Rightarrow> data_row list \<Rightarrow> db \<Rightarrow> db res" where
  "insert_rows_into t names rows d =
     ebind (table_def d t) (\<lambda>def.
     ebind (require (set names \<subseteq> fst ` set (def_columns def)) ValidationError ''no such column'') (\<lambda>_.
     let new = map (widen def) rows in
     ebind (checked (list_all (\<lambda>r. row_checks def (d_schema_version r) (d_cols r)) new) ''CHECK'') (\<lambda>_.
     ebind (checked (def_layout def \<or>
              list_all (\<lambda>r. (d_id r, def_schema def, d_schema_version r) \<in> blob_keys d) new) ''FOREIGN KEY'') (\<lambda>_.
     Inr (d\<lparr> data := data d @ new \<rparr>)))))"

text \<open>A \<open>CREATE\<close> on a table that may have rows: a unique index fails on rows that clash.\<close>

definition create_over :: "string \<times> sqldef \<Rightarrow> db \<Rightarrow> db res" where
  "create_over x d =
     ebind (create x d) (\<lambda>d'.
     ebind (checked (list_all (\<lambda>r. \<not> clashes r (data d) (snd x)) (data d)) ''UNIQUE'') (\<lambda>_. Inr d'))"

fun create_all_over :: "(string \<times> sqldef) list \<Rightarrow> db \<Rightarrow> db res" where
  "create_all_over [] d = Inr d"
| "create_all_over (x # xs) d = ebind (create_over x d) (create_all_over xs)"

definition run_hook :: "hook option \<Rightarrow> db \<Rightarrow> db res" where
  "run_hook h d = (case h of None \<Rightarrow> Inr d | Some f \<Rightarrow> f d)"

text \<open>The part of \<open>_rebuild\<close> between the hooks; \<open>backup\<close> is a fresh name.\<close>

definition replace_table ::
  "app_sql \<Rightarrow> string \<Rightarrow> string \<Rightarrow> (string \<times> sqldef) list \<Rightarrow> (string \<times> sqldef) list \<Rightarrow> db \<Rightarrow> db res" where
  "replace_table app backup t extras new d =
     ebind (table_def d t) (\<lambda>old_def.
     let rows = filter (\<lambda>r. d_table r = t) (data d) in
     ebind (create (backup, Foreign []) d) (\<lambda>_.
     ebind (expect (map_of new t) PyKeyError t) (\<lambda>def.
     ebind (create (t, def) (drop_table app t d)) (\<lambda>d.
     ebind (insert_rows_into t (map fst (def_columns old_def)) rows d) (\<lambda>d.
     ebind (create_all_over (filter (\<lambda>x. fst x \<noteq> t) new) d) (create_all_over extras))))))"

text \<open>The indexes and triggers of the table that are not the library's own.\<close>

definition extras_of :: "app_sql \<Rightarrow> string \<Rightarrow> (string \<times> sqldef) list \<Rightarrow> db \<Rightarrow> (string \<times> sqldef) list" where
  "extras_of app t old d =
     sort_key (\<lambda>(n, def). (is_trigger app def, n))
       (filter (\<lambda>(n, def). on_table app t def \<and> n \<notin> fst ` set old) (objects d))"

text \<open>\<open>_rebuild(tx, plan, old, new)\<close>\<close>

definition rebuild_table ::
  "app_sql \<Rightarrow> string \<Rightarrow> migration \<Rightarrow> (string \<times> sqldef) list \<Rightarrow> (string \<times> sqldef) list \<Rightarrow> db \<Rightarrow> db res" where
  "rebuild_table app backup plan old new d =
     (let t = mg_table plan in
      ebind (require (\<not> app_temp_triggers app t) SchemaConflictError
               ''Remove application TEMP triggers explicitly before metadata rebuild'') (\<lambda>_.
      let keys = incoming app t d;
          children = map (\<lambda>x. (fst x, the (map_of (objects d) (fst x)))) keys;
          extras = extras_of app t old d
      in
      ebind (require (keys = [] \<or> mg_before plan \<noteq> None) SchemaConflictError
               ''Incoming metadata foreign keys require explicit coordination hooks'') (\<lambda>_.
      ebind (run_hook (mg_before plan) d) (\<lambda>d.
      ebind (require (incoming app t d = []) SchemaConflictError
               ''Coordination hook must remove incoming metadata foreign keys before rebuild'') (\<lambda>_.
      ebind (replace_table app backup t extras new d) (\<lambda>d.
      ebind (run_hook (mg_after plan) d) (\<lambda>d.
      ebind (require (incoming app t d = keys) SchemaConflictError
               ''Coordination hooks did not restore incoming foreign key definitions'') (\<lambda>_.
      ebind (verify_objects children d) (\<lambda>_.
      ebind (verify_objects new d) (\<lambda>_.
      ebind (require (foreign_key_check d = []) SchemaConflictError
               ''Foreign key check failed after metadata rebuild'') (\<lambda>_.
      Inr d)))))))))))"

section \<open>The start of a migration\<close>

text \<open>\<open>status(tx, name)\<close>\<close>

definition status :: "string \<Rightarrow> db \<Rightarrow> migration_row res" where
  "status name d =
     ebind (require (has_object d ''ms_migrations'') NotFoundError ''No metadata migrations installed'') (\<lambda>_.
     expect (row_with j_name name (ms_migrations d)) NotFoundError ''No migration'')"

definition same_job :: "migration \<Rightarrow> migration_row \<Rightarrow> bool" where
  "same_job plan job =
     ((j_schema job, j_source job, j_target job, j_transform job) =
      (sc_name (mg_source plan), sc_version (mg_source plan), sc_version (mg_target plan), mg_transform_id plan))"

text \<open>\<open>INSERT INTO ms_migrations (...) VALUES (?,?,?,?,?,'running',?)\<close>\<close>

definition insert_migration :: "migration_row \<Rightarrow> db \<Rightarrow> db res" where
  "insert_migration job d =
     ebind (table d ''ms_migrations'') (\<lambda>_.
     ebind (checked (j_name job \<notin> j_name ` set (ms_migrations d) \<and>
              (j_schema job, j_target job) \<notin> (\<lambda>j. (j_schema j, j_target j)) ` set (ms_migrations d) \<and>
              \<not> list_ex (\<lambda>j. j_running j \<and> j_schema j = j_schema job) (ms_migrations d)) ''UNIQUE'') (\<lambda>_.
     ebind (checked ((j_schema job, j_source job) \<in> schema_keys d \<and>
              (j_schema job, j_target job) \<in> schema_keys d) ''FOREIGN KEY'') (\<lambda>_.
     Inr (d\<lparr> ms_migrations := ms_migrations d @ [job] \<rparr>))))"

definition source_rows :: "migration \<Rightarrow> db \<Rightarrow> data_row list" where
  "source_rows plan d =
     filter (\<lambda>r. d_table r = mg_table plan \<and> d_schema_version r = sc_version (mg_source plan)) (data d)"

definition new_job :: "migration \<Rightarrow> db \<Rightarrow> migration_row" where
  "new_job plan d =
     \<lparr> j_name = mg_name plan, j_schema = sc_name (mg_source plan), j_source = sc_version (mg_source plan),
       j_target = sc_version (mg_target plan), j_transform = mg_transform_id plan, j_running = True,
       j_total = int (length (source_rows plan d)), j_migrated = 0, j_last_id = None \<rparr>"

text \<open>The last statements of \<open>_initialize\<close>, after the rebuild.\<close>

definition replace_guard :: "string \<times> sqldef \<Rightarrow> db \<Rightarrow> db res" where
  "replace_guard g d =
     ebind (require (has_object d (fst g)) ValidationError ''no such trigger'') (\<lambda>_.
     create g (d\<lparr> objects := filter (\<lambda>x. fst x \<noteq> fst g) (objects d) \<rparr>))"

definition enrol :: "migration \<Rightarrow> db \<Rightarrow> db res" where
  "enrol plan d =
     (let n = sc_name (mg_source plan); key = (sc_name (mg_target plan), sc_version (mg_target plan));
          layouts = (if n \<in> set (ms_metadata_layouts d) then ms_metadata_layouts d
                     else ms_metadata_layouts d @ [n])
      in
      ebind (replace_guard (ready_guard (mg_target plan) True) (d\<lparr> ms_metadata_layouts := layouts \<rparr>)) (\<lambda>d.
      ebind (checked (key \<notin> set (ms_payload_schemas d)) ''UNIQUE'') (\<lambda>_.
      ebind (checked (key \<in> schema_keys d) ''FOREIGN KEY'') (\<lambda>_.
      insert_migration (new_job plan d) (d\<lparr> ms_payload_schemas := ms_payload_schemas d @ [key] \<rparr>)))))"

definition all_ready :: "migration \<Rightarrow> db \<Rightarrow> bool" where
  "all_ready plan d =
     list_all (\<lambda>b. b_schema b = sc_name (mg_source plan) \<longrightarrow> b_state b = Ready) (ms_blobs d)"

text \<open>The new migration of \<open>_initialize\<close>, once the tables of the extension exist.\<close>

definition start_migration :: "app_sql \<Rightarrow> string \<Rightarrow> migration \<Rightarrow> db \<Rightarrow> (migration_row \<times> db) res" where
  "start_migration app backup plan d =
     (let src = mg_source plan; n = sc_name src in
      ebind (writable src d) (\<lambda>_.
      ebind (require (\<not> list_ex (\<lambda>j. j_running j \<and> j_schema j = n) (ms_migrations d)) ConflictError
               ''Finish the active migration first'') (\<lambda>_.
      ebind (require (all_ready plan d) ConflictError
               ''Resolve unpublished or retiring blobs before migrating'') (\<lambda>_.
      ebind (declarations d n) (\<lambda>schemas.
      ebind (if evolved d n then layout schemas else Inr (schema_objects src)) (\<lambda>old.
      ebind (verify_objects old d) (\<lambda>_.
      ebind (layout (schemas @ [mg_target plan])) (\<lambda>new.
      ebind (insert_schema (mg_target plan) d) (\<lambda>d.
      ebind (rebuild_table app backup plan old new d) (\<lambda>d.
      ebind (enrol plan d) (\<lambda>d.
      ebind (status (mg_name plan) d) (\<lambda>job. Inr (job, d)))))))))))))"

text \<open>\<open>_initialize(store, tx, plan)\<close>\<close>

definition resume_job :: "migration \<Rightarrow> migration_row \<Rightarrow> db \<Rightarrow> (migration_row \<times> db) res" where
  "resume_job plan job d =
     ebind (require (same_job plan job) SchemaConflictError
              ''Migration name already identifies another transformation'') (\<lambda>_.
     ebind (check_schema False (Some (mg_target plan)) d) (\<lambda>_.
     ebind (verify_layout d (sc_name (mg_source plan))) (\<lambda>_. Inr (job, d))))"

definition initialize :: "app_sql \<Rightarrow> string \<Rightarrow> migration \<Rightarrow> db \<Rightarrow> (migration_row \<times> db) res" where
  "initialize app backup plan d =
     ebind (install (mg_source plan) d) (\<lambda>d.
     ebind (payload_install (mg_source plan) d) (\<lambda>d.
     ebind (check_schema False (Some (mg_source plan)) d) (\<lambda>_.
     if has_object d ''ms_metadata_layouts''
     then ebind (verify_objects (own migration_names) d) (\<lambda>_.
          case row_with j_name (mg_name plan) (ms_migrations d) of
            Some job \<Rightarrow> resume_job plan job d
          | None \<Rightarrow> start_migration app backup plan d)
     else ebind (require (\<not> list_ex (has_object d) migration_names) SchemaConflictError
                   ''Partial migration extension'') (\<lambda>_.
          ebind (create_all (own migration_names) d) (start_migration app backup plan)))))"

section \<open>A batch\<close>

text \<open>The rows of \<open>ms_migration_steps\<close>.\<close>

record step_row =
  st_blob :: string
  st_migration :: string
  st_expected :: int

definition insert_step :: "step_row \<Rightarrow> db \<Rightarrow> step_row list \<Rightarrow> step_row list res" where
  "insert_step x d xs =
     ebind (checked (st_blob x \<notin> st_blob ` set xs) ''UNIQUE'') (\<lambda>_.
     ebind (checked (st_blob x \<in> b_id ` set (ms_blobs d) \<and> st_migration x \<in> j_name ` set (ms_migrations d))
              ''FOREIGN KEY'') (\<lambda>_.
     Inr (xs @ [x])))"

text \<open>The condition under which the update trigger lets a row change its schema version.\<close>

definition step_exists :: "db \<Rightarrow> step_row list \<Rightarrow> string \<Rightarrow> data_row \<Rightarrow> int \<Rightarrow> bool" where
  "step_exists d xs n r new =
     list_ex (\<lambda>x. st_blob x = d_id r \<and> st_expected x = d_version r \<and>
       list_ex (\<lambda>j. j_name j = st_migration x \<and> j_running j \<and> j_schema j = n \<and>
                   j_source j = d_schema_version r \<and> j_target j = new) (ms_migrations d)) xs"

fun lets_migrate :: "db \<Rightarrow> step_row list \<Rightarrow> data_row \<Rightarrow> int \<Rightarrow> sqldef \<Rightarrow> bool" where
  "lets_migrate d xs r new (UpdateGuard n cols) = False"
| "lets_migrate d xs r new (LayoutUpdate n v cols) = step_exists d xs n r new"
| "lets_migrate d xs r new def = True"

text \<open>
  \<open>UPDATE <table> SET <fields>, schema_version=?, version=version+1 WHERE id=? AND schema_version=?
  AND version=? RETURNING id\<close>, for a version other than the row's own.
\<close>

definition migrated_row :: "int \<Rightarrow> (string \<times> pyval) list \<Rightarrow> data_row \<Rightarrow> data_row" where
  "migrated_row new values r =
     r\<lparr> d_schema_version := new, d_version := d_version r + 1, d_cols := set_cols values (d_cols r) \<rparr>"

definition migrate_data ::
  "string \<Rightarrow> string \<Rightarrow> int \<Rightarrow> int \<Rightarrow> int \<Rightarrow> (string \<times> pyval) list \<Rightarrow> step_row list \<Rightarrow> db \<Rightarrow> (bool \<times> db) res" where
  "migrate_data t i old new ver values xs d =
     ebind (table_def d t) (\<lambda>def.
     ebind (require (list_all (\<lambda>x. fst x \<in> fst ` set (def_columns def)) values) ValidationError
              ''no such column'') (\<lambda>_.
     ebind (bind_params (map snd values)) (\<lambda>_.
     case find (update_hit t i old ver) (data d) of
       None \<Rightarrow> Inr (False, d)
     | Some r \<Rightarrow>
         let r' = migrated_row new values r in
         ebind (abort_when (case map_of (objects d) (t @ ''_update'') of
                              None \<Rightarrow> False | Some g \<Rightarrow> \<not> lets_migrate d xs r new g)
                  ''invalid metadata edit or migration'') (\<lambda>_.
         ebind (checked (row_checks def new (d_cols r') \<and> int64 (d_version r')) ''CHECK'') (\<lambda>_.
         ebind (checked (unique_ok d r') ''UNIQUE'') (\<lambda>_.
         ebind (checked (def_layout def \<or> (i, def_schema def, new) \<in> blob_keys d) ''FOREIGN KEY'') (\<lambda>_.
         Inr (True, d\<lparr> data := map (\<lambda>x. if update_hit t i old ver x then r' else x) (data d) \<rparr>))))))))"

text \<open>
  \<open>UPDATE ms_blobs SET schema_version=? WHERE id=?\<close>; the rows of a table that was never rebuilt
  restrict it.
\<close>

definition restricts :: "db \<Rightarrow> blob_row \<Rightarrow> bool" where
  "restricts d b =
     list_ex (\<lambda>r. data_key r = (data_table_of (b_schema b), b_id b) \<and> d_schema_version r = b_version b \<and>
       (case map_of (objects d) (d_table r) of
          None \<Rightarrow> False | Some def \<Rightarrow> as_table def \<noteq> None \<and> \<not> def_layout def)) (data d)"

definition update_blob_version :: "string \<Rightarrow> int \<Rightarrow> db \<Rightarrow> db res" where
  "update_blob_version i new d =
     ebind (table d ''ms_blobs'') (\<lambda>_.
     case row_with b_id i (ms_blobs d) of
       None \<Rightarrow> Inr d
     | Some b \<Rightarrow>
         ebind (checked (\<not> restricts d b \<and> (b_schema b, new) \<in> schema_keys d) ''FOREIGN KEY'') (\<lambda>_.
         Inr (d\<lparr> ms_blobs := map (\<lambda>b. if b_id b = i then b\<lparr> b_version := new \<rparr> else b) (ms_blobs d) \<rparr>)))"

text \<open>The new values of a row: the transformation of the decoded old ones.\<close>

definition field_values :: "string list \<Rightarrow> (string \<times> pyval) list \<Rightarrow> (string \<times> pyval) list" where
  "field_values names values = map (\<lambda>n. (n, col_value values n)) names"

definition row_inputs :: "migration \<Rightarrow> data_row \<Rightarrow> (string \<times> pyval) list res" where
  "row_inputs plan r =
     emapM (\<lambda>(n, f). ebind (expect (map_of (d_cols r) n) PyKeyError n) (\<lambda>v.
                     ebind (from_sql f v) (\<lambda>x. Inr (n, x)))) (sc_fields (mg_source plan))"

definition new_values :: "migration \<Rightarrow> data_row \<Rightarrow> (string \<times> pyval) list res" where
  "new_values plan r =
     ebind (row_inputs plan r) (\<lambda>inputs.
     ebind (mg_transform plan inputs) (normalize_metadata (mg_target plan)))"

text \<open>The body of the loop over the rows of a batch.\<close>

definition batch_row ::
  "migration \<Rightarrow> string list \<Rightarrow> data_row \<Rightarrow> step_row list \<times> db \<Rightarrow> (step_row list \<times> db) res" where
  "batch_row plan names r s =
     (case s of (xs, d) \<Rightarrow>
       ebind (new_values plan r) (\<lambda>values.
       ebind (insert_step \<lparr> st_blob = d_id r, st_migration = mg_name plan, st_expected = d_version r \<rparr> d xs) (\<lambda>xs.
       ebind (migrate_data (mg_table plan) (d_id r) (sc_version (mg_source plan)) (sc_version (mg_target plan))
                (d_version r) (field_values names values) xs d) (\<lambda>(changed, d).
       ebind (require changed ConflictError ''Migration row changed unexpectedly'') (\<lambda>_.
       ebind (update_blob_version (d_id r) (sc_version (mg_target plan)) d) (\<lambda>d.
       Inr (filter (\<lambda>x. st_blob x \<noteq> d_id r) xs, d)))))))"

fun batch_rows ::
  "migration \<Rightarrow> string list \<Rightarrow> data_row list \<Rightarrow> step_row list \<times> db \<Rightarrow> (step_row list \<times> db) res" where
  "batch_rows plan names [] s = Inr s"
| "batch_rows plan names (r # rs) s = ebind (batch_row plan names r s) (batch_rows plan names rs)"

text \<open>The rows of the next batch: those behind the checkpoint, by identity.\<close>

definition next_rows :: "migration \<Rightarrow> string option \<Rightarrow> int \<Rightarrow> db \<Rightarrow> data_row list" where
  "next_rows plan mark n d =
     take (nat n) (sort_key d_id
       (filter (\<lambda>r. case mark of None \<Rightarrow> True | Some i \<Rightarrow> i < d_id r) (source_rows plan d)))"

definition update_job :: "string \<Rightarrow> int \<Rightarrow> string option \<Rightarrow> bool \<Rightarrow> db \<Rightarrow> db" where
  "update_job name n mark running d =
     d\<lparr> ms_migrations := map (\<lambda>j. if j_name j = name
          then j\<lparr> j_migrated := j_migrated j + n, j_last_id := mark, j_running := running \<rparr> else j)
          (ms_migrations d) \<rparr>"

definition checkpoint :: "migration_row \<Rightarrow> data_row list \<Rightarrow> string option" where
  "checkpoint job rows = (if rows = [] then j_last_id job else Some (d_id (last rows)))"

text \<open>\<open>sorted(all_fields)\<close>\<close>

definition all_fields :: "blob_schema list \<Rightarrow> string list" where
  "all_fields schemas = sort (remdups (concat (map (\<lambda>x. map fst (sc_fields x)) schemas)))"

text \<open>\<open>_batch(store, tx, plan, batch_size)\<close>, of a running job in \<open>batch_of\<close>\<close>

definition batch_of ::
  "migration \<Rightarrow> int \<Rightarrow> migration_row \<Rightarrow> step_row list \<times> db \<Rightarrow> (migration_row \<times> step_row list \<times> db) res" where
  "batch_of plan n job s =
     ebind (require (all_ready plan (snd s)) ConflictError
              ''Resolve unpublished or retiring blobs before resuming'') (\<lambda>_.
     ebind (table_def (snd s) (mg_table plan)) (\<lambda>_.
     let rows = next_rows plan (j_last_id job) n (snd s) in
     ebind (declarations (snd s) (sc_name (mg_source plan))) (\<lambda>schemas.
     ebind (batch_rows plan (all_fields schemas) rows s) (\<lambda>(xs, d).
     let remaining = (source_rows plan d \<noteq> []) in
     ebind (require (remaining \<longrightarrow> rows \<noteq> []) ConflictError
              ''Source rows exist behind the checkpoint; catalog needs inspection'') (\<lambda>_.
     let d' = update_job (mg_name plan) (int (length rows)) (checkpoint job rows) remaining d in
     ebind (status (mg_name plan) d') (\<lambda>job'. Inr (job', xs, d')))))))"

definition batch ::
  "migration \<Rightarrow> int \<Rightarrow> step_row list \<times> db \<Rightarrow> (migration_row \<times> step_row list \<times> db) res" where
  "batch plan n s =
     ebind (status (mg_name plan) (snd s)) (\<lambda>job.
     if \<not> j_running job then Inr (job, s) else batch_of plan n job s)"

section \<open>The loop\<close>

text \<open>The transactions of a run; a limit of batches is a number, \<open>None\<close> no limit.\<close>

definition batch_tx :: "migration \<Rightarrow> int \<Rightarrow> db \<Rightarrow> db \<times> migration_row res" where
  "batch_tx plan n = transact deferred_ok (\<lambda>d. ebind (batch plan n ([], d)) (\<lambda>(job, xs, d'). Inr (job, d')))"

definition initialize_tx :: "app_sql \<Rightarrow> string \<Rightarrow> migration \<Rightarrow> db \<Rightarrow> db \<times> migration_row res" where
  "initialize_tx app backup plan = transact deferred_ok (initialize app backup plan)"

partial_function (option) run_batches ::
  "migration \<Rightarrow> int \<Rightarrow> int option \<Rightarrow> int \<Rightarrow> migration_row \<Rightarrow> db \<Rightarrow> (db \<times> migration_row res) option" where
  "run_batches plan n limit batches job d =
     (if j_running job \<and> (case limit of None \<Rightarrow> True | Some m \<Rightarrow> batches < m)
      then (case batch_tx plan n d of
              (d', Inl e) \<Rightarrow> Some (d', Inl e)
            | (d', Inr job') \<Rightarrow> run_batches plan n limit (batches + 1) job' d')
      else Some (d, Inr job))"

partial_function (option) dry_batches ::
  "migration \<Rightarrow> int \<Rightarrow> migration_row \<Rightarrow> step_row list \<times> db \<Rightarrow> (migration_row \<times> db) res option" where
  "dry_batches plan n job s =
     (if j_running job
      then (case batch plan n s of
              Inl e \<Rightarrow> Some (Inl e)
            | Inr (job', s') \<Rightarrow> dry_batches plan n job' s')
      else Some (Inr (job, snd s)))"

text \<open>The body of a dry run: the result that \<open>_DryRunRollback\<close> carries out of the transaction.\<close>

definition dry_body :: "app_sql \<Rightarrow> string \<Rightarrow> migration \<Rightarrow> int \<Rightarrow> db \<Rightarrow> migration_row res option" where
  "dry_body app backup plan n d =
     (case initialize app backup plan d of
        Inl e \<Rightarrow> Some (Inl e)
      | Inr (job, d1) \<Rightarrow>
          map_option (\<lambda>r. ebind r (\<lambda>(job', d2).
              ebind (require (foreign_key_check d2 = []) SchemaConflictError
                       ''Dry-run foreign key validation failed'') (\<lambda>_. Inr job')))
            (dry_batches plan n job ([], d1)))"

text \<open>The arguments of \<open>run\<close>: the plan, the size and the limit of batches, and whether it is dry.\<close>

definition run_args ::
  "migration option \<Rightarrow> pyval \<Rightarrow> pyval \<Rightarrow> pyval \<Rightarrow> (migration \<times> int \<times> int option \<times> bool) res" where
  "run_args plan batch_size max_batches dry_run =
     ebind (expect plan ValidationError ''Expected a MetadataMigration'') (\<lambda>p.
     ebind (expect (as_int batch_size) ValidationError ''batch_size must be between 1 and 1000'') (\<lambda>n.
     ebind (require (1 \<le> n \<and> n \<le> 1000) ValidationError ''batch_size must be between 1 and 1000'') (\<lambda>_.
     ebind (if max_batches = PNone then Inr None
            else ebind (expect (as_int max_batches) ValidationError
                          ''max_batches must be a nonnegative integer or None'') (\<lambda>m.
                 ebind (require (0 \<le> m) ValidationError
                          ''max_batches must be a nonnegative integer or None'') (\<lambda>_. Inr (Some m)))) (\<lambda>limit.
     ebind (expect (as_bool dry_run) ValidationError
              ''dry_run requires boolean True and no max_batches limit'') (\<lambda>dry.
     ebind (require (\<not> (dry \<and> limit \<noteq> None)) ValidationError
              ''dry_run requires boolean True and no max_batches limit'') (\<lambda>_.
     Inr (p, n, limit, dry)))))))"

text \<open>
  \<open>run(store, plan, batch_size, max_batches, dry_run)\<close>: the database afterwards and the answer
  with the flag \<open>dry_run\<close>; \<open>None\<close> is a run that does not return.
\<close>

definition run_migration ::
  "app_sql \<Rightarrow> string \<Rightarrow> migration option \<Rightarrow> pyval \<Rightarrow> pyval \<Rightarrow> pyval \<Rightarrow> db \<Rightarrow>
   (db \<times> (migration_row \<times> bool) res) option" where
  "run_migration app backup plan batch_size max_batches dry_run d =
     (case run_args plan batch_size max_batches dry_run of
        Inl e \<Rightarrow> Some (d, Inl e)
      | Inr (p, n, limit, True) \<Rightarrow>
          map_option (\<lambda>r. (d, ebind r (\<lambda>job. Inr (job, True)))) (dry_body app backup p n d)
      | Inr (p, n, limit, False) \<Rightarrow>
          (case initialize_tx app backup p d of
             (d', Inl e) \<Rightarrow> Some (d', Inl e)
           | (d', Inr job) \<Rightarrow>
               map_option (\<lambda>(d'', r). (d'', ebind r (\<lambda>job'. Inr (job', False))))
                 (run_batches p n limit 0 job d')))"

end
