(* ===== verification/Invariants.thy ===== *)
theory Invariants
  imports Maintenance
begin

text \<open>
  The effects of the writing operations of the store as explicit changes of the database, and the
  invariant of the catalog that every operation keeps.
\<close>

section \<open>The invariant\<close>

definition keys_ok :: "db \<Rightarrow> bool" where
  "keys_ok d =
     (distinct (map b_id (ms_blobs d)) \<and> distinct (map p_token (ms_prepared d)) \<and>
      distinct (map (\<lambda>p. (p_storage p, p_key p)) (ms_prepared d)) \<and>
      distinct (map o_blob (ms_objects d)) \<and> distinct (map o_token (ms_objects d)) \<and>
      distinct (map t_blob (ms_retired d)) \<and> distinct (map t_token (ms_retired d)) \<and>
      distinct (map gc_key (ms_gc d)) \<and> distinct (map data_key (data d)) \<and>
      distinct (map (\<lambda>s. (sr_name s, sr_version s)) (ms_schemas d)) \<and>
      distinct (map e_token (ms_encodings d)))"

definition own_installed :: "string list \<Rightarrow> db \<Rightarrow> bool" where
  "own_installed ns d = list_all (trigger d) ns"

definition installed :: "db \<Rightarrow> bool" where
  "installed d =
     (own_installed (core_names @ payload_names @ encoding_names @ lifecycle_names) d \<and>
      formats d = [(''ms_format'', 1), (''ms_payload_format'', 1), (''ms_encoding_format'', 1),
                   (''ms_lifecycle_format'', 1)])"

lemma trigger_has: "trigger d n \<Longrightarrow> has_object d n"
  by (auto simp: trigger_def has_object_def dest: map_of_SomeD intro: rev_image_eqI)

lemma installed_trigger:
  assumes "installed d"
    and "n \<in> set (core_names @ payload_names @ encoding_names @ lifecycle_names)"
  shows "trigger d n" "has_object d n"
  using assms trigger_has by (auto simp: installed_def own_installed_def list_all_iff)

definition schema_refs :: "db \<Rightarrow> bool" where
  "schema_refs d =
     ((\<forall>b \<in> set (ms_blobs d). (b_schema b, b_version b) \<in> schema_keys d) \<and>
      (\<forall>p \<in> set (ms_prepared d). (p_schema p, p_version p) \<in> schema_keys d))"

definition blob_complete :: "db \<Rightarrow> blob_row \<Rightarrow> bool" where
  "blob_complete d b =
     (\<exists>p m. prepared_of (b_id b) d = Some p \<and> p_schema p = b_schema b \<and> p_version p \<le> b_version b \<and>
        data_row_of (data_table_of (b_schema b)) (b_id b) d = Some m \<and> d_schema_version m = b_version b)"

text \<open>Every object row and every data row belongs to a blob, and every blob is complete.\<close>

definition blobs_ok :: "db \<Rightarrow> bool" where
  "blobs_ok d =
     ((\<forall>b \<in> set (ms_blobs d). b_state b \<noteq> PendingDelete \<and> blob_complete d b) \<and>
      o_blob ` set (ms_objects d) \<subseteq> b_id ` set (ms_blobs d) \<and>
      data_key ` set (data d) \<subseteq> (\<lambda>b. (data_table_of (b_schema b), b_id b)) ` set (ms_blobs d))"

text \<open>Cleanup intents never concern a live object, and retired identities stay retired.\<close>

definition gc_ok :: "db \<Rightarrow> bool" where
  "gc_ok d =
     ((\<forall>g \<in> set (ms_gc d). \<forall>p \<in> set (ms_prepared d).
         gc_key g = (p_storage p, p_key p) \<longrightarrow> g_token g = Some (p_token p)) \<and>
      (\<forall>g \<in> set (ms_gc d). \<forall>tok. g_token g = Some tok \<longrightarrow> tok \<notin> o_token ` set (ms_objects d)) \<and>
      (\<forall>t \<in> set (ms_retired d). t_blob t \<notin> b_id ` set (ms_blobs d)) \<and>
      (\<forall>t \<in> set (ms_retired d). \<exists>g \<in> set (ms_gc d). g_blob g = Some (t_blob t) \<and> g_token g = Some (t_token t)))"

lemma insert_blob_effect:
  "insert_blob i n v d = Inr d' \<Longrightarrow>
     d' = d\<lparr> ms_blobs := ms_blobs d @ [\<lparr> b_id = i, b_schema = n, b_version = v, b_state = Publishing \<rparr>] \<rparr> \<and>
     (trigger d ''ms_no_resurrection'' \<longrightarrow> i \<notin> t_blob ` set (ms_retired d)) \<and>
     i \<notin> b_id ` set (ms_blobs d) \<and> (n, v) \<in> schema_keys d"
  by (auto simp: insert_blob_def)

definition new_row :: "sqldef \<Rightarrow> string \<Rightarrow> string \<Rightarrow> int \<Rightarrow> (string \<times> pyval) list \<Rightarrow> data_row" where
  "new_row def t i v values =
     \<lparr> d_table = t, d_id = i, d_schema_version = v, d_version = 1,
       d_cols = map (\<lambda>(n, k). (n, col_value values n)) (def_columns def) \<rparr>"

lemma insert_data_effect:
  assumes "insert_data t i v values d = Inr d'"
  shows "\<exists>def. table_def d t = Inr def \<and> d' = d\<lparr> data := data d @ [new_row def t i v values] \<rparr> \<and>
     (t, i) \<notin> data_key ` set (data d)"
  using assms by (auto simp: insert_data_def Let_def new_row_def)

lemma insert_object_effect:
  "insert_object i tok d = Inr d' \<Longrightarrow>
     d' = d\<lparr> ms_objects := ms_objects d @ [\<lparr> o_blob = i, o_token = tok \<rparr>] \<rparr> \<and>
     (trigger d ''ms_unrevoked_object'' \<longrightarrow> Some tok \<notin> g_token ` set (ms_gc d)) \<and>
     i \<notin> o_blob ` set (ms_objects d) \<and> tok \<notin> o_token ` set (ms_objects d) \<and>
     tok \<in> p_token ` set (ms_prepared d)"
  by (auto simp: insert_object_def)

definition new_blob :: "string \<Rightarrow> blob_schema \<Rightarrow> blob_row" where
  "new_blob i s = \<lparr> b_id = i, b_schema = sc_name s, b_version = sc_version s, b_state = Publishing \<rparr>"

lemma table_def_frame [simp]:
  "table_def (d\<lparr> ms_blobs := x \<rparr>) t = table_def d t" "table_def (d\<lparr> ms_gc := y \<rparr>) t = table_def d t"
  "table_def (d\<lparr> ms_retired := z \<rparr>) t = table_def d t"
  by (simp_all add: table_def_def)

lemma insert_rows_effect:
  assumes "insert_rows i s values tok d = Inr d'"
  shows "\<exists>def. table_def d (table_name s) = Inr def \<and>
    d' = d\<lparr> ms_blobs := ms_blobs d @ [new_blob i s],
            data := data d @ [new_row def (table_name s) i (sc_version s) values],
            ms_objects := ms_objects d @ [\<lparr> o_blob = i, o_token = tok \<rparr>] \<rparr> \<and>
    (trigger d ''ms_no_resurrection'' \<longrightarrow> i \<notin> t_blob ` set (ms_retired d)) \<and>
    (trigger d ''ms_unrevoked_object'' \<longrightarrow> Some tok \<notin> g_token ` set (ms_gc d)) \<and>
    i \<notin> b_id ` set (ms_blobs d) \<and> (sc_name s, sc_version s) \<in> schema_keys d \<and>
    (table_name s, i) \<notin> data_key ` set (data d) \<and>
    i \<notin> o_blob ` set (ms_objects d) \<and> tok \<notin> o_token ` set (ms_objects d) \<and>
    tok \<in> p_token ` set (ms_prepared d)"
proof -
  from assms obtain d1 d2 where
    1: "insert_blob i (sc_name s) (sc_version s) d = Inr d1" and
    2: "insert_data (table_name s) i (sc_version s) values d1 = Inr d2" and
    3: "insert_object i tok d2 = Inr d'"
    by (auto simp: insert_rows_def)
  note e1 = insert_blob_effect [OF 1] and e3 = insert_object_effect [OF 3]
  have d1: "d1 = d\<lparr> ms_blobs := ms_blobs d @ [new_blob i s] \<rparr>"
    using e1 by (simp add: new_blob_def)
  from insert_data_effect [OF 2] obtain def where
    e2: "table_def d (table_name s) = Inr def"
      "d2 = d1\<lparr> data := data d1 @ [new_row def (table_name s) i (sc_version s) values] \<rparr>"
      "(table_name s, i) \<notin> data_key ` set (data d1)"
    by (auto simp: d1)
  show ?thesis
    by (rule exI [of _ def]) (use e1 e2 e3 in \<open>simp add: d1 trigger_def\<close>)
qed

section \<open>Records\<close>

lemma get_record_Inr:
  assumes "get_record ready i d = Inr r"
  obtains b p m s md e where
    "row_with b_id i (filter (\<lambda>b. ready \<longrightarrow> b_state b = Ready) (ms_blobs d)) = Some b"
    "prepared_of i d = Some p" "p_schema p = b_schema b" "p_version p \<le> b_version b"
    "data_row_of (data_table_of (b_schema b)) i d = Some m" "d_schema_version m = b_version b"
    "select_fields s (d_cols m) = Inr md" "read_encoding (p_token p) d = Inr e"
    "r = with_encoding e (record_row b p m md)"
  using assms by (auto simp: get_record_def)

lemma with_encoding_simps [simp]:
  "r_id (with_encoding e r) = r_id r" "r_schema_name (with_encoding e r) = r_schema_name r"
  "r_schema_version (with_encoding e r) = r_schema_version r" "r_state (with_encoding e r) = r_state r"
  "r_token (with_encoding e r) = r_token r" "r_storage (with_encoding e r) = r_storage r"
  "r_key (with_encoding e r) = r_key r" "r_size (with_encoding e r) = r_size r"
  "r_digest (with_encoding e r) = r_digest r" "r_version (with_encoding e r) = r_version r"
  "r_metadata (with_encoding e r) = r_metadata r"
  by (cases e; simp add: with_encoding_def)+

lemma record_row_simps [simp]:
  "r_id (record_row b p m md) = b_id b" "r_schema_name (record_row b p m md) = b_schema b"
  "r_schema_version (record_row b p m md) = b_version b" "r_state (record_row b p m md) = b_state b"
  "r_token (record_row b p m md) = p_token p" "r_storage (record_row b p m md) = p_storage p"
  "r_key (record_row b p m md) = p_key p" "r_size (record_row b p m md) = p_size p"
  "r_digest (record_row b p m md) = p_digest p" "r_version (record_row b p m md) = d_version m"
  "r_metadata (record_row b p m md) = md"
  by (simp_all add: record_row_def)

section \<open>Retirement\<close>

lemma insert_retired_effect:
  "insert_retired t d = Inr d' \<Longrightarrow>
     d' = d\<lparr> ms_retired := ms_retired d @ [t] \<rparr> \<and> t_blob t \<notin> t_blob ` set (ms_retired d) \<and>
     t_token t \<notin> t_token ` set (ms_retired d) \<and> t_token t \<in> p_token ` set (ms_prepared d) \<and>
     (t_schema t, t_version t) \<in> schema_keys d"
  by (auto simp: insert_retired_def)

lemma insert_gc_effect:
  "insert_gc g d = Inr d' \<Longrightarrow>
     d' = d\<lparr> ms_gc := ms_gc d @ [g] \<rparr> \<and> \<not> list_ex (gc_conflict g) (ms_gc d) \<and> gc_reference_ok g d"
  by (auto simp: insert_gc_def)

lemma row_with_set_state [simp]:
  "row_with b_id j (ms_blobs (set_state i st d)) =
     (case row_with b_id j (ms_blobs d) of None \<Rightarrow> None
      | Some b \<Rightarrow> Some (if j = i then b\<lparr> b_state := st \<rparr> else b))"
proof -
  have "row_with b_id j (map (\<lambda>b. if b_id b = i then b\<lparr> b_state := st \<rparr> else b) bs) =
      (case row_with b_id j bs of None \<Rightarrow> None
       | Some b \<Rightarrow> Some (if j = i then b\<lparr> b_state := st \<rparr> else b))" for bs
    by (induction bs) auto
  then show ?thesis by (simp add: set_state_def)
qed

lemma update_pending_effect:
  "update_pending_delete i d = Inr d' \<Longrightarrow> d' = set_state i PendingDelete d"
proof -
  have none: "set_state i PendingDelete d = d" if "row_with b_id i (ms_blobs d) = None"
  proof -
    have "map (\<lambda>b. if b_id b = i then b\<lparr> b_state := PendingDelete \<rparr> else b) bs = bs" if "i \<notin> b_id ` set bs" for bs
      using that by (induction bs) auto
    with that have "map (\<lambda>b. if b_id b = i then b\<lparr> b_state := PendingDelete \<rparr> else b) (ms_blobs d) = ms_blobs d"
      by (simp add: table_simps)
    then show ?thesis
      unfolding set_state_def by simp
  qed
  show "update_pending_delete i d = Inr d' \<Longrightarrow> d' = set_state i PendingDelete d"
    using none by (cases "row_with b_id i (ms_blobs d)") (simp_all add: update_pending_delete_def)
qed

lemma filter_no_key: "k \<notin> f ` set xs \<Longrightarrow> filter (\<lambda>x. f x \<noteq> k) xs = xs"
  by (induction xs) auto

lemma delete_data_effect:
  assumes "delete_data t i d = Inr d'"
  shows "d' = d\<lparr> data := filter (\<lambda>x. data_key x \<noteq> (t, i)) (data d) \<rparr>"
proof (cases "find (\<lambda>r. d_table r = t \<and> d_id r = i) (data d)")
  case None
  then have "filter (\<lambda>x. data_key x \<noteq> (t, i)) (data d) = data d"
    by (intro filter_no_key) (auto simp: find_None_iff data_key_def)
  with assms None show ?thesis by (auto simp: delete_data_def)
next
  case (Some r)
  with assms show ?thesis by (auto simp: delete_data_def)
qed

lemma delete_object_row_effect:
  "delete_object_row i d = Inr d' \<Longrightarrow> d' = d\<lparr> ms_objects := filter (\<lambda>ob. o_blob ob \<noteq> i) (ms_objects d) \<rparr>"
  by (auto simp: delete_object_row_def)

lemma delete_blob_effect:
  "delete_blob i d = Inr d' \<Longrightarrow> d' = d\<lparr> ms_blobs := filter (\<lambda>b. b_id b \<noteq> i) (ms_blobs d) \<rparr>"
proof -
  have "filter (\<lambda>b. b_id b \<noteq> i) (ms_blobs d) = ms_blobs d" if "row_with b_id i (ms_blobs d) = None"
    using that by (intro filter_no_key) (simp add: table_simps)
  then show "delete_blob i d = Inr d' \<Longrightarrow> d' = d\<lparr> ms_blobs := filter (\<lambda>b. b_id b \<noteq> i) (ms_blobs d) \<rparr>"
    by (auto simp: delete_blob_def split: option.splits)
qed

text \<open>The database after the six statements of a retirement.\<close>

definition retired_db :: "blob_record \<Rightarrow> db \<Rightarrow> db" where
  "retired_db r d =
     d\<lparr> ms_retired := ms_retired d @ [retired_of r], ms_gc := ms_gc d @ [gc_of r],
       ms_blobs := filter (\<lambda>b. b_id b \<noteq> r_id r) (ms_blobs d),
       data := filter (\<lambda>x. data_key x \<noteq> (data_table_of (r_schema_name r), r_id r)) (data d),
       ms_objects := filter (\<lambda>ob. o_blob ob \<noteq> r_id r) (ms_objects d) \<rparr>"

lemma filter_set_state:
  "filter (\<lambda>b. b_id b \<noteq> i) (map (\<lambda>b. if b_id b = i then b\<lparr> b_state := st \<rparr> else b) bs) =
     filter (\<lambda>b. b_id b \<noteq> i) bs"
  by (induction bs) auto

lemma retire_rows_effect:
  assumes "retire_rows r d = Inr d'"
  shows "d' = retired_db r d \<and> r_id r \<notin> t_blob ` set (ms_retired d) \<and>
    r_token r \<notin> t_token ` set (ms_retired d) \<and> \<not> list_ex (gc_conflict (gc_of r)) (ms_gc d) \<and>
    (r_schema_name r, r_schema_version r) \<in> schema_keys d"
proof -
  from assms obtain d1 d2 d3 d4 d5 where
    1: "insert_retired (retired_of r) d = Inr d1" and 2: "insert_gc (gc_of r) d1 = Inr d2" and
    3: "update_pending_delete (r_id r) d2 = Inr d3" and
    4: "delete_data (data_table_of (r_schema_name r)) (r_id r) d3 = Inr d4" and
    5: "delete_object_row (r_id r) d4 = Inr d5" and 6: "delete_blob (r_id r) d5 = Inr d'"
    by (auto simp: retire_rows_def)
  note e1 = insert_retired_effect [OF 1] and e2 = insert_gc_effect [OF 2]
  have d1: "d1 = d\<lparr> ms_retired := ms_retired d @ [retired_of r] \<rparr>" using e1 by blast
  have d2: "d2 = d1\<lparr> ms_gc := ms_gc d1 @ [gc_of r] \<rparr>" using e2 by blast
  have "d' = retired_db r d"
    unfolding delete_blob_effect [OF 6] delete_object_row_effect [OF 5] delete_data_effect [OF 4]
      update_pending_effect [OF 3] d2 d1 retired_db_def
    by (simp add: set_state_def filter_set_state)
  with e1 e2 show ?thesis
    by (simp add: d1 retired_of_def)
qed

section \<open>Preservation by the statements\<close>

definition catalog_ok :: "db \<Rightarrow> bool" where
  "catalog_ok d = (installed d \<and> keys_ok d \<and> schema_refs d \<and> blobs_ok d \<and> gc_ok d)"

lemma trigger_cong: "objects d' = objects d \<Longrightarrow> trigger d' = trigger d"
  by (rule ext) (simp add: trigger_def)

lemma installed_cong:
  assumes "objects d' = objects d" "formats d' = formats d"
  shows "installed d' = installed d"
  unfolding installed_def own_installed_def trigger_cong [OF assms(1)] assms(2) ..

lemma table_name_data: "table_name s = data_table_of (sc_name s)"
  by (simp add: table_name_def data_table_of_def)

lemma data_table_inj [simp]: "(data_table_of a = data_table_of b) = (a = b)"
  by (simp add: data_table_of_def)

lemma row_with_append_Some: "row_with k x rows = Some r \<Longrightarrow> row_with k x (rows @ rows') = Some r"
  by (simp add: row_with_append)

lemma new_row_simps [simp]:
  "data_key (new_row def t i v values) = (t, i)" "d_id (new_row def t i v values) = i"
  "d_schema_version (new_row def t i v values) = v" "d_version (new_row def t i v values) = 1"
  "d_table (new_row def t i v values) = t"
  by (simp_all add: new_row_def data_key_def)

lemma new_blob_simps [simp]:
  "b_id (new_blob i s) = i" "b_schema (new_blob i s) = sc_name s"
  "b_version (new_blob i s) = sc_version s" "b_state (new_blob i s) = Publishing"
  by (simp_all add: new_blob_def)

lemma prepared_of_frame [simp]:
  "prepared_of i (d\<lparr> ms_blobs := x \<rparr>) = prepared_of i d" "prepared_of i (d\<lparr> data := y \<rparr>) = prepared_of i d"
  "prepared_of i (d\<lparr> ms_gc := z \<rparr>) = prepared_of i d" "prepared_of i (d\<lparr> ms_retired := u \<rparr>) = prepared_of i d"
  by (simp_all add: prepared_of_def split: option.split)

lemma data_row_of_frame [simp]:
  "data_row_of t i (d\<lparr> ms_blobs := x \<rparr>) = data_row_of t i d" "data_row_of t i (d\<lparr> ms_objects := y \<rparr>) = data_row_of t i d"
  "data_row_of t i (d\<lparr> ms_gc := z \<rparr>) = data_row_of t i d" "data_row_of t i (d\<lparr> ms_retired := u \<rparr>) = data_row_of t i d"
  by (simp_all add: data_row_of_def)

lemma insert_rows_ok:
  assumes ok: "catalog_ok d" and ins: "insert_rows i s values tok d = Inr d'"
    and p: "row_with p_token tok (ms_prepared d) = Some p" "p_schema p = sc_name s" "p_version p = sc_version s"
  shows "catalog_ok d'"
proof -
  from insert_rows_effect [OF ins] obtain def where
    d': "d' = d\<lparr> ms_blobs := ms_blobs d @ [new_blob i s],
            data := data d @ [new_row def (table_name s) i (sc_version s) values],
            ms_objects := ms_objects d @ [\<lparr> o_blob = i, o_token = tok \<rparr>] \<rparr>" and
    c: "trigger d ''ms_no_resurrection'' \<longrightarrow> i \<notin> t_blob ` set (ms_retired d)"
    "trigger d ''ms_unrevoked_object'' \<longrightarrow> Some tok \<notin> g_token ` set (ms_gc d)"
    "i \<notin> b_id ` set (ms_blobs d)" "(sc_name s, sc_version s) \<in> schema_keys d"
    "(table_name s, i) \<notin> data_key ` set (data d)"
    "i \<notin> o_blob ` set (ms_objects d)" "tok \<notin> o_token ` set (ms_objects d)" by blast
  have inst: "installed d" and K: "keys_ok d" and S: "schema_refs d" and B: "blobs_ok d" and G: "gc_ok d"
    using ok by (simp_all add: catalog_ok_def)
  have c1: "i \<notin> t_blob ` set (ms_retired d)" and c2: "Some tok \<notin> g_token ` set (ms_gc d)"
    using c installed_trigger [OF inst, of "''ms_no_resurrection''"]
      installed_trigger [OF inst, of "''ms_unrevoked_object''"] by (simp_all add: lifecycle_names_def)
  have "installed d'"
    using inst installed_cong [of d' d] by (simp add: d')
  moreover have "keys_ok d'"
    using K c by (simp add: keys_ok_def d')
  moreover have "schema_refs d'"
    using S c(4) by (auto simp: schema_refs_def schema_keys_def d')
  moreover have "blobs_ok d'"
  proof -
    have old: "blob_complete d' b" if "blob_complete d b" for b
      using that by (auto simp: blob_complete_def prepared_of_def data_row_of_def d' row_with_append
          split: option.splits)
    have "blob_complete d' (new_blob i s)"
      using c p row_with_None [of o_blob i "ms_objects d"] row_with_None [of data_key "(table_name s, i)" "data d"]
      by (simp add: blob_complete_def prepared_of_def data_row_of_def d' row_with_append
          table_name_data [symmetric])
    then show ?thesis
      using B old by (auto simp: blobs_ok_def d' table_name_data)
  qed
  moreover have "gc_ok d'"
    using G c1 c2 by (auto simp: gc_ok_def d' image_iff)
  ultimately show ?thesis
    by (simp add: catalog_ok_def)
qed

lemma set_ready_ok: "catalog_ok d \<Longrightarrow> catalog_ok (set_state i Ready d)"
proof -
  assume ok: "catalog_ok d"
  have m: "map b_id (map (\<lambda>b. if b_id b = i then b\<lparr> b_state := Ready \<rparr> else b) bs) = map b_id bs" for bs
    by (induction bs) auto
  have im: "b_id ` set (map (\<lambda>b. if b_id b = i then b\<lparr> b_state := Ready \<rparr> else b) bs) = b_id ` set bs" for bs
    by (metis m set_map)
  have bc: "blob_complete (d\<lparr> ms_blobs := x \<rparr>) b = blob_complete d b" for x b
    by (simp add: blob_complete_def)
  have bs: "blob_complete d (b\<lparr> b_state := Ready \<rparr>) = blob_complete d b" for b
    by (simp add: blob_complete_def)
  have i1: "installed (set_state i Ready d)"
    using ok installed_cong [of "set_state i Ready d" d] by (simp add: catalog_ok_def set_state_def)
  have i2: "keys_ok (set_state i Ready d)"
    using ok by (simp add: catalog_ok_def keys_ok_def set_state_def m del: map_map)
  have i3: "schema_refs (set_state i Ready d)"
    using ok by (auto simp: catalog_ok_def schema_refs_def schema_keys_def set_state_def)
  have "\<forall>b \<in> set (ms_blobs (set_state i Ready d)). b_state b \<noteq> PendingDelete \<and> blob_complete d b"
    using ok by (auto simp: catalog_ok_def blobs_ok_def set_state_def bs)
  moreover have "(\<lambda>b. (data_table_of (b_schema b), b_id b)) ` set (ms_blobs (set_state i Ready d)) =
      (\<lambda>b. (data_table_of (b_schema b), b_id b)) ` set (ms_blobs d)"
  proof -
    have e: "map (\<lambda>b. (data_table_of (b_schema b), b_id b))
        (map (\<lambda>b. if b_id b = i then b\<lparr> b_state := Ready \<rparr> else b) bs) =
        map (\<lambda>b. (data_table_of (b_schema b), b_id b)) bs" for bs
      by (induction bs) auto
    show ?thesis
      using arg_cong [OF e [of "ms_blobs d"], of set] by (simp add: set_state_def image_image del: map_map)
  qed
  ultimately have i4: "blobs_ok (set_state i Ready d)"
    using ok im [of "ms_blobs d"]
    by (simp add: catalog_ok_def blobs_ok_def set_state_def bc del: set_map)
  have "gc_ok (set_state i Ready d)"
    using ok im [of "ms_blobs d"] by (simp add: catalog_ok_def gc_ok_def set_state_def del: set_map)
  then show ?thesis using i1 i2 i3 i4 by (simp add: catalog_ok_def)
qed


lemma update_ready_ok: "catalog_ok d \<Longrightarrow> update_ready i d = Inr d' \<Longrightarrow> catalog_ok d'"
  using set_ready_ok by (auto simp: update_ready_def split: option.splits if_splits)

section \<open>Metadata updates\<close>

lemma update_data_effect:
  assumes "update_data t i sv ver values d = Inr (hit, d')"
  shows "(\<not> hit \<and> d' = d) \<or> hit \<and> (\<exists>r. find (update_hit t i sv ver) (data d) = Some r \<and>
    d' = d\<lparr> data := map (\<lambda>x. if update_hit t i sv ver x then updated_row values r else x) (data d) \<rparr>)"
  using assms by (auto simp: update_data_def Let_def split: option.splits)

lemma find_SomeD: "find P xs = Some x \<Longrightarrow> x \<in> set xs \<and> P x"
  by (induction xs) (auto split: if_splits)

lemma updated_row_simps [simp]:
  "data_key (updated_row values r) = data_key r" "d_id (updated_row values r) = d_id r"
  "d_schema_version (updated_row values r) = d_schema_version r" "d_table (updated_row values r) = d_table r"
  "d_version (updated_row values r) = d_version r + 1"
  by (simp_all add: updated_row_def data_key_def)

text \<open>The keys and schema versions of the data rows, which an update keeps.\<close>

definition row_ids :: "db \<Rightarrow> ((string \<times> string) \<times> int) list" where
  "row_ids d = map (\<lambda>m. (data_key m, d_schema_version m)) (data d)"

lemma update_data_row_ids:
  assumes "update_data t i sv ver values d = Inr (hit, d')"
  shows "row_ids d' = row_ids d" "d' = d\<lparr> data := data d' \<rparr>"
proof -
  consider "d' = d" | r where "find (update_hit t i sv ver) (data d) = Some r"
      "d' = d\<lparr> data := map (\<lambda>x. if update_hit t i sv ver x then updated_row values r else x) (data d) \<rparr>"
    using update_data_effect [OF assms] by blast
  then show "row_ids d' = row_ids d"
  proof cases
    case 2
    have "update_hit t i sv ver r" using find_SomeD [OF 2(1)] by blast
    then show ?thesis
      by (auto simp: row_ids_def 2(2) update_hit_def data_key_def updated_row_def)
  qed simp
  show "d' = d\<lparr> data := data d' \<rparr>"
    using update_data_effect [OF assms] by auto
qed

text \<open>Everything in the invariant but the data rows' columns depends on their keys only.\<close>

lemma blob_complete_alt:
  "blob_complete d b =
     (map_option d_schema_version (data_row_of (data_table_of (b_schema b)) (b_id b) d) = Some (b_version b) \<and>
      (\<exists>p. prepared_of (b_id b) d = Some p \<and> p_schema p = b_schema b \<and> p_version p \<le> b_version b))"
  by (auto simp: blob_complete_def)

lemma row_ids_complete:
  assumes "row_ids d' = row_ids d" "d' = d\<lparr> data := data d' \<rparr>"
  shows "blob_complete d' b = blob_complete d b"
proof -
  have rw: "map_option d_schema_version (row_with data_key k xs) =
      map_option snd (row_with fst k (map (\<lambda>m. (data_key m, d_schema_version m)) xs))" for k xs
    by (induction xs) auto
  have "map_option d_schema_version (data_row_of t i d') = map_option d_schema_version (data_row_of t i d)" for t i
    using assms(1) by (simp add: data_row_of_def rw row_ids_def)
  moreover have "prepared_of (b_id b) d' = prepared_of (b_id b) d"
    by (subst assms(2)) simp
  ultimately show ?thesis
    by (simp add: blob_complete_alt)
qed

lemma row_ids_ok:
  assumes ok: "catalog_ok d" and r: "row_ids d' = row_ids d" "d' = d\<lparr> data := data d' \<rparr>"
  shows "catalog_ok d'"
proof -
  have f: "ms_blobs d' = ms_blobs d" "ms_prepared d' = ms_prepared d" "ms_objects d' = ms_objects d"
    "ms_retired d' = ms_retired d" "ms_gc d' = ms_gc d" "ms_schemas d' = ms_schemas d"
    "ms_encodings d' = ms_encodings d" "objects d' = objects d" "formats d' = formats d"
    by (subst r(2), simp)+
  have k: "map data_key (data d') = map data_key (data d)"
    using arg_cong [OF r(1), of "map fst"] by (simp add: row_ids_def comp_def)
  have i: "data_key ` set (data d') = data_key ` set (data d)"
    using arg_cong [OF k, of set] by simp
  show ?thesis
    using ok installed_cong [of d' d] row_ids_complete [OF r]
    by (simp add: catalog_ok_def keys_ok_def schema_refs_def schema_keys_def blobs_ok_def gc_ok_def f k i)
qed

section \<open>Cleanup intents\<close>

text \<open>A new intent that matches the journal and concerns no object keeps the invariant.\<close>

lemma add_gc_ok:
  assumes ok: "catalog_ok d" and g: "gc_key g \<notin> gc_key ` set (ms_gc d)"
    and p: "\<And>p. p \<in> set (ms_prepared d) \<Longrightarrow> gc_key g = (p_storage p, p_key p) \<Longrightarrow> g_token g = Some (p_token p)"
    and t: "\<And>tok. g_token g = Some tok \<Longrightarrow> tok \<notin> o_token ` set (ms_objects d)"
  shows "catalog_ok (d\<lparr> ms_gc := ms_gc d @ [g] \<rparr>)"
proof -
  let ?d = "d\<lparr> ms_gc := ms_gc d @ [g] \<rparr>"
  have "blob_complete ?d b = blob_complete d b" for b
    by (simp add: blob_complete_def)
  then show ?thesis
    using ok installed_cong [of ?d d] p t g
    by (simp add: catalog_ok_def keys_ok_def schema_refs_def schema_keys_def blobs_ok_def gc_ok_def)
qed

lemma mark_gc_effect:
  "mark_gc sid key st err d = Inr d' \<Longrightarrow>
     d' = d\<lparr> ms_gc := map (\<lambda>g. if gc_key g = (sid, key) \<and> g_state g = Pending
                         then g\<lparr> g_state := st, g_error := err \<rparr> else g) (ms_gc d) \<rparr>"
  by (simp add: mark_gc_def)


lemma mark_gc_ok: "catalog_ok d \<Longrightarrow> mark_gc sid key st err d = Inr d' \<Longrightarrow> catalog_ok d'"
proof -
  assume ok: "catalog_ok d" and m: "mark_gc sid key st err d = Inr d'"
  define f where "f g = (if gc_key g = (sid, key) \<and> g_state g = Pending
      then g\<lparr> g_state := st, g_error := err \<rparr> else g)" for g
  have f: "gc_key (f g) = gc_key g" "g_token (f g) = g_token g" "g_blob (f g) = g_blob g" for g
    by (simp_all add: f_def gc_key_def)
  have d': "d' = d\<lparr> ms_gc := map f (ms_gc d) \<rparr>"
    unfolding mark_gc_effect [OF m] f_def ..
  have "blob_complete d' b = blob_complete d b" for b
    by (simp add: blob_complete_def d')
  then show ?thesis
    using ok installed_cong [of d' d]
    by (simp add: catalog_ok_def keys_ok_def schema_refs_def schema_keys_def blobs_ok_def gc_ok_def d' f
        comp_def)
qed

lemma gc_key_conflict: "\<not> list_ex (gc_conflict g) gs \<Longrightarrow> gc_key g \<notin> gc_key ` set gs"
  by (auto simp: list_ex_iff gc_conflict_def)

section \<open>Retirement\<close>

lemma prepared_of_SomeD:
  "prepared_of i d = Some p \<Longrightarrow>
     \<exists>ob. ob \<in> set (ms_objects d) \<and> o_blob ob = i \<and> o_token ob = p_token p \<and> p \<in> set (ms_prepared d)"
  by (auto simp: prepared_of_def split: option.splits dest!: row_with_SomeD)

lemma data_row_blob:
  "blobs_ok d \<Longrightarrow> x \<in> set (data d) \<Longrightarrow>
     \<exists>c \<in> set (ms_blobs d). data_key x = (data_table_of (b_schema c), b_id c)"
  unfolding blobs_ok_def by blast

lemma retired_blobs_ok:
  assumes K: "keys_ok d" and B: "blobs_ok d" and b: "b \<in> set (ms_blobs d)" "b_id b = r_id r" "b_schema b = r_schema_name r"
  shows "blobs_ok (retired_db r d)"
proof -
  let ?d = "retired_db r d"
  have complete: "blob_complete ?d c" if "blob_complete d c" "b_id c \<noteq> r_id r" for c
  proof -
    have "row_with o_blob (b_id c) (filter (\<lambda>ob. o_blob ob \<noteq> r_id r) (ms_objects d)) = row_with o_blob (b_id c) (ms_objects d)"
      by (rule row_with_filter_other) (use that in simp)
    then have "prepared_of (b_id c) ?d = prepared_of (b_id c) d"
      by (simp add: prepared_of_def retired_db_def split: option.split)
    moreover have "data_row_of t (b_id c) ?d = data_row_of t (b_id c) d" for t
      unfolding data_row_of_def retired_db_def by (simp add: row_with_filter_other that)
    ultimately show ?thesis using that by (simp add: blob_complete_def)
  qed
  have "data_key x \<in> (\<lambda>b. (data_table_of (b_schema b), b_id b)) ` set (ms_blobs ?d)"
    if x: "x \<in> set (data d)" "data_key x \<noteq> (data_table_of (r_schema_name r), r_id r)" for x
  proof -
    obtain c where c: "c \<in> set (ms_blobs d)" "data_key x = (data_table_of (b_schema c), b_id c)"
      using data_row_blob [OF B x(1)] by blast
    have "c = b" if "b_id c = r_id r"
      using distinct_map_inj [of b_id, OF _ c(1) b(1)] K that b(2) by (simp add: keys_ok_def)
    then have "b_id c \<noteq> r_id r" using c(2) x(2) b by auto
    with c show ?thesis by (auto simp: retired_db_def)
  qed
  then have "data_key ` set (data ?d) \<subseteq> (\<lambda>b. (data_table_of (b_schema b), b_id b)) ` set (ms_blobs ?d)"
    by (auto simp: retired_db_def)
  moreover have "b_state c \<noteq> PendingDelete \<and> blob_complete ?d c" if "c \<in> set (ms_blobs ?d)" for c
    using B complete that by (simp add: blobs_ok_def retired_db_def)
  moreover have "o_blob ` set (ms_objects ?d) \<subseteq> b_id ` set (ms_blobs ?d)"
    using B by (auto simp: blobs_ok_def retired_db_def)
  ultimately show ?thesis by (simp add: blobs_ok_def)
qed

lemma retired_gc_ok:
  assumes K: "keys_ok d" and G: "gc_ok d" and ob: "ob \<in> set (ms_objects d)" "o_blob ob = r_id r" "o_token ob = r_token r"
    and p: "p \<in> set (ms_prepared d)" "p_token p = r_token r" "(p_storage p, p_key p) = (r_storage r, r_key r)"
  shows "gc_ok (retired_db r d)"
proof -
  let ?d = "retired_db r d"
  have u: "q = p" if "q \<in> set (ms_prepared d)" "(p_storage q, p_key q) = (p_storage p, p_key p)" for q
    using K that p(1) distinct_map_inj [of "\<lambda>p. (p_storage p, p_key p)" "ms_prepared d" q p] by (simp add: keys_ok_def)
  have v: "o_blob x = r_id r" if "x \<in> set (ms_objects d)" "o_token x = r_token r" for x
    using K that ob distinct_map_inj [of o_token "ms_objects d" x ob] by (simp add: keys_ok_def)
  have g: "gc_key (gc_of r) = (p_storage p, p_key p)" "g_token (gc_of r) = Some (r_token r)"
    "g_blob (gc_of r) = Some (r_id r)" "t_blob (retired_of r) = r_id r" "t_token (retired_of r) = r_token r"
    using p(3) by (simp_all add: gc_of_def gc_key_def retired_of_def)
  have "\<forall>g \<in> set (ms_gc ?d). \<forall>q \<in> set (ms_prepared ?d). gc_key g = (p_storage q, p_key q) \<longrightarrow> g_token g = Some (p_token q)"
    using G g u p(2) by (auto simp: gc_ok_def retired_db_def)
  moreover have "\<forall>g \<in> set (ms_gc ?d). \<forall>tok. g_token g = Some tok \<longrightarrow> tok \<notin> o_token ` set (ms_objects ?d)"
    using G g v by (auto simp: gc_ok_def retired_db_def)
  moreover have "\<forall>t \<in> set (ms_retired ?d). t_blob t \<notin> b_id ` set (ms_blobs ?d)"
    using G g by (auto simp: gc_ok_def retired_db_def)
  moreover have "\<forall>t \<in> set (ms_retired ?d). \<exists>g \<in> set (ms_gc ?d). g_blob g = Some (t_blob t) \<and> g_token g = Some (t_token t)"
    using G g by (auto simp: gc_ok_def retired_db_def)
  ultimately show ?thesis by (simp add: gc_ok_def)
qed

lemma retired_db_ok:
  assumes ok: "catalog_ok d" and r: "get_record False i d = Inr r" and ret: "retire_rows r d = Inr d'"
  shows "catalog_ok d'"
proof -
  from r obtain b p m s md e where
    b: "row_with b_id i (ms_blobs d) = Some b" "prepared_of i d = Some p" and re: "r = with_encoding e (record_row b p m md)"
    by (rule get_record_Inr) simp
  have bi: "b \<in> set (ms_blobs d)" "b_id b = i" using row_with_SomeD [OF b(1)] by simp_all
  have rs: "r_id r = i" "r_schema_name r = b_schema b" "r_token r = p_token p" "r_storage r = p_storage p" "r_key r = p_key p"
    by (simp_all add: re bi)
  have d': "d' = retired_db r d" and new: "i \<notin> t_blob ` set (ms_retired d)" "p_token p \<notin> t_token ` set (ms_retired d)"
    "gc_key (gc_of r) \<notin> gc_key ` set (ms_gc d)"
    using retire_rows_effect [OF ret] gc_key_conflict rs by simp_all
  obtain ob where ob: "ob \<in> set (ms_objects d)" "o_blob ob = i" "o_token ob = p_token p" "p \<in> set (ms_prepared d)"
    using prepared_of_SomeD [OF b(2)] by blast
  have K: "keys_ok d" and B: "blobs_ok d" and G: "gc_ok d" using ok by (simp_all add: catalog_ok_def)
  have "installed d'"
    using ok installed_cong [of d' d] by (simp add: catalog_ok_def d' retired_db_def)
  moreover have "keys_ok d'"
    using K new by (simp add: keys_ok_def d' retired_db_def distinct_map_filter retired_of_def rs)
  moreover have "schema_refs d'"
    using ok by (auto simp: catalog_ok_def schema_refs_def schema_keys_def d' retired_db_def)
  moreover have "blobs_ok d'" unfolding d' by (rule retired_blobs_ok [OF K B bi(1)]) (simp_all add: bi(2) rs)
  moreover have "gc_ok d'" unfolding d' by (rule retired_gc_ok [OF K G ob(1) _ _ ob(4)]) (simp_all add: ob(2,3) rs)
  ultimately show ?thesis by (simp add: catalog_ok_def)
qed

section \<open>Preparation and cleanup intents\<close>

lemma insert_encoding_effect:
  "insert_encoding e d = Inr d' \<Longrightarrow>
     d' = d\<lparr> ms_encodings := ms_encodings d @ [e] \<rparr> \<and> e_token e \<notin> e_token ` set (ms_encodings d)"
  by (auto simp: insert_encoding_def)

lemma insert_prepared_effect:
  "insert_prepared p d = Inr d' \<Longrightarrow>
     d' = d\<lparr> ms_prepared := ms_prepared d @ [p] \<rparr> \<and>
     (trigger d ''ms_fresh_object_key'' \<longrightarrow> (p_storage p, p_key p) \<notin> gc_key ` set (ms_gc d)) \<and>
     p_token p \<notin> p_token ` set (ms_prepared d) \<and>
     (p_storage p, p_key p) \<notin> (\<lambda>q. (p_storage q, p_key q)) ` set (ms_prepared d) \<and>
     (p_schema p, p_version p) \<in> schema_keys d \<and> digest_form (p_digest p)"
  by (auto simp: insert_prepared_def gc_key_def)

lemma add_encoding_ok:
  assumes ok: "catalog_ok d" and ins: "insert_encoding e d = Inr d'"
  shows "catalog_ok d'"
proof -
  note eff = insert_encoding_effect [OF ins]
  have d': "d' = d\<lparr> ms_encodings := ms_encodings d @ [e] \<rparr>" using eff by blast
  have "prepared_of i d' = prepared_of i d" for i
    by (simp add: prepared_of_def d' split: option.split)
  then have "blob_complete d' b = blob_complete d b" for b
    by (simp add: blob_complete_def data_row_of_def d')
  then show ?thesis
    using ok installed_cong [of d' d] eff
    by (simp add: catalog_ok_def keys_ok_def schema_refs_def schema_keys_def blobs_ok_def gc_ok_def)
qed

lemma add_prepared_ok:
  assumes ok: "catalog_ok d" and ins: "insert_prepared p d = Inr d'"
  shows "catalog_ok d'"
proof -
  note eff = insert_prepared_effect [OF ins]
  have d': "d' = d\<lparr> ms_prepared := ms_prepared d @ [p] \<rparr>" using eff by blast
  have inst: "installed d" and B: "blobs_ok d" and G: "gc_ok d"
    using ok by (simp_all add: catalog_ok_def)
  have fresh: "(p_storage p, p_key p) \<notin> gc_key ` set (ms_gc d)"
    using eff installed_trigger [OF inst, of "''ms_fresh_object_key''"] by (simp add: lifecycle_names_def)
  have "blob_complete d' b" if "blob_complete d b" for b
    using that by (auto simp: blob_complete_def prepared_of_def data_row_of_def d' row_with_append
        split: option.splits)
  then have "blobs_ok d'"
    using B by (simp add: blobs_ok_def d')
  moreover have "gc_ok d'"
    using G fresh by (auto simp: gc_ok_def d' image_iff)
  ultimately show ?thesis
    using ok installed_cong [of d' d] eff
    by (auto simp: catalog_ok_def keys_ok_def schema_refs_def schema_keys_def)
qed

lemma journal_ok: "catalog_ok d \<Longrightarrow> journal arg schema d = Inr d' \<Longrightarrow> catalog_ok d'"
  by (auto simp: journal_def intro: add_prepared_ok add_encoding_ok split: option.splits)

text \<open>What a matching token says about the journal.\<close>

lemma matches_Inr:
  "matches arg p d = Inr ok \<Longrightarrow> ok \<Longrightarrow> row_with p_token (p_token p) (ms_prepared d) = Some p"
  by (auto simp: matches_def split: if_splits)

lemma insert_or_ignore_gc_effect:
  "insert_or_ignore_gc g d = Inr d' \<Longrightarrow>
     d' = d \<and> list_ex (gc_conflict g) (ms_gc d) \<or>
     d' = d\<lparr> ms_gc := ms_gc d @ [g] \<rparr> \<and> \<not> list_ex (gc_conflict g) (ms_gc d)"
  by (auto simp: insert_or_ignore_gc_def split: if_splits)

lemma prepared_unique:
  "keys_ok d \<Longrightarrow> p \<in> set (ms_prepared d) \<Longrightarrow> q \<in> set (ms_prepared d) \<Longrightarrow>
     (p_storage p, p_key p) = (p_storage q, p_key q) \<Longrightarrow> p = q"
  using distinct_map_inj [of "\<lambda>p. (p_storage p, p_key p)" "ms_prepared d" p q] by (simp add: keys_ok_def)

lemma discard_ok:
  assumes ok: "catalog_ok d" and dis: "discard sid arg d = Inr (g, d')"
  shows "catalog_ok d'"
proof -
  from dis obtain p b where
    p: "physical arg = Some p" "matches arg p d = Inr b" "b" "p_token p \<notin> o_token ` set (ms_objects d)" and
    i: "insert_or_ignore_gc (discarded_gc p) d = Inr d'"
    by (auto simp: discard_def)
  have pin: "p \<in> set (ms_prepared d)"
    using matches_Inr [OF p(2,3)] by (auto dest: row_with_SomeD)
  have K: "keys_ok d" using ok by (simp add: catalog_ok_def)
  have g: "gc_key (discarded_gc p) = (p_storage p, p_key p)" "g_token (discarded_gc p) = Some (p_token p)"
    by (simp_all add: discarded_gc_def gc_key_def)
  show ?thesis
    using insert_or_ignore_gc_effect [OF i]
  proof
    assume e: "d' = d\<lparr> ms_gc := ms_gc d @ [discarded_gc p] \<rparr> \<and> \<not> list_ex (gc_conflict (discarded_gc p)) (ms_gc d)"
    have "catalog_ok (d\<lparr> ms_gc := ms_gc d @ [discarded_gc p] \<rparr>)"
      by (rule add_gc_ok [OF ok]) (use e gc_key_conflict [of "discarded_gc p" "ms_gc d"] g p(4) prepared_unique [OF K pin] in auto)
    with e show ?thesis by simp
  qed (use ok in simp)
qed

lemma queue_keys_ok:
  "catalog_ok d \<Longrightarrow> queue_keys sid keys d = Inr d' \<Longrightarrow> catalog_ok d'"
proof (induction keys arbitrary: d)
  case (Cons key keys)
  from Cons.prems(2) obtain d1 where
    k: "(sid, key) \<notin> (\<lambda>p. (p_storage p, p_key p)) ` set (ms_prepared d)" and
    i: "insert_or_ignore_gc (orphan_gc sid key) d = Inr d1" and r: "queue_keys sid keys d1 = Inr d'"
    by auto
  have g: "gc_key (orphan_gc sid key) = (sid, key)" "g_token (orphan_gc sid key) = None"
    by (simp_all add: orphan_gc_def gc_key_def)
  have "catalog_ok d1"
    using insert_or_ignore_gc_effect [OF i]
  proof
    assume e: "d1 = d\<lparr> ms_gc := ms_gc d @ [orphan_gc sid key] \<rparr> \<and> \<not> list_ex (gc_conflict (orphan_gc sid key)) (ms_gc d)"
    have "catalog_ok (d\<lparr> ms_gc := ms_gc d @ [orphan_gc sid key] \<rparr>)"
      by (rule add_gc_ok [OF Cons.prems(1)]) (use e gc_key_conflict [of "orphan_gc sid key" "ms_gc d"] g k in auto)
    with e show ?thesis by simp
  qed (use Cons.prems in simp)
  then show ?case using Cons.IH r by blast
qed simp

lemma queue_orphans_ok: "catalog_ok d \<Longrightarrow> queue_orphans linked sid keys d = Inr (ks, d') \<Longrightarrow> catalog_ok d'"
  by (auto simp: queue_orphans_def intro: queue_keys_ok)

section \<open>The operations\<close>

lemma token_usable_Inr:
  assumes "token_usable sid s arg d = Inr p"
  shows "physical arg = Some p \<and> row_with p_token (p_token p) (ms_prepared d) = Some p \<and> p_storage p = sid \<and>
    p_schema p = sc_name s \<and> p_version p = sc_version s"
  using assms matches_Inr [of arg p d] by (auto simp: token_usable_def)

lemma finalize_effect:
  assumes "finalize sid arg schema metadata id' d = Inr (r, d')"
  obtains (Existing) i s vals p where "py_identifier id' = Inr i" "check_schema True schema d = Inr s"
      "normalize_metadata s metadata = Inr vals" "token_usable sid s arg d = Inr p"
      "i \<in> b_id ` set (ms_blobs d)" "get_record False i d = Inr r" "r_token r = p_token p"
      "r_metadata r = vals" "d' = d"
    | (New) i s vals p where "py_identifier id' = Inr i" "check_schema True schema d = Inr s"
      "normalize_metadata s metadata = Inr vals" "token_usable sid s arg d = Inr p"
      "i \<notin> b_id ` set (ms_blobs d)" "insert_rows i s vals (p_token p) d = Inr d'"
      "get_record False i d' = Inr r"
proof -
  from assms obtain i s vals p where
    1: "py_identifier id' = Inr i" "check_schema True schema d = Inr s"
      "normalize_metadata s metadata = Inr vals" "token_usable sid s arg d = Inr p" and
    2: "(if i \<in> b_id ` set (ms_blobs d)
         then ebind (get_record False i d) (\<lambda>existing.
              ebind (require (r_token existing = p_token p \<and> r_metadata existing = vals) ConflictError
                       ''Blob ID already identifies a different operation'') (\<lambda>_. Inr (existing, d)))
         else ebind (require (p_token p \<notin> o_token ` set (ms_objects d)) ConflictError
                       ''Prepared token is already associated with another blob'') (\<lambda>_.
              ebind (insert_rows i s vals (p_token p) d) (\<lambda>d'.
              ebind (get_record False i d') (\<lambda>r. Inr (r, d'))))) = Inr (r, d')"
    unfolding finalize_def ebind_eq_Inr by blast
  show ?thesis
  proof (cases "i \<in> b_id ` set (ms_blobs d)")
    case True
    with 2 show ?thesis by (intro Existing [OF 1 True]) auto
  next
    case False
    with 2 show ?thesis by (intro New [OF 1 False]) auto
  qed
qed

lemma finalize_ok:
  assumes "catalog_ok d" "finalize sid arg schema metadata id' d = Inr (r, d')"
  shows "catalog_ok d'"
  using assms(2)
proof (cases rule: finalize_effect)
  case (New i s vals p)
  then show ?thesis
    using insert_rows_ok [OF assms(1) New(6)] token_usable_Inr [OF New(4)] by blast
qed (use assms in simp)

lemma publish_effect:
  assumes "publish sid i d = Inr (r, d')"
  shows "update_ready i d = Inr d' \<and> get_record True i d' = Inr r"
  using assms by (auto simp: publish_def)

lemma publish_ok: "catalog_ok d \<Longrightarrow> publish sid i d = Inr (r, d') \<Longrightarrow> catalog_ok d'"
  using publish_effect update_ready_ok by blast

lemma update_metadata_effect:
  assumes "update_metadata id' schema changes ev d = Inr (r, d')"
  obtains i s ver vals where "py_identifier id' = Inr i" "check_schema True schema d = Inr s"
    "ev = PInt ver" "check_changes s changes = Inr vals"
    "update_data (table_name s) i (sc_version s) ver vals d = Inr (True, d')"
    "get_record True i d' = Inr r"
proof -
  from assms obtain i s ver vals current p where
    "py_identifier id' = Inr i" "check_schema True schema d = Inr s" "as_int ev = Some ver"
    "check_changes s changes = Inr vals" "update_data (table_name s) i (sc_version s) ver vals d = Inr p" and
    e: "(case p of (hit, d2) \<Rightarrow> ebind (require hit ConflictError ''Metadata changed before the guarded update'')
          (\<lambda>_. ebind (get_record True i d2) (\<lambda>r. Inr (r, d2)))) = Inr (r, d')"
    unfolding update_metadata_def ebind_eq_Inr expect_eq_Inr by blast
  then show ?thesis
    by (intro that [of i s ver vals]) (cases p; auto)+
qed

lemma update_metadata_ok:
  assumes "catalog_ok d" "update_metadata id' schema changes ev d = Inr (r, d')"
  shows "catalog_ok d'"
  using assms(2)
proof (cases rule: update_metadata_effect)
  case (1 i s ver vals)
  from update_data_row_ids [OF 1(5)] show ?thesis
    using row_ids_ok assms(1) by blast
qed

lemma delete_effect:
  assumes "delete sid id' ev d = Inr (res, d')"
  obtains (Known) i t g where "py_identifier id' = Inr i" "res = Some (t, g)" "retirement i d = Inr (Some (t, g))" "d' = d"
    | (New) i r where "py_identifier id' = Inr i" "get_record False i d = Inr r" "retire_rows r d = Inr d'"
        "retirement i d = Inr None" "retirement i d' = Inr res" "r_storage r = sid" "ev = PInt (r_version r)"
proof -
  from assms obtain i ver prev where
    1: "py_identifier id' = Inr i" "as_int ev = Some ver" "retirement i d = Inr prev" and
    2: "(case prev of
       Some (t, g) \<Rightarrow>
         ebind (require (g_storage g = sid) ValidationError
                  ''Retirement belongs to another storage root'') (\<lambda>_.
         ebind (require (t_metadata_version t = ver) ConflictError
                  ''Retirement concurrency version differs'') (\<lambda>_. Inr (Some (t, g), d)))
     | None \<Rightarrow>
         ebind (get_record False i d) (\<lambda>r.
         ebind (require (r_storage r = sid) ValidationError ''Blob belongs to another storage root'') (\<lambda>_.
         ebind (require (r_version r = ver) ConflictError ''Metadata concurrency version is stale'') (\<lambda>_.
         ebind (require (\<not> migrating (r_schema_name r) d) ConflictError
                  ''Finish the schema migration before retiring its blobs'') (\<lambda>_.
         ebind (retire_rows r d) (\<lambda>d'.
         ebind (retirement i d') (\<lambda>result. Inr (result, d')))))))) = Inr (res, d')"
    unfolding delete_def ebind_eq_Inr expect_eq_Inr by blast
  show ?thesis
  proof (cases prev)
    case None
    with 1 2 show ?thesis by (auto intro: New)
  next
    case (Some tg)
    with 1 2 show ?thesis by (cases tg) (auto intro: Known)
  qed
qed

lemma delete_ok:
  assumes "catalog_ok d" "delete sid id' ev d = Inr (res, d')"
  shows "catalog_ok d'"
  using assms(2)
proof (cases rule: delete_effect)
  case (New i r)
  then show ?thesis
    using retired_db_ok [OF assms(1) New(2,3)] by blast
qed (use assms in simp)

lemma complete_import_effect:
  assumes "complete_import sid i arg s metadata vals n dig encoding d = Inr (r, d')"
  obtains (Retried) "retry sid i s vals n dig encoding d = Inr (Some r)" "d' = d"
    | (New) r1 d1 where "retry sid i s vals n dig encoding d = Inr None"
        "finalize sid arg (Some s) metadata (PStr i) d = Inr (r1, d1)" "publish sid i d1 = Inr (r, d')"
proof -
  from assms obtain result where
    1: "retry sid i s vals n dig encoding d = Inr result" and
    2: "(case result of
           Some r \<Rightarrow> Inr (r, d)
         | None \<Rightarrow> ebind (finalize sid arg (Some s) metadata (PStr i) d) (\<lambda>(_, d'). publish sid i d')) =
        Inr (r, d')"
    unfolding complete_import_def ebind_eq_Inr by blast
  show ?thesis
  proof (cases result)
    case None
    with 2 obtain x where "finalize sid arg (Some s) metadata (PStr i) d = Inr x"
      "(case x of (_, d') \<Rightarrow> publish sid i d') = Inr (r, d')"
      by auto
    with 1 None show ?thesis by (cases x) (auto intro: New)
  next
    case (Some y)
    with 1 2 show ?thesis by (auto intro: Retried)
  qed
qed

lemma complete_import_ok:
  assumes "catalog_ok d" "complete_import sid i arg s metadata vals n dig encoding d = Inr (r, d')"
  shows "catalog_ok d'"
  using assms(2)
proof (cases rule: complete_import_effect)
  case (New r1 d1)
  then show ?thesis
    using assms(1) finalize_ok publish_ok by blast
qed (use assms in simp)

end
