(* ===== verification/RowInvariants.thy ===== *)
theory RowInvariants
  imports Invariants
begin

text \<open>
  The part of the invariant that concerns the schema registry and the typed columns of the data
  rows, its preservation, the readability of every record, and the installation of schemas.
\<close>

section \<open>Definitions determine declarations\<close>

lemma kind_name_inj [simp]: "(kind_name k = kind_name k') = (k = k')"
  by (cases k; cases k') simp_all

lemma json_field_inj [simp]: "(json_field f = json_field g) = (f = g)"
  by (auto simp: json_field_def)

lemma definition_determines:
  assumes "schema_definition s = schema_definition s'"
  shows "sc_fields s = sc_fields s'" "sc_name s = sc_name s'" "sc_version s = sc_version s'"
proof -
  have "inj (\<lambda>x. (fst x :: string, json_field (snd x)))"
    by (rule injI) (auto simp: prod_eq_iff)
  moreover have "map (\<lambda>x. (fst x, json_field (snd x))) (sc_fields s) =
      map (\<lambda>x. (fst x, json_field (snd x))) (sc_fields s')"
    using assms by (simp add: schema_definition_def)
  ultimately show "sc_fields s = sc_fields s'"
    by (simp only: inj_map_eq_map)
qed (use assms in \<open>simp_all add: schema_definition_def\<close>)

section \<open>The registry and the data rows\<close>

definition registered :: "db \<Rightarrow> blob_schema \<Rightarrow> bool" where
  "registered d s =
     (\<exists>r \<in> set (ms_schemas d). sr_name r = sc_name s \<and> sr_version r = sc_version s \<and>
        sr_definition r = schema_definition s)"

text \<open>The data table of a schema holds the columns of its version.\<close>

definition has_table :: "db \<Rightarrow> blob_schema \<Rightarrow> bool" where
  "has_table d s =
     (\<exists>vs l. map_of (objects d) (table_name s) = Some (TableDef (sc_name s) vs l) \<and>
        (sc_version s, table_cols s) \<in> set vs)"

definition registry_ok :: "db \<Rightarrow> bool" where
  "registry_ok d =
     (\<forall>r \<in> set (ms_schemas d). \<exists>s. wf_declared s \<and> sr_name r = sc_name s \<and> sr_version r = sc_version s \<and>
        sr_definition r = schema_definition s \<and> has_table d s)"

definition row_shaped :: "db \<Rightarrow> data_row \<Rightarrow> bool" where
  "row_shaped d m =
     (\<exists>def. table_def d (d_table m) = Inr def \<and> map fst (d_cols m) = map fst (def_columns def))"

definition cols_typed :: "blob_schema \<Rightarrow> (string \<times> pyval) list \<Rightarrow> bool" where
  "cols_typed s cols = (\<forall>(n, f) \<in> set (sc_fields s). \<exists>x. from_sql f (col_value cols n) = Inr x)"

definition rows_typed :: "db \<Rightarrow> bool" where
  "rows_typed d =
     (\<forall>m \<in> set (data d). row_shaped d m \<and>
        (\<forall>s. registered d s \<and> table_name s = d_table m \<and> sc_version s = d_schema_version m \<longrightarrow>
             cols_typed s (d_cols m)))"

definition rows_ok :: "db \<Rightarrow> bool" where
  "rows_ok d = (registry_ok d \<and> rows_typed d)"

lemma table_def_Inr: "(table_def d t = Inr def) = (map_of (objects d) t = Some def \<and> as_table def = Some def)"
proof -
  have "as_table x = Some y \<Longrightarrow> x = y" for x y
    by (cases x) auto
  then show ?thesis
    by (auto simp: table_def_def split: option.splits)
qed

lemma has_table_lookup:
  assumes "has_table d s"
  shows "\<exists>def. table_def d (table_name s) = Inr def \<and> def_schema def = sc_name s \<and>
    (sc_version s, table_cols s) \<in> set (def_versions def)"
  using assms by (fastforce simp: has_table_def table_def_Inr)

lemma def_columns_fields:
  "(v, table_cols s) \<in> set (def_versions def) \<Longrightarrow> (n, f) \<in> set (sc_fields s) \<Longrightarrow>
   n \<in> fst ` set (def_columns def)"
  by (force simp: def_columns_def table_cols_def)

lemma registered_table:
  assumes "registry_ok d" "registered d s"
  shows "has_table d s" "\<exists>s'. wf_declared s' \<and> schema_definition s' = schema_definition s"
proof -
  from assms obtain s' where s': "wf_declared s'" "schema_definition s' = schema_definition s" "has_table d s'"
    unfolding registered_def registry_ok_def by metis
  note e = definition_determines [OF s'(2)]
  have "table_name s' = table_name s" "table_cols s' = table_cols s"
    by (simp_all add: table_name_def table_cols_def e)
  with s' e show "has_table d s" by (simp add: has_table_def)
  show "\<exists>s'. wf_declared s' \<and> schema_definition s' = schema_definition s"
    using s' by blast
qed

lemma registered_unique:
  assumes "keys_ok d" "registered d s" "registered d s'" "sc_name s = sc_name s'" "sc_version s = sc_version s'"
  shows "schema_definition s = schema_definition s'"
proof -
  obtain r r' where r: "r \<in> set (ms_schemas d)" "r' \<in> set (ms_schemas d)"
      "(sr_name r, sr_version r) = (sc_name s, sc_version s)" "sr_definition r = schema_definition s"
      "(sr_name r', sr_version r') = (sc_name s', sc_version s')" "sr_definition r' = schema_definition s'"
    using assms(2,3) unfolding registered_def by blast
  then have "r = r'"
    using assms distinct_map_inj [of "\<lambda>s. (sr_name s, sr_version s)" "ms_schemas d" r r'] by (simp add: keys_ok_def)
  with r show ?thesis by simp
qed

lemma check_schema_Inr:
  assumes "check_schema wr arg d = Inr s"
  shows "arg = Some s \<and> registered d s"
proof -
  from assms have a: "arg = Some s" and
    m: "map sr_definition (lookup_schema d (sc_name s) (sc_version s)) = [schema_definition s]"
    by (auto simp: check_schema_def Let_def split: if_splits)
  then obtain r where "r \<in> set (lookup_schema d (sc_name s) (sc_version s))" "sr_definition r = schema_definition s"
    by (cases "lookup_schema d (sc_name s) (sc_version s)") auto
  with a show ?thesis
    by (auto simp: registered_def lookup_schema_def)
qed

section \<open>Accepted metadata is typed\<close>

lemma normalize_readable: "normalize f v = Inr w \<Longrightarrow> \<exists>x. from_sql f w = Inr x"
  using normalize_from_sql by blast

lemma normalize_metadata_vals:
  assumes "normalize_metadata s metadata = Inr vals" and d: "distinct (map fst (sc_fields s))"
    and n: "(n, f) \<in> set (sc_fields s)"
  shows "\<exists>v w. map_of vals n = Some w \<and> normalize f v = Inr w"
proof -
  have gen: "list_all2 (\<lambda>x y. fst y = fst x \<and> (\<exists>v. normalize (snd x) v = Inr (snd y))) fs ys \<Longrightarrow>
      distinct (map fst fs) \<Longrightarrow> (n, f) \<in> set fs \<Longrightarrow> \<exists>v w. map_of ys n = Some w \<and> normalize f v = Inr w" for fs ys
  proof (induction rule: list_all2_induct)
    case (Cons x xs y ys)
    show ?case
    proof (cases "x = (n, f)")
      case True
      with Cons.hyps show ?thesis by (cases y) auto
    next
      case False
      with Cons.prems have "(n, f) \<in> set xs" "n \<noteq> fst x" by (auto simp: rev_image_eqI)
      with Cons show ?thesis by (cases y) auto
    qed
  qed simp
  from assms(1) obtain items where
    "list_all2 (\<lambda>x y. (case x of (name, spec) \<Rightarrow> ebind (normalize spec (py_get items name)) (\<lambda>v. Inr (name, v))) = Inr y)
       (sc_fields s) vals"
    by (auto simp: normalize_metadata_def emapM_eq_Inr)
  then have "list_all2 (\<lambda>x y. fst y = fst x \<and> (\<exists>v. normalize (snd x) v = Inr (snd y))) (sc_fields s) vals"
    by (rule list_all2_mono) auto
  with gen d n show ?thesis by blast
qed

lemma map_of_columns: "map_of (map (\<lambda>(n, k). (n, g n)) cs) n = (if n \<in> fst ` set cs then Some (g n) else None)"
  by (induction cs) auto

lemma new_row_col: "n \<in> fst ` set (def_columns def) \<Longrightarrow> col_value (d_cols (new_row def t i v vals)) n = col_value vals n"
  by (simp add: new_row_def col_value_def [of "map f xs" for f xs] map_of_columns)

lemma new_row_names: "map fst (d_cols (new_row def t i v vals)) = map fst (def_columns def)"
  by (simp add: new_row_def comp_def case_prod_beta)

lemma wf_distinct: "wf_declared s \<Longrightarrow> distinct (map fst (sc_fields s))"
  by (simp add: wf_declared_def wf_schema_def fields_ok_distinct)

lemma rows_ok_cong:
  assumes "objects d' = objects d" "ms_schemas d' = ms_schemas d" "set (data d') \<subseteq> set (data d)" "rows_ok d"
  shows "rows_ok d'"
proof -
  have "registered d' = registered d" "has_table d' = has_table d" "table_def d' = table_def d"
    by (rule ext, simp add: registered_def has_table_def table_def_def assms)+
  then show ?thesis
    using assms unfolding rows_ok_def registry_ok_def rows_typed_def row_shaped_def by auto
qed

text \<open>The columns of a new row hold the normalised metadata.\<close>

lemma new_row_typed:
  assumes R: "registry_ok d" and K: "keys_ok d" and s: "registered d s" and s': "registered d s'"
    and e: "sc_name s' = sc_name s" "sc_version s' = sc_version s"
    and t: "table_def d (table_name s) = Inr def" and v: "normalize_metadata s metadata = Inr vals"
  shows "cols_typed s' (d_cols (new_row def (table_name s) i (sc_version s) vals))"
  unfolding cols_typed_def
proof safe
  fix n f assume "(n, f) \<in> set (sc_fields s')"
  then have n: "(n, f) \<in> set (sc_fields s)"
    using definition_determines [OF registered_unique [OF K s s']] e by simp
  obtain s0 where s0: "wf_declared s0" "schema_definition s0 = schema_definition s"
    using registered_table [OF R s] by blast
  have d: "distinct (map fst (sc_fields s))"
    using wf_distinct [OF s0(1)] definition_determines [OF s0(2)] by simp
  obtain x w where w: "map_of vals n = Some w" "normalize f x = Inr w"
    using normalize_metadata_vals [OF v d n] by blast
  have "(sc_version s, table_cols s) \<in> set (def_versions def)"
    using has_table_lookup [OF registered_table(1) [OF R s]] t by auto
  then have "n \<in> fst ` set (def_columns def)"
    using n by (rule def_columns_fields)
  then show "\<exists>x. from_sql f (col_value (d_cols (new_row def (table_name s) i (sc_version s) vals)) n) = Inr x"
    using normalize_readable [OF w(2)] w(1) by (simp add: new_row_col) (simp add: col_value_def)
qed

lemma insert_rows_rows_ok:
  assumes ok: "rows_ok d" and K: "keys_ok d" and ins: "insert_rows i s vals tok d = Inr d'"
    and s: "registered d s" and v: "normalize_metadata s metadata = Inr vals"
  shows "rows_ok d'"
proof -
  from insert_rows_effect [OF ins] obtain def where
    t: "table_def d (table_name s) = Inr def" and
    d': "d' = d\<lparr> ms_blobs := ms_blobs d @ [new_blob i s],
            data := data d @ [new_row def (table_name s) i (sc_version s) vals],
            ms_objects := ms_objects d @ [\<lparr> o_blob = i, o_token = tok \<rparr>] \<rparr>" by blast
  have R: "registry_ok d" using ok by (simp add: rows_ok_def)
  have same: "registered d' = registered d" "has_table d' = has_table d" "table_def d' = table_def d"
    by (rule ext, simp add: registered_def has_table_def table_def_def d')+
  have "row_shaped d (new_row def (table_name s) i (sc_version s) vals)"
    using t by (simp add: row_shaped_def new_row_names)
  moreover have "cols_typed s' (d_cols (new_row def (table_name s) i (sc_version s) vals))"
    if "registered d s'" "table_name s' = table_name s" "sc_version s' = sc_version s" for s'
    using new_row_typed [OF R K s that(1) _ that(3) t v] that(2) by (simp add: table_name_data)
  ultimately show ?thesis
    using ok by (simp add: rows_ok_def registry_ok_def rows_typed_def row_shaped_def same) (simp add: d' row_shaped_def)
qed

section \<open>Updates\<close>

lemma check_changes_vals:
  assumes "check_changes s changes = Inr vals" "map_of vals n = Some w"
  shows "\<exists>f v. map_of (sc_fields s) n = Some f \<and> \<not> f_immutable f \<and> normalize f v = Inr w"
proof -
  have gen: "list_all2 (\<lambda>x y. check_change s x = Inr y) items ys \<Longrightarrow> map_of ys n = Some w \<Longrightarrow>
      \<exists>f v. map_of (sc_fields s) n = Some f \<and> \<not> f_immutable f \<and> normalize f v = Inr w" for items ys
  proof (induction rule: list_all2_induct)
    case (Cons x xs y ys)
    show ?case
    proof (cases "fst y = n")
      case True
      with Cons.prems have w: "snd y = w" by (cases y) auto
      show ?thesis
      proof (cases "fst x")
        case (PStr k)
        with Cons.hyps(1) True w show ?thesis by (auto simp: check_change_def)
      qed (use Cons.hyps(1) in \<open>simp_all add: check_change_def\<close>)
    next
      case False
      with Cons show ?thesis by (cases y) auto
    qed
  qed simp
  from assms(1) obtain items where "list_all2 (\<lambda>x y. check_change s x = Inr y) items vals"
    by (auto simp: check_changes_def emapM_eq_Inr)
  with gen assms(2) show ?thesis by blast
qed

lemma set_cols_value:
  "n \<in> fst ` set cols \<Longrightarrow>
   col_value (set_cols vals cols) n = (case map_of vals n of None \<Rightarrow> col_value cols n | Some w \<Rightarrow> w)"
proof -
  have "map_of (set_cols vals cols) n =
      (case map_of cols n of None \<Rightarrow> None | Some v \<Rightarrow> Some (case map_of vals n of None \<Rightarrow> v | Some w \<Rightarrow> w))"
  proof (induction cols)
    case (Cons c cols)
    then show ?case by (cases c) (simp add: set_cols_def)
  qed (simp add: set_cols_def)
  moreover assume "n \<in> fst ` set cols"
  then obtain v where "map_of cols n = Some v"
    by (metis map_of_eq_None_iff not_None_eq)
  ultimately show ?thesis by (simp add: col_value_def split: option.splits)
qed

lemma set_cols_names [simp]: "map fst (set_cols vals cols) = map fst cols"
  by (simp add: set_cols_def comp_def case_prod_beta)

lemma update_cols_typed:
  assumes R: "registry_ok d" and K: "keys_ok d" and s: "registered d s" and s': "registered d s'"
    and e: "sc_name s' = sc_name s" "sc_version s' = sc_version s"
    and m: "row_shaped d m" "d_table m = table_name s" "cols_typed s' (d_cols m)"
    and v: "check_changes s changes = Inr vals"
  shows "cols_typed s' (set_cols vals (d_cols m))"
  unfolding cols_typed_def
proof safe
  fix n f assume n': "(n, f) \<in> set (sc_fields s')"
  then have n: "(n, f) \<in> set (sc_fields s)"
    using definition_determines [OF registered_unique [OF K s s']] e by simp
  obtain s0 where s0: "wf_declared s0" "schema_definition s0 = schema_definition s"
    using registered_table [OF R s] by blast
  have f: "map_of (sc_fields s) n = Some f"
    using wf_distinct [OF s0(1)] definition_determines [OF s0(2)] n by simp
  obtain def where def: "table_def d (table_name s) = Inr def" "map fst (d_cols m) = map fst (def_columns def)"
    using m(1,2) by (auto simp: row_shaped_def)
  have "(sc_version s, table_cols s) \<in> set (def_versions def)"
    using has_table_lookup [OF registered_table(1) [OF R s]] def(1) by auto
  then have "n \<in> fst ` set (def_columns def)"
    using n by (rule def_columns_fields)
  then have nc: "n \<in> fst ` set (d_cols m)"
    using def(2) by (metis set_map)
  show "\<exists>x. from_sql f (col_value (set_cols vals (d_cols m)) n) = Inr x"
  proof (cases "map_of vals n")
    case None
    then show ?thesis
      using m(3) n' by (auto simp: set_cols_value [OF nc] cols_typed_def)
  next
    case (Some w)
    with check_changes_vals [OF v Some] f normalize_readable show ?thesis
      by (auto simp: set_cols_value [OF nc])
  qed
qed

lemma update_data_rows_ok:
  assumes ok: "rows_ok d" and K: "keys_ok d" and u: "update_data (table_name s) i (sc_version s) ver vals d = Inr (hit, d')"
    and s: "registered d s" and v: "check_changes s changes = Inr vals"
  shows "rows_ok d'"
proof -
  have R: "registry_ok d" and T: "rows_typed d" using ok by (simp_all add: rows_ok_def)
  consider "d' = d" | r where "find (update_hit (table_name s) i (sc_version s) ver) (data d) = Some r"
      "d' = d\<lparr> data := map (\<lambda>x. if update_hit (table_name s) i (sc_version s) ver x then updated_row vals r else x) (data d) \<rparr>"
    using update_data_effect [OF u] by blast
  then show ?thesis
  proof cases
    case (2 r)
    have r: "r \<in> set (data d)" "d_table r = table_name s" "d_schema_version r = sc_version s"
      using find_SomeD [OF 2(1)] by (auto simp: update_hit_def)
    have same: "registered d' = registered d" "has_table d' = has_table d" "table_def d' = table_def d"
      by (rule ext, simp add: registered_def has_table_def table_def_def 2)+
    have rs: "row_shaped d r"
      using T r by (simp add: rows_typed_def)
    have "row_shaped d (updated_row vals r)"
      using rs by (simp add: row_shaped_def updated_row_def)
    moreover have "cols_typed s' (d_cols (updated_row vals r))"
      if s': "registered d s'" "table_name s' = table_name s" "sc_version s' = sc_version s" for s'
    proof -
      have "cols_typed s' (d_cols r)"
        using T r s' by (simp add: rows_typed_def)
      then show ?thesis
        using update_cols_typed [OF R K s s'(1) _ s'(3) rs r(2) _ v] s'(2)
        by (simp add: updated_row_def table_name_data)
    qed
    moreover have "set (data d') \<subseteq> insert (updated_row vals r) (set (data d))"
      by (auto simp: 2)
    ultimately have "rows_typed d'"
      using T r unfolding rows_typed_def row_shaped_def same by auto
    then show ?thesis
      using R unfolding rows_ok_def registry_ok_def same by (simp add: 2)
  qed (use ok in simp)
qed

end
