(* ===== verification/Installing.thy ===== *)
theory Installing
  imports RowInvariants
begin

text \<open>
  Reading a record succeeds for every blob of a consistent catalog, and installing schemas keeps the
  catalog consistent.
\<close>

section \<open>Every record can be read\<close>

lemma data_row_version:
  assumes B: "blobs_ok d" and K: "keys_ok d" and x: "x \<in> set (data d)"
  shows "\<exists>c \<in> set (ms_blobs d). data_key x = (data_table_of (b_schema c), b_id c) \<and> d_schema_version x = b_version c"
proof -
  obtain c where c: "c \<in> set (ms_blobs d)" "data_key x = (data_table_of (b_schema c), b_id c)"
    using data_row_blob [OF B x] by blast
  then obtain m where m: "data_row_of (data_table_of (b_schema c)) (b_id c) d = Some m" "d_schema_version m = b_version c"
    using B by (auto simp: blobs_ok_def blob_complete_def)
  have "data_row_of (data_table_of (b_schema c)) (b_id c) d = Some x"
    unfolding data_row_of_def using K x c by (simp add: row_with_Some keys_ok_def)
  with m c show ?thesis by auto
qed

lemma blob_registered:
  assumes S: "schema_refs d" and R: "registry_ok d" and b: "b \<in> set (ms_blobs d)"
  shows "\<exists>s. wf_declared s \<and> registered d s \<and> sc_name s = b_schema b \<and> sc_version s = b_version b \<and> has_table d s"
proof -
  have "(b_schema b, b_version b) \<in> schema_keys d"
    using S b by (simp add: schema_refs_def)
  then obtain r where r: "r \<in> set (ms_schemas d)" "sr_name r = b_schema b" "sr_version r = b_version b"
    by (auto simp: schema_keys_def)
  then obtain s where s: "wf_declared s" "sr_name r = sc_name s" "sr_version r = sc_version s"
      "sr_definition r = schema_definition s" "has_table d s"
    using R unfolding registry_ok_def by blast
  then have "registered d s"
    using r(1) unfolding registered_def by blast
  with s r show ?thesis by auto
qed

lemma lookup_registered:
  assumes "keys_ok d" "registered d s"
  shows "\<exists>r. lookup_schema d (sc_name s) (sc_version s) = [r] \<and> sr_definition r = schema_definition s"
proof -
  obtain r where r: "r \<in> set (ms_schemas d)" "sr_name r = sc_name s" "sr_version r = sc_version s"
      "sr_definition r = schema_definition s"
    using assms(2) unfolding registered_def by blast
  have "filter (\<lambda>x. f x = k) xs = [x]" if "distinct (map f xs)" "x \<in> set xs" "f x = k"
    for f :: "schema_row \<Rightarrow> string \<times> int" and xs x k
    using that
  proof (induction xs)
    case (Cons y ys)
    show ?case
    proof (cases "y = x")
      case True
      with Cons.prems have "filter (\<lambda>x. f x = k) ys = []"
        by (auto simp: filter_empty_conv image_iff)
      with True Cons.prems show ?thesis by simp
    next
      case False
      with Cons.prems have "f y \<noteq> k" by (auto simp: image_iff)
      with False Cons show ?thesis by simp
    qed
  qed simp
  from this [of "\<lambda>s. (sr_name s, sr_version s)" "ms_schemas d" r] have "lookup_schema d (sc_name s) (sc_version s) = [r]"
    using assms(1) r by (simp add: keys_ok_def lookup_schema_def)
  with r show ?thesis by blast
qed

lemma select_fields_ok:
  assumes "\<And>n f. (n, f) \<in> set (sc_fields s) \<Longrightarrow> n \<in> fst ` set cols"
  shows "select_fields s cols = Inr (map (\<lambda>x. (fst x, col_value cols (fst x))) (sc_fields s))"
  unfolding select_fields_def
proof (rule emapM_Inr_map)
  fix x assume x: "x \<in> set (sc_fields s)"
  then have "fst x \<in> fst ` set cols"
    using assms [of "fst x" "snd x"] by simp
  then obtain v where "map_of cols (fst x) = Some v"
    by (metis map_of_eq_None_iff not_None_eq)
  then show "ebind (expect (map_of cols (fst x)) PyKeyError (fst x)) (\<lambda>v. Inr (fst x, v)) =
      Inr (fst x, col_value cols (fst x))"
    by (simp add: col_value_def)
qed

lemma verify_encodings_ok:
  assumes "installed d" shows "verify_encodings d = Inr ()"
proof -
  have "trigger d n" if "n \<in> set encoding_names" for n
    using installed_trigger [OF assms, of n] that by simp
  then have "verify_objects (own encoding_names) d = Inr ()"
    by (simp add: verify_objects_def own_def list_all_iff trigger_def)
  moreover have "verify_format ''ms_encoding_format'' m d = Inr ()" for m
    using assms by (simp add: verify_format_def installed_def)
  ultimately show ?thesis
    by (simp add: verify_encodings_def)
qed

lemma installed_names: "installed d \<Longrightarrow> n \<in> set (core_names @ payload_names @ encoding_names @ lifecycle_names) \<Longrightarrow> has_object d n"
  by (rule installed_trigger(2))

lemma read_encoding_ok: "installed d \<Longrightarrow> read_encoding tok d = Inr (row_with e_token tok (ms_encodings d))"
  using installed_names [of d "''ms_encoding_format''"]
  by (simp add: read_encoding_def verify_encodings_ok encoding_names_def)

text \<open>What the record of a blob holds.\<close>

lemma record_of_blob:
  assumes ok: "catalog_ok d" "rows_ok d" and b: "b \<in> set (ms_blobs d)" and rd: "ready \<longrightarrow> b_state b = Ready"
  obtains p m s where
    "prepared_of (b_id b) d = Some p" "data_row_of (data_table_of (b_schema b)) (b_id b) d = Some m"
    "wf_declared s" "registered d s" "sc_name s = b_schema b" "sc_version s = b_version b"
    "cols_typed s (d_cols m)"
    "get_record ready (b_id b) d =
       Inr (with_encoding (row_with e_token (p_token p) (ms_encodings d))
              (record_row b p m (map (\<lambda>x. (fst x, col_value (d_cols m) (fst x))) (sc_fields s))))"
proof -
  have I: "installed d" and K: "keys_ok d" and S: "schema_refs d" and B: "blobs_ok d"
    using ok by (simp_all add: catalog_ok_def)
  have R: "registry_ok d" and T: "rows_typed d" using ok by (simp_all add: rows_ok_def)
  obtain p m where pm: "prepared_of (b_id b) d = Some p" "p_schema p = b_schema b" "p_version p \<le> b_version b"
      "data_row_of (data_table_of (b_schema b)) (b_id b) d = Some m" "d_schema_version m = b_version b"
    using B b by (auto simp: blobs_ok_def blob_complete_def)
  obtain s where s: "wf_declared s" "registered d s" "sc_name s = b_schema b" "sc_version s = b_version b" "has_table d s"
    using blob_registered [OF S R b] by blast
  have m: "m \<in> set (data d)" "d_table m = data_table_of (b_schema b)"
    using row_with_SomeD [OF pm(4) [unfolded data_row_of_def]] by (simp_all add: data_key_def)
  have tn: "table_name s = data_table_of (b_schema b)"
    using s by (simp add: table_name_data)
  obtain def where def: "table_def d (data_table_of (b_schema b)) = Inr def"
      "(sc_version s, table_cols s) \<in> set (def_versions def)"
    using has_table_lookup [OF s(5)] tn by auto
  have "map fst (d_cols m) = map fst (def_columns def)"
    using T m def(1) by (auto simp: rows_typed_def row_shaped_def)
  then have sel: "select_fields s (d_cols m) =
      Inr (map (\<lambda>x. (fst x, col_value (d_cols m) (fst x))) (sc_fields s))"
    by (intro select_fields_ok) (metis def_columns_fields [OF def(2)] set_map)
  have typed: "cols_typed s (d_cols m)"
    using T m s pm(5) tn by (simp add: rows_typed_def)
  obtain r where r: "lookup_schema d (b_schema b) (b_version b) = [r]" "sr_definition r = schema_definition s"
    using lookup_registered [OF K s(2)] s by auto
  let ?s = "s\<lparr> sc_payload_validator := map_option (\<lambda>_. unavailable_validator) (sc_validator_id s) \<rparr>"
  have dec: "decode (sr_definition r) = Inr ?s"
    unfolding r(2) by (rule decode_definition [OF s(1)])
  have row: "row_with b_id (b_id b) (filter (\<lambda>b. ready \<longrightarrow> b_state b = Ready) (ms_blobs d)) = Some b"
    using K b rd by (subst row_with_Some) (simp_all add: keys_ok_def distinct_map_filter)
  have "select_fields ?s (d_cols m) = select_fields s (d_cols m)"
    by (simp add: select_fields_def)
  then have "get_record ready (b_id b) d =
       Inr (with_encoding (row_with e_token (p_token p) (ms_encodings d))
              (record_row b p m (map (\<lambda>x. (fst x, col_value (d_cols m) (fst x))) (sc_fields s))))"
    using installed_names [OF I, of "''ms_blobs''"] installed_names [OF I, of "''ms_objects''"]
      installed_names [OF I, of "''ms_prepared''"]
    by (simp add: get_record_def row pm def(1) r(1) dec sel read_encoding_ok [OF I] core_names_def payload_names_def)
  then show ?thesis
    using that pm s typed by blast
qed

section \<open>Creating objects\<close>

definition lower_name :: "string \<times> sqldef \<Rightarrow> string" where
  "lower_name x = ascii_lower (fst x)"

lemma create_all_effect:
  "create_all xs d = Inr d' \<Longrightarrow>
     d' = d\<lparr> objects := objects d @ xs \<rparr> \<and> lower_name ` set xs \<inter> lower_name ` set (objects d) = {} \<and>
     distinct (map lower_name xs)"
proof (induction xs arbitrary: d)
  case (Cons x xs)
  from Cons.prems obtain d1 where d1: "create x d = Inr d1" "create_all xs d1 = Inr d'" by auto
  have e: "d1 = d\<lparr> objects := objects d @ [x] \<rparr>" "lower_name x \<notin> lower_name ` set (objects d)"
    using d1(1) by (auto simp: create_def lower_name_def)
  show ?case
    using Cons.IH [OF d1(2)] e by auto
qed simp

lemma fresh_map_of:
  assumes "lower_name x \<notin> lower_name ` set xs" shows "map_of xs (fst x) = None"
  unfolding map_of_eq_None_iff
proof
  assume "fst x \<in> fst ` set xs"
  then obtain y where y: "y \<in> set xs" "fst x = fst y" by auto
  have "lower_name x = lower_name y"
    unfolding lower_name_def y(2) ..
  then have "lower_name x \<in> lower_name ` set xs"
    using y(1) by simp
  with assms show False by contradiction
qed

text \<open>Definitions stay visible when objects are appended; fresh ones become visible.\<close>

lemma map_of_keep: "map_of xs n = Some v \<Longrightarrow> map_of (xs @ ys) n = Some v"
  by (simp add: map_of_append)

lemma map_of_fresh:
  assumes "lower_name ` set ys \<inter> lower_name ` set xs = {}" "distinct (map lower_name ys)" "(n, v) \<in> set ys"
  shows "map_of (xs @ ys) n = Some v"
proof -
  have "map_of xs n = None"
    using assms(1,3) fresh_map_of [of "(n, v)" xs] by auto
  moreover have "distinct (map fst ys)"
  proof -
    have "distinct (map ascii_lower (map fst ys))"
      using assms(2) unfolding lower_name_def map_map comp_def .
    then show ?thesis by (simp only: distinct_map)
  qed
  ultimately show ?thesis
    using assms(3) by (simp add: map_of_append map_add_def)
qed


section \<open>Installing a schema in an installed catalog\<close>

text \<open>Objects and schemas only grow, and the data is untouched.\<close>

definition extends :: "db \<Rightarrow> db \<Rightarrow> bool" where
  "extends d d' =
     ((\<exists>xs. objects d' = objects d @ xs) \<and> formats d' = formats d \<and> ms_blobs d' = ms_blobs d \<and>
      ms_prepared d' = ms_prepared d \<and> ms_objects d' = ms_objects d \<and> ms_encodings d' = ms_encodings d \<and>
      ms_retired d' = ms_retired d \<and> ms_gc d' = ms_gc d \<and> data d' = data d \<and>
      ms_metadata_layouts d' = ms_metadata_layouts d \<and> ms_migrations d' = ms_migrations d)"

lemma extends_refl [simp]: "extends d d"
  by (auto simp: extends_def)

lemma extends_trans: "extends d d' \<Longrightarrow> extends d' d'' \<Longrightarrow> extends d d''"
  by (auto simp: extends_def)

lemma extends_map_of: "extends d d' \<Longrightarrow> map_of (objects d) n = Some v \<Longrightarrow> map_of (objects d') n = Some v"
  by (auto simp: extends_def map_of_append)

lemma extends_installed:
  assumes "extends d d'" "installed d" shows "installed d'"
proof -
  have "trigger d n \<Longrightarrow> trigger d' n" for n
    using extends_map_of [OF assms(1)] by (simp add: trigger_def)
  then show ?thesis
    using assms by (auto simp: installed_def own_installed_def list_all_iff extends_def)
qed

text \<open>The extensions of an installed catalog are only verified.\<close>

lemma installed_same:
  assumes I: "installed d"
  shows "install_core d = Inr d' \<Longrightarrow> d' = d" "payload_format d = Inr d' \<Longrightarrow> d' = d"
    "install_encodings d = Inr d' \<Longrightarrow> d' = d" "install_lifecycle d = Inr d' \<Longrightarrow> d' = d"
  using installed_names [OF I, of "''ms_format''"] installed_names [OF I, of "''ms_payload_format''"]
    installed_names [OF I, of "''ms_encoding_format''"] installed_names [OF I, of "''ms_lifecycle_format''"]
  by (simp_all add: install_core_def payload_format_def install_encodings_def install_lifecycle_def
      core_names_def payload_names_def encoding_names_def lifecycle_names_def)

lemma insert_schema_effect:
  "insert_schema s d = Inr d' \<Longrightarrow>
     d' = d\<lparr> ms_schemas := ms_schemas d @ [\<lparr> sr_name = sc_name s, sr_version = sc_version s,
       sr_table = table_name s, sr_definition = schema_definition s \<rparr>] \<rparr> \<and>
     (sc_name s, sc_version s) \<notin> schema_keys d"
  by (auto simp: insert_schema_def)

text \<open>What \<open>install\<close> adds: nothing, or the registry row and the objects of a first version.\<close>

lemma install_effect:
  assumes I: "installed d" and ins: "install s d = Inr d'"
  shows "d' = d \<or>
    sc_version s = 1 \<and> (sc_name s, sc_version s) \<notin> schema_keys d \<and>
    d' = d\<lparr> ms_schemas := ms_schemas d @ [\<lparr> sr_name = sc_name s, sr_version = sc_version s,
              sr_table = table_name s, sr_definition = schema_definition s \<rparr>],
            objects := objects d @ schema_objects s \<rparr> \<and>
    lower_name ` set (schema_objects s) \<inter> lower_name ` set (objects d) = {} \<and>
    distinct (map lower_name (schema_objects s))"
proof -
  from ins obtain d1 where d1: "install_core d = Inr d1" and
    r: "(case lookup_schema d1 (sc_name s) (sc_version s) of
       r # rs \<Rightarrow>
         ebind (require (map (\<lambda>r. (sr_definition r, sr_table r)) (r # rs) = [(schema_definition s, table_name s)])
                  SchemaConflictError ''Schema name/version already has a different definition'') (\<lambda>_.
         ebind (if evolved d1 (sc_name s) then verify_layout d1 (sc_name s)
                else verify_objects (schema_objects s) d) (\<lambda>_. Inr d1))
     | [] \<Rightarrow>
         ebind (require (sc_version s = 1) SchemaConflictError
                  ''Use an explicit MetadataMigration to install a new version'') (\<lambda>_.
         ebind (require (\<not> list_ex (\<lambda>x. has_object d (fst x)) (schema_objects s)) SchemaConflictError
                  ''Schema SQL names already exist'') (\<lambda>_.
         ebind (insert_schema s d1) (create_all (schema_objects s))))) = Inr d'"
    unfolding install_def ebind_eq_Inr by blast
  have e: "d1 = d" by (rule installed_same(1) [OF I d1])
  show ?thesis
  proof (cases "lookup_schema d (sc_name s) (sc_version s)")
    case Nil
    with r e obtain d2 where "sc_version s = 1" "insert_schema s d = Inr d2" "create_all (schema_objects s) d2 = Inr d'"
      by auto
    then show ?thesis
      using create_all_effect [of "schema_objects s" d2 d'] insert_schema_effect [of s d d2] by auto
  next
    case (Cons x xs)
    with r e show ?thesis by simp
  qed
qed

lemma payload_install_effect:
  assumes I: "installed d" and ins: "payload_install s d = Inr d'"
  shows "extends d d' \<and> ms_schemas d' = ms_schemas d \<and> app_refs d' = app_refs d"
proof -
  from ins obtain d1 where d1: "payload_format d = Inr d1"
    by (auto simp: payload_install_def)
  have "d1 = d" by (rule installed_same(2) [OF I d1])
  with ins d1 show ?thesis
    by (auto simp: payload_install_def Let_def create_def extends_def split: if_splits)
qed

lemma lifecycle_schema_effect:
  "lifecycle_schema s d = Inr d' \<Longrightarrow> extends d d' \<and> ms_schemas d' = ms_schemas d \<and> app_refs d' = app_refs d"
  by (auto simp: lifecycle_schema_def Let_def create_def extends_def split: if_splits)

text \<open>An extension that registers nothing keeps both invariants.\<close>

lemma extends_ok:
  assumes e: "extends d d'" and ok: "catalog_ok d" "rows_ok d"
    and s: "keys_ok d'" "schema_keys d \<subseteq> schema_keys d'" "registry_ok d'"
    and n: "\<And>s m. registered d' s \<Longrightarrow> m \<in> set (data d) \<Longrightarrow> table_name s = d_table m \<Longrightarrow>
              sc_version s = d_schema_version m \<Longrightarrow> registered d s"
  shows "catalog_ok d' \<and> rows_ok d'"
proof -
  have f: "ms_blobs d' = ms_blobs d" "ms_prepared d' = ms_prepared d" "ms_objects d' = ms_objects d"
    "ms_retired d' = ms_retired d" "ms_gc d' = ms_gc d" "data d' = data d"
    using e by (simp_all add: extends_def)
  have "prepared_of i d' = prepared_of i d" for i
    by (simp add: prepared_of_def f split: option.split)
  then have "blob_complete d' b = blob_complete d b" for b
    by (simp add: blob_complete_def data_row_of_def f)
  then have "catalog_ok d'"
    using ok(1) s extends_installed [OF e]
    by (auto simp: catalog_ok_def schema_refs_def blobs_ok_def gc_ok_def f)
  moreover have "row_shaped d' m" if "row_shaped d m" for m
    using that extends_map_of [OF e] by (fastforce simp: row_shaped_def table_def_Inr)
  then have "rows_typed d'"
    using ok(2) n unfolding rows_ok_def rows_typed_def f by blast
  ultimately show ?thesis
    using s by (simp add: rows_ok_def)
qed

lemma extends_same_schemas_ok:
  assumes e: "extends d d'" "ms_schemas d' = ms_schemas d" and ok: "catalog_ok d" "rows_ok d"
  shows "catalog_ok d' \<and> rows_ok d'"
proof (rule extends_ok [OF e(1) ok])
  show "keys_ok d'"
    using ok(1) e by (simp add: catalog_ok_def keys_ok_def extends_def)
  show "schema_keys d \<subseteq> schema_keys d'"
    by (simp add: schema_keys_def e)
  have "has_table d s \<Longrightarrow> has_table d' s" for s
    using extends_map_of [OF e(1)] by (auto simp: has_table_def)
  then show "registry_ok d'"
    using ok(2) unfolding rows_ok_def registry_ok_def e(2) by blast
  show "\<And>s m. registered d' s \<Longrightarrow> registered d s"
    by (simp add: registered_def e)
qed

lemma install_ok:
  assumes ins: "install s d = Inr d'" and w: "wf_declared s" and ok: "catalog_ok d" "rows_ok d"
  shows "catalog_ok d' \<and> rows_ok d'"
proof (cases "d' = d")
  case False
  have I: "installed d" and K: "keys_ok d" and B: "blobs_ok d" and S: "schema_refs d"
    using ok by (simp_all add: catalog_ok_def)
  define row where "row = \<lparr> sr_name = sc_name s, sr_version = sc_version s,
      sr_table = table_name s, sr_definition = schema_definition s \<rparr>"
  have e: "sc_version s = 1" "(sc_name s, sc_version s) \<notin> schema_keys d"
    "d' = d\<lparr> ms_schemas := ms_schemas d @ [row], objects := objects d @ schema_objects s \<rparr>"
    "lower_name ` set (schema_objects s) \<inter> lower_name ` set (objects d) = {}"
    "distinct (map lower_name (schema_objects s))"
    using install_effect [OF I ins] False unfolding row_def by blast+
  have ex: "extends d d'"
    by (simp add: extends_def e(3))
  have tab: "has_table d' s"
  proof -
    have "(table_name s, TableDef (sc_name s) [(1, table_cols s)] False) \<in> set (schema_objects s)"
      by (simp add: schema_objects_def Let_def)
    then have "map_of (objects d') (table_name s) = Some (TableDef (sc_name s) [(1, table_cols s)] False)"
      using map_of_fresh [OF e(4,5)] by (simp add: e(3))
    then show ?thesis unfolding has_table_def using e(1) by auto
  qed
  have old: "has_table d t \<Longrightarrow> has_table d' t" for t
    using extends_map_of [OF ex] by (auto simp: has_table_def)
  show ?thesis
  proof (rule extends_ok [OF ex ok])
    show "keys_ok d'"
      using K e(2) by (simp add: keys_ok_def e(3) row_def schema_keys_def)
    show "schema_keys d \<subseteq> schema_keys d'"
      by (auto simp: schema_keys_def e(3))
    show "registry_ok d'"
      unfolding registry_ok_def
    proof
      fix r assume "r \<in> set (ms_schemas d')"
      then consider "r \<in> set (ms_schemas d)" | "r = row"
        by (auto simp: e(3))
      then show "\<exists>s. wf_declared s \<and> sr_name r = sc_name s \<and> sr_version r = sc_version s \<and>
          sr_definition r = schema_definition s \<and> has_table d' s"
      proof cases
        case 1
        then show ?thesis
          using ok(2) old unfolding rows_ok_def registry_ok_def by blast
      next
        case 2
        then show ?thesis
          using w tab by (intro exI [of _ s]) (simp add: row_def)
      qed
    qed
    fix t m assume t: "registered d' t" "m \<in> set (data d)" "table_name t = d_table m" "sc_version t = d_schema_version m"
    obtain c where c: "c \<in> set (ms_blobs d)" "data_key m = (data_table_of (b_schema c), b_id c)" "d_schema_version m = b_version c"
      using data_row_version [OF B K t(2)] by blast
    have "(sc_name t, sc_version t) \<in> schema_keys d"
      using S c t by (auto simp: schema_refs_def data_key_def table_name_data)
    then have "(sc_name t, sc_version t) \<noteq> (sc_name s, sc_version s)"
      using e(2) by auto
    then show "registered d t"
      using t(1) by (auto simp: registered_def e(3) row_def)
  qed
qed (use ok in simp)

lemma store_install_schema_ok:
  assumes ins: "store_install_schema s d = Inr d'" and w: "wf_declared s" and ok: "catalog_ok d" "rows_ok d"
  shows "catalog_ok d' \<and> rows_ok d'"
proof -
  from ins obtain d1 d2 d3 d4 where s: "install s d = Inr d1" "payload_install s d1 = Inr d2"
    "install_encodings d2 = Inr d3" "install_lifecycle d3 = Inr d4" "lifecycle_schema s d4 = Inr d'"
    by (auto simp: store_install_schema_def)
  have 1: "catalog_ok d1 \<and> rows_ok d1"
    by (rule install_ok [OF s(1) w ok])
  then have "extends d1 d2" "ms_schemas d2 = ms_schemas d1"
    using payload_install_effect [OF _ s(2)] by (simp_all add: catalog_ok_def)
  with 1 have 2: "catalog_ok d2 \<and> rows_ok d2"
    using extends_same_schemas_ok by blast
  then have "d3 = d2" "d4 = d3"
    using installed_same(3) [OF _ s(3)] installed_same(4) [OF _ s(4)] by (simp_all add: catalog_ok_def)
  with 2 s(5) lifecycle_schema_effect show ?thesis
    using extends_same_schemas_ok by metis
qed

end
