(* ===== verification/Operations.thy ===== *)
theory Operations
  imports Installing
begin

text \<open>
  The calls of the library that a transaction is made of, as data, with the effect of each on the
  database, and the parts of the database that each call leaves alone.
\<close>

section \<open>Operations\<close>

datatype call =
    InstallSchema blob_schema
  | InstallLifecycle
  | Journal token_arg "blob_schema option"
  | Finalize token_arg "blob_schema option" pyval pyval
  | Publish string
  | CompleteImport string token_arg blob_schema pyval "(string \<times> pyval) list" int string
      "(string \<times> int \<times> json) option"
  | UpdateMetadata pyval "blob_schema option" pyval pyval
  | Delete pyval pyval
  | Discard token_arg
  | QueueOrphans "string \<Rightarrow> bool" "pyval list option"
  | MarkCleanup string string gc_state "string option"
  | References "app_ref list"

text \<open>An application changes its own rows: an immediate reference needs its blob.\<close>

definition set_references :: "app_ref list \<Rightarrow> db \<Rightarrow> db res" where
  "set_references rs d =
     ebind (checked (list_all (\<lambda>a. a_deferred a \<or> a_blob a \<in> b_id ` set (ms_blobs d)) rs) ''FOREIGN KEY'') (\<lambda>_.
     Inr (d\<lparr> app_refs := rs \<rparr>))"

definition drop_result :: "('r \<times> db) res \<Rightarrow> db res" where
  "drop_result m = (case m of Inl e \<Rightarrow> Inl e | Inr (r, d) \<Rightarrow> Inr d)"

lemma drop_result_Inr [simp]: "(drop_result m = Inr d) = (\<exists>r. m = Inr (r, d))"
  by (auto simp: drop_result_def split: sum.splits)

fun run_call :: "string \<Rightarrow> call \<Rightarrow> db \<Rightarrow> db res" where
  "run_call sid (InstallSchema s) d = store_install_schema s d"
| "run_call sid InstallLifecycle d = store_install_lifecycle d"
| "run_call sid (Journal arg schema) d = journal arg schema d"
| "run_call sid (Finalize arg schema metadata i) d = drop_result (finalize sid arg schema metadata i d)"
| "run_call sid (Publish i) d = drop_result (publish sid i d)"
| "run_call sid (CompleteImport i arg s metadata vals n dig enc) d =
     drop_result (complete_import sid i arg s metadata vals n dig enc d)"
| "run_call sid (UpdateMetadata i schema changes ver) d = drop_result (update_metadata i schema changes ver d)"
| "run_call sid (Delete i ver) d = drop_result (delete sid i ver d)"
| "run_call sid (Discard arg) d = drop_result (discard sid arg d)"
| "run_call sid (QueueOrphans linked keys) d = drop_result (queue_orphans linked sid keys d)"
| "run_call sid (MarkCleanup storage key st err) d = mark_gc storage key st err d"
| "run_call sid (References rs) d = set_references rs d"

text \<open>A transaction body: calls one after another.\<close>

fun run_calls :: "string \<Rightarrow> call list \<Rightarrow> db \<Rightarrow> db res" where
  "run_calls sid [] d = Inr d"
| "run_calls sid (c # cs) d = ebind (run_call sid c d) (run_calls sid cs)"

section \<open>Every operation keeps the invariant\<close>

definition consistent :: "db \<Rightarrow> bool" where
  "consistent d = (catalog_ok d \<and> rows_ok d)"

lemma consistentI: "catalog_ok d \<Longrightarrow> rows_ok d \<Longrightarrow> consistent d"
  by (simp add: consistent_def)

text \<open>Operations that leave objects, schemas and data rows alone.\<close>

lemma rows_ok_same:
  "rows_ok d \<Longrightarrow> objects d' = objects d \<Longrightarrow> ms_schemas d' = ms_schemas d \<Longrightarrow> set (data d') \<subseteq> set (data d) \<Longrightarrow> rows_ok d'"
  using rows_ok_cong by blast

lemma finalize_rows_ok:
  assumes ok: "consistent d" and f: "finalize sid arg schema metadata id' d = Inr (r, d')"
  shows "rows_ok d'"
  using f
proof (cases rule: finalize_effect)
  case (New i s vals p)
  have "registered d s" using check_schema_Inr [OF New(2)] by blast
  then show ?thesis
    using insert_rows_rows_ok [OF _ _ New(6) _ New(3)] ok by (simp add: consistent_def catalog_ok_def)
qed (use ok in \<open>simp add: consistent_def\<close>)

lemma update_ready_frame:
  "update_ready i d = Inr d' \<Longrightarrow> \<exists>bs. d' = d\<lparr> ms_blobs := bs \<rparr> \<and> map b_id bs = map b_id (ms_blobs d)"
proof -
  assume "update_ready i d = Inr d'"
  then have "d' = d \<or> d' = set_state i Ready d"
    by (auto simp: update_ready_def split: option.splits if_splits)
  then show ?thesis
  proof
    assume "d' = d"
    then show ?thesis by (intro exI [of _ "ms_blobs d"]) simp
  next
    assume "d' = set_state i Ready d"
    then show ?thesis by (auto simp: set_state_def)
  qed
qed

lemma publish_rows_ok:
  assumes ok: "consistent d" and p: "publish sid i d = Inr (r, d')"
  shows "rows_ok d'"
  using ok update_ready_frame [of i d d'] publish_effect [OF p] rows_ok_cong [of d' d] by (auto simp: consistent_def)

lemma update_metadata_rows_ok:
  assumes ok: "consistent d" and u: "update_metadata id' schema changes ver d = Inr (r, d')"
  shows "rows_ok d'"
  using u
proof (cases rule: update_metadata_effect)
  case (1 i s ver vals)
  have "registered d s" using check_schema_Inr [OF 1(2)] by blast
  then show ?thesis
    using update_data_rows_ok [OF _ _ 1(5) _ 1(4)] ok by (simp add: consistent_def catalog_ok_def)
qed

lemma delete_rows_ok:
  assumes ok: "consistent d" and del: "delete sid id' ver d = Inr (res, d')"
  shows "rows_ok d'"
  using del
proof (cases rule: delete_effect)
  case (New i r)
  have "d' = retired_db r d"
    using retire_rows_effect [OF New(3)] by blast
  then show ?thesis
    using ok rows_ok_cong [of d' d] by (auto simp: consistent_def retired_db_def)
qed (use ok in \<open>simp add: consistent_def\<close>)

lemma journal_frame:
  assumes "journal arg schema d = Inr d'"
  shows "\<exists>p es. physical arg = Some p \<and> d' = d\<lparr> ms_prepared := ms_prepared d @ [p], ms_encodings := es \<rparr> \<and>
    set (ms_encodings d) \<subseteq> set es"
proof -
  from assms obtain p d1 where p: "physical arg = Some p" and
    d1: "(case logical arg of None \<Rightarrow> Inr d | Some e \<Rightarrow> ebind (verify_encodings d) (\<lambda>_. insert_encoding e d)) = Inr d1" and
    i: "insert_prepared p d1 = Inr d'"
    unfolding journal_def ebind_eq_Inr expect_eq_Inr by blast
  have "\<exists>es. d1 = d\<lparr> ms_encodings := es \<rparr> \<and> set (ms_encodings d) \<subseteq> set es"
  proof (cases "logical arg")
    case None
    with d1 show ?thesis by (intro exI [of _ "ms_encodings d"]) simp
  next
    case (Some e)
    then have "insert_encoding e d = Inr d1" using d1 by auto
    then show ?thesis using insert_encoding_effect [of e d d1] by auto
  qed
  with p insert_prepared_effect [OF i] show ?thesis by auto
qed

lemma queue_keys_frame:
  "queue_keys sid ks d = Inr d' \<Longrightarrow> \<exists>gs. d' = d\<lparr> ms_gc := ms_gc d @ gs \<rparr>"
proof (induction ks arbitrary: d)
  case Nil
  then show ?case by (intro exI [of _ "[]"]) simp
next
  case (Cons k ks)
  then obtain d1 where d1: "insert_or_ignore_gc (orphan_gc sid k) d = Inr d1" "queue_keys sid ks d1 = Inr d'" by auto
  obtain gs where "d1 = d\<lparr> ms_gc := ms_gc d @ gs \<rparr>"
    using insert_or_ignore_gc_effect [OF d1(1)] by (metis append_Nil2 db.surjective db.update_convs(11))
  with Cons.IH [OF d1(2)] show ?case by auto
qed

lemma discard_frame:
  assumes "discard sid arg d = Inr (g, d')" shows "\<exists>gs. d' = d\<lparr> ms_gc := ms_gc d @ gs \<rparr>"
proof -
  from assms obtain p where "insert_or_ignore_gc (discarded_gc p) d = Inr d'"
    by (auto simp: discard_def)
  from insert_or_ignore_gc_effect [OF this] show ?thesis
    by (metis append_Nil2 db.surjective db.update_convs(11))
qed

lemma mark_gc_frame:
  "mark_gc sid key st err d = Inr d' \<Longrightarrow> \<exists>gs. d' = d\<lparr> ms_gc := gs \<rparr> \<and> map gc_key gs = map gc_key (ms_gc d)"
  by (auto simp: mark_gc_def gc_key_def intro!: exI)

end
