(* ===== verification/NewCatalog.thy ===== *)
theory NewCatalog
  imports Operations
begin

text \<open>
  The first installation of a schema in a database without catalog establishes the invariant.
\<close>

section \<open>A new catalog\<close>

definition fresh_db :: "db \<Rightarrow> bool" where
  "fresh_db d =
     (\<not> list_ex (\<lambda>x. starts_with ''ms_'' (ascii_lower (fst x))) (objects d) \<and>
      d = empty_db\<lparr> objects := objects d, app_refs := app_refs d \<rparr>)"

lemma empty_db_simps [simp]:
  "objects empty_db = []" "formats empty_db = []" "ms_schemas empty_db = []" "ms_blobs empty_db = []"
  "ms_payload_schemas empty_db = []" "ms_prepared empty_db = []" "ms_objects empty_db = []"
  "ms_encodings empty_db = []" "ms_lifecycle_schemas empty_db = []" "ms_retired empty_db = []"
  "ms_gc empty_db = []" "ms_metadata_layouts empty_db = []" "ms_migrations empty_db = []" "data empty_db = []"
  by (simp_all add: empty_db_def)

lemma fresh_no_object:
  assumes "fresh_db d" "starts_with ''ms_'' (ascii_lower n)" shows "\<not> has_object d n"
  using assms by (auto simp: fresh_db_def has_object_def list_ex_iff)

lemma fresh_no_own:
  assumes "fresh_db d"
  shows "n \<in> set (core_names @ payload_names @ encoding_names @ lifecycle_names @ migration_names) \<Longrightarrow> \<not> has_object d n"
proof -
  have "\<forall>n \<in> set (core_names @ payload_names @ encoding_names @ lifecycle_names @ migration_names).
      starts_with ''ms_'' (ascii_lower n)"
    unfolding core_names_def payload_names_def encoding_names_def lifecycle_names_def migration_names_def
    by code_simp
  then show "n \<in> set (core_names @ payload_names @ encoding_names @ lifecycle_names @ migration_names) \<Longrightarrow> \<not> has_object d n"
    using fresh_no_object [OF assms] by blast
qed

lemma create_own:
  assumes "create_all (own ns) d = Inr d'"
  shows "d' = d\<lparr> objects := objects d @ own ns \<rparr>" "own_installed ns d'"
proof -
  note e = create_all_effect [OF assms]
  then show "d' = d\<lparr> objects := objects d @ own ns \<rparr>" by blast
  have "map_of (objects d @ own ns) n = Some (Own n)" if "n \<in> set ns" for n
    by (rule map_of_fresh) (use e that in \<open>auto simp: own_def\<close>)
  then show "own_installed ns d'"
    using e by (simp add: own_installed_def list_all_iff trigger_def)
qed

lemma own_installed_grows:
  assumes "own_installed ns d" "objects d' = objects d @ xs" shows "own_installed ns d'"
  using assms by (simp add: own_installed_def list_all_iff trigger_def map_of_append)

lemma has_object_append: "objects d' = objects d @ xs \<Longrightarrow> has_object d' n = (has_object d n \<or> n \<in> fst ` set xs)"
  by (auto simp: has_object_def)

lemma own_names [simp]: "fst ` set (own ns) = set ns"
  by (force simp: own_def image_iff)

lemma format_names:
  "''ms_payload_format'' \<in> set payload_names" "''ms_encoding_format'' \<in> set encoding_names"
  "''ms_lifecycle_format'' \<in> set lifecycle_names" "''ms_format'' \<in> set core_names"
  by (simp_all add: core_names_def payload_names_def encoding_names_def lifecycle_names_def)

lemma format_apart:
  "''ms_payload_format'' \<notin> set core_names" "''ms_encoding_format'' \<notin> set core_names"
  "''ms_lifecycle_format'' \<notin> set core_names" "''ms_encoding_format'' \<notin> set payload_names"
  "''ms_lifecycle_format'' \<notin> set payload_names" "''ms_lifecycle_format'' \<notin> set encoding_names"
  by (simp_all add: core_names_def payload_names_def encoding_names_def)

text \<open>The names of a schema carry an underscored prefix that no format table has.\<close>

lemma schema_object_names:
  "n \<in> fst ` set (schema_objects s) \<Longrightarrow> starts_with ''ms_data_'' n"
  "starts_with ''ms_data_'' (fst (ready_guard s ev))" "starts_with ''ms_data_'' (fst (retire_guard m))"
  by (auto simp: schema_objects_def Let_def ready_guard_def retire_guard_def table_name_data data_table_of_def starts_with_def)

lemma format_not_data:
  "\<not> starts_with ''ms_data_'' ''ms_payload_format''" "\<not> starts_with ''ms_data_'' ''ms_encoding_format''"
  "\<not> starts_with ''ms_data_'' ''ms_lifecycle_format''"
  by (simp_all add: starts_with_def)

text \<open>What each installation step does on a catalog that lacks its extension.\<close>

lemma install_fresh:
  assumes f: "fresh_db d" and ins: "install s d = Inr d'"
  shows "objects d' = objects d @ own core_names @ schema_objects s \<and> own_installed core_names d' \<and>
    has_table d' s \<and> sc_version s = 1 \<and>
    d' = empty_db\<lparr> objects := objects d', app_refs := app_refs d, formats := [(''ms_format'', 1)],
           ms_schemas := [\<lparr> sr_name = sc_name s, sr_version = sc_version s, sr_table = table_name s,
             sr_definition = schema_definition s \<rparr>] \<rparr>"
proof -
  have no: "\<not> has_object d ''ms_format''"
    by (rule fresh_no_own [OF f]) (simp add: core_names_def)
  obtain os rs where d: "d = empty_db\<lparr> objects := os, app_refs := rs \<rparr>"
    using f unfolding fresh_db_def by blast
  from ins obtain d1 where d1: "install_core d = Inr d1" and
    r: "(case lookup_schema d1 (sc_name s) (sc_version s) of
       r # rs \<Rightarrow>
         ebind (require (map (\<lambda>r. (sr_definition r, sr_table r)) (r # rs) = [(schema_definition s, table_name s)])
                  SchemaConflictError ''Schema name/version already has a different definition'') (\<lambda>_.
         ebind (if evolved d1 (sc_name s) then verify_layout d1 (sc_name s)
                else verify_objects (schema_objects s) d) (\<lambda>_. Inr d1))
     | [] \<Rightarrow>
         ebind (require (sc_version s = 1) SchemaConflictError
                  ''Use an explicit MetadataMigration to install a new version'') (\<lambda>_.
         ebind (require (\<not> list_ex (\<lambda>x. has_object d (fst x)) (schema_objects s)) SchemaConflictError
                  ''Schema SQL names already exist'') (\<lambda>_.
         ebind (insert_schema s d1) (create_all (schema_objects s))))) = Inr d'"
    unfolding install_def ebind_eq_Inr by blast
  obtain d0 where d0: "create_all (own core_names) d = Inr d0" "insert_format ''ms_format'' d0 = Inr d1"
    using d1 no by (auto simp: install_core_def)
  note c = create_own [OF d0(1)]
  have e0: "ms_schemas d0 = []" "formats d0 = []" "d0 = empty_db\<lparr> objects := objects d @ own core_names, app_refs := app_refs d \<rparr>"
    unfolding c(1) d by (simp_all add: empty_db_def)
  have e1: "d1 = d0\<lparr> formats := [(''ms_format'', 1)] \<rparr>"
    using d0(2) e0 by (auto simp: insert_format_def)
  have "lookup_schema d1 (sc_name s) (sc_version s) = []"
    by (simp add: lookup_schema_def e1 e0)
  with r obtain d2 where d2: "sc_version s = 1" "insert_schema s d1 = Inr d2" "create_all (schema_objects s) d2 = Inr d'"
    by auto
  have e2: "d2 = d1\<lparr> ms_schemas := [\<lparr> sr_name = sc_name s, sr_version = sc_version s, sr_table = table_name s,
             sr_definition = schema_definition s \<rparr>] \<rparr>"
    using insert_schema_effect [OF d2(2)] by (simp add: e1 e0)
  note e3 = create_all_effect [OF d2(3)]
  have objs: "objects d2 = objects d @ own core_names"
    by (simp add: e2 e1 e0(3))
  have "(table_name s, TableDef (sc_name s) [(1, table_cols s)] False) \<in> set (schema_objects s)"
    by (simp add: schema_objects_def Let_def)
  then have "map_of (objects d') (table_name s) = Some (TableDef (sc_name s) [(1, table_cols s)] False)"
    using map_of_fresh [of "schema_objects s" "objects d2"] e3 by simp
  then have "has_table d' s"
    unfolding has_table_def using d2(1) by auto
  moreover have "own_installed core_names d'"
    by (rule own_installed_grows [OF c(2), of _ "schema_objects s"]) (use e3 objs c(1) in simp)
  ultimately show ?thesis
    using e3 objs d2(1) by (simp add: e2 e1 e0(3))
qed

lemma payload_install_fresh:
  assumes no: "\<not> has_object d ''ms_payload_format''" "ms_payload_schemas d = []" and ins: "payload_install s d = Inr d'"
  shows "own_installed payload_names d' \<and>
    d' = d\<lparr> objects := objects d @ own payload_names @ [ready_guard s (evolved d (sc_name s))],
            formats := formats d @ [(''ms_payload_format'', 1)], ms_payload_schemas := [(sc_name s, sc_version s)] \<rparr>"
proof -
  from no(1) ins obtain d0 d1 where d0: "create_all (own payload_names) d = Inr d0" "insert_format ''ms_payload_format'' d0 = Inr d1"
    and p: "payload_format d = Inr d1"
    by (auto simp: payload_install_def payload_format_def)
  note c = create_own [OF d0(1)]
  have e1: "d1 = d0\<lparr> formats := formats d @ [(''ms_payload_format'', 1)] \<rparr>"
    using d0(2) c(1) by (auto simp: insert_format_def)
  have "\<not> has_object (d\<lparr> objects := objects d @ own payload_names, formats := fs \<rparr>) n = (\<not> has_object d n \<and> n \<notin> set payload_names)" for n fs
    by (simp add: has_object_def image_Un)
  then have ev: "evolved d1 (sc_name s) = evolved d (sc_name s)"
    by (simp add: evolved_def e1 c(1) payload_names_def)
  have "ms_payload_schemas d1 = []"
    by (simp add: e1 c(1) no(2))
  with ins p obtain d3 where d3: "create (ready_guard s (evolved d1 (sc_name s))) d1 = Inr d3"
      "d' = d3\<lparr> ms_payload_schemas := ms_payload_schemas d3 @ [(sc_name s, sc_version s)] \<rparr>"
    by (auto simp: payload_install_def Let_def)
  then have "d' = d1\<lparr> objects := objects d1 @ [ready_guard s (evolved d (sc_name s))], ms_payload_schemas := [(sc_name s, sc_version s)] \<rparr>"
    using \<open>ms_payload_schemas d1 = []\<close> by (auto simp: create_def ev)
  moreover have "own_installed payload_names d'"
    by (rule own_installed_grows [OF c(2), of _ "[ready_guard s (evolved d (sc_name s))]"]) (simp add: calculation e1)
  ultimately show ?thesis
    by (simp add: e1 c(1))
qed

lemma install_encodings_fresh:
  assumes no: "\<not> has_object d ''ms_encoding_format''" and ins: "install_encodings d = Inr d'"
  shows "own_installed encoding_names d' \<and>
    d' = d\<lparr> objects := objects d @ own encoding_names, formats := formats d @ [(''ms_encoding_format'', 1)] \<rparr>"
proof -
  from no ins obtain d0 where d0: "create_all (own encoding_names) d = Inr d0" "insert_format ''ms_encoding_format'' d0 = Inr d'"
    by (auto simp: install_encodings_def)
  note c = create_own [OF d0(1)]
  have "d' = d0\<lparr> formats := formats d @ [(''ms_encoding_format'', 1)] \<rparr>"
    using d0(2) c(1) by (auto simp: insert_format_def)
  with c show ?thesis
    by (simp add: own_installed_def list_all_iff trigger_def)
qed

lemma install_lifecycle_fresh:
  assumes no: "\<not> has_object d ''ms_lifecycle_format''" and ins: "install_lifecycle d = Inr d'"
  shows "own_installed lifecycle_names d' \<and>
    d' = d\<lparr> objects := objects d @ own lifecycle_names, formats := formats d @ [(''ms_lifecycle_format'', 1)] \<rparr>"
proof -
  from no ins obtain d0 where d0: "create_all (own lifecycle_names) d = Inr d0" "insert_format ''ms_lifecycle_format'' d0 = Inr d'"
    by (auto simp: install_lifecycle_def)
  note c = create_own [OF d0(1)]
  have "d' = d0\<lparr> formats := formats d @ [(''ms_lifecycle_format'', 1)] \<rparr>"
    using d0(2) c(1) by (auto simp: insert_format_def)
  with c show ?thesis
    by (simp add: own_installed_def list_all_iff trigger_def)
qed

lemma own_installed_append [simp]: "own_installed (ns @ ms) d = (own_installed ns d \<and> own_installed ms d)"
  by (simp add: own_installed_def)

lemma not_has_appended:
  assumes "objects d = objects d0 @ xs" "\<not> has_object d0 n" "n \<notin> fst ` set xs" shows "\<not> has_object d n"
  using assms by (auto simp: has_object_def)

lemma create_guard: "create (retire_guard n) d = Inr d' \<Longrightarrow> map_of (objects d') (fst (retire_guard n)) = Some (snd (retire_guard n))"
proof -
  assume c: "create (retire_guard n) d = Inr d'"
  have e: "d' = d\<lparr> objects := objects d @ [retire_guard n] \<rparr>" "lower_name (retire_guard n) \<notin> lower_name ` set (objects d)"
    using c by (auto simp: create_def lower_name_def)
  have "map_of (objects d @ [retire_guard n]) (fst (retire_guard n)) = Some (snd (retire_guard n))"
    by (rule map_of_fresh) (use e(2) in auto)
  with e(1) show ?thesis by simp
qed

text \<open>The five layers of a first installation, one on the other.\<close>

lemma installed_layers:
  assumes f: "fresh_db d" and ins: "store_install_schema s d = Inr d'"
  obtains d1 os d4 d6 where "has_table d1 s"
    "d1 = empty_db\<lparr> objects := os, app_refs := app_refs d, formats := [(''ms_format'', 1)],
           ms_schemas := [\<lparr> sr_name = sc_name s, sr_version = sc_version s, sr_table = table_name s,
             sr_definition = schema_definition s \<rparr>] \<rparr>"
    "own_installed (core_names @ payload_names @ encoding_names @ lifecycle_names) d'"
    "\<And>n x. map_of (objects d1) n = Some x \<Longrightarrow> map_of (objects d') n = Some x"
    "d' = d1\<lparr> objects := objects d', formats := [(''ms_format'', 1), (''ms_payload_format'', 1), (''ms_encoding_format'', 1),
        (''ms_lifecycle_format'', 1)], ms_payload_schemas := [(sc_name s, sc_version s)], ms_lifecycle_schemas := [sc_name s] \<rparr>"
    "create (retire_guard (sc_name s)) d4 = Inr d6" "objects d' = objects d6"
proof -
  from ins obtain d1 d2 d3 d4 where s: "install s d = Inr d1" "payload_install s d1 = Inr d2"
    "install_encodings d2 = Inr d3" "install_lifecycle d3 = Inr d4" "lifecycle_schema s d4 = Inr d'"
    by (auto simp: store_install_schema_def)
  have no: "\<not> has_object d n" if "n \<in> set [''ms_payload_format'', ''ms_encoding_format'', ''ms_lifecycle_format'']" for n
    by (rule fresh_no_own [OF f]) (use that in \<open>auto simp: payload_names_def encoding_names_def lifecycle_names_def\<close>)
  note i = install_fresh [OF f s(1)]
  have o1: "objects d1 = objects d @ own core_names @ schema_objects s" and c1: "own_installed core_names d1"
    and t1: "has_table d1 s"
    and v1: "sc_version s = 1" using i by blast+
  obtain os where d1: "d1 = empty_db\<lparr> objects := os, app_refs := app_refs d, formats := [(''ms_format'', 1)],
           ms_schemas := [\<lparr> sr_name = sc_name s, sr_version = sc_version s, sr_table = table_name s,
             sr_definition = schema_definition s \<rparr>] \<rparr>"
    using i by blast
  have n1: "\<not> has_object d1 n" if "n \<in> set [''ms_payload_format'', ''ms_encoding_format'', ''ms_lifecycle_format'']" for n
  proof (rule not_has_appended [OF o1 no [OF that]])
    have "n \<notin> fst ` set (schema_objects s)"
      using that format_not_data schema_object_names(1) [of n s] by (simp, metis)
    moreover have "n \<notin> set core_names"
      using that format_apart by auto
    ultimately show "n \<notin> fst ` set (own core_names @ schema_objects s)"
      by (simp add: image_Un)
  qed
  have "ms_payload_schemas d1 = []" by (simp add: d1)
  then have i2: "own_installed payload_names d2 \<and>
    d2 = d1\<lparr> objects := objects d1 @ own payload_names @ [ready_guard s (evolved d1 (sc_name s))],
            formats := formats d1 @ [(''ms_payload_format'', 1)], ms_payload_schemas := [(sc_name s, sc_version s)] \<rparr>"
    by (intro payload_install_fresh [OF n1 _ s(2)]) simp_all
  have d2: "d2 = d1\<lparr> objects := objects d1 @ own payload_names @ [ready_guard s (evolved d1 (sc_name s))],
            formats := formats d1 @ [(''ms_payload_format'', 1)], ms_payload_schemas := [(sc_name s, sc_version s)] \<rparr>"
    and c2: "own_installed payload_names d2"
    using i2 by blast+
  have n2: "\<not> has_object d2 n" if "n \<in> set [''ms_encoding_format'', ''ms_lifecycle_format'']" for n
  proof (rule not_has_appended [of _ d1 "own payload_names @ [ready_guard s (evolved d1 (sc_name s))]"])
    have "n \<noteq> fst (ready_guard s (evolved d1 (sc_name s)))"
      using that format_not_data schema_object_names(2) [of s "evolved d1 (sc_name s)"] by auto
    moreover have "n \<notin> set payload_names"
      using that format_apart by auto
    ultimately show "n \<notin> fst ` set (own payload_names @ [ready_guard s (evolved d1 (sc_name s))])"
      by (simp add: image_Un)
  qed (use that n1 in \<open>simp_all add: d2\<close>)
  have i3: "own_installed encoding_names d3 \<and>
    d3 = d2\<lparr> objects := objects d2 @ own encoding_names, formats := formats d2 @ [(''ms_encoding_format'', 1)] \<rparr>"
    by (intro install_encodings_fresh [OF n2 s(3)]) simp
  have n3: "\<not> has_object d3 ''ms_lifecycle_format''"
    by (rule not_has_appended [of _ d2 "own encoding_names"]) (use i3 n2 format_apart in simp_all)
  note i4 = install_lifecycle_fresh [OF n3 s(4)]
  have d5: "d' = d4\<lparr> objects := objects d4 @ [retire_guard (sc_name s)], ms_lifecycle_schemas := [sc_name s] \<rparr>"
    using s(5) i4 i3 by (auto simp: lifecycle_schema_def Let_def create_def d2 d1)
  have grow: "objects d2 = objects d1 @ own payload_names @ [ready_guard s (evolved d1 (sc_name s))]"
    "objects d3 = objects d2 @ own encoding_names" "objects d4 = objects d3 @ own lifecycle_names"
    "objects d' = objects d4 @ [retire_guard (sc_name s)]"
    using i3 i4 d2 d5 by simp_all
  note keep = own_installed_grows
  have "own_installed (core_names @ payload_names @ encoding_names @ lifecycle_names) d'"
    using keep [OF keep [OF keep [OF keep [OF c1 grow(1)] grow(2)] grow(3)] grow(4)]
      keep [OF keep [OF keep [OF c2 grow(2)] grow(3)] grow(4)]
      keep [OF keep [OF conjunct1 [OF i3] grow(3)] grow(4)] keep [OF conjunct1 [OF i4] grow(4)] by simp
  moreover have "map_of (objects d1) n = Some x \<Longrightarrow> map_of (objects d') n = Some x" for n x
    unfolding grow by (simp add: map_of_append)
  moreover have "d' = d1\<lparr> objects := objects d', formats := [(''ms_format'', 1), (''ms_payload_format'', 1), (''ms_encoding_format'', 1),
        (''ms_lifecycle_format'', 1)], ms_payload_schemas := [(sc_name s, sc_version s)], ms_lifecycle_schemas := [sc_name s] \<rparr>"
    using i3 i4 by (simp add: d5 d2 d1)
  moreover obtain d6 where "create (retire_guard (sc_name s)) d4 = Inr d6" "objects d' = objects d6"
    using s(5) i4 i3 by (auto simp: lifecycle_schema_def Let_def create_def d2 d1)
  ultimately show ?thesis using that t1 d1 by blast
qed

lemma store_install_schema_fresh:
  assumes f: "fresh_db d" and ins: "store_install_schema s d = Inr d'" and w: "wf_declared s"
  shows "consistent d' \<and> ms_prepared d' = [] \<and> ms_blobs d' = [] \<and> ms_gc d' = [] \<and> ms_retired d' = [] \<and>
    app_refs d' = app_refs d \<and> ms_payload_schemas d' = [(sc_name s, sc_version s)] \<and>
    (sc_name s, sc_version s) \<in> schema_keys d' \<and> ms_lifecycle_schemas d' = [sc_name s] \<and>
    map_of (objects d') (fst (retire_guard (sc_name s))) = Some (snd (retire_guard (sc_name s)))"
  using f ins
proof (rule installed_layers)
  fix d1 d4 d6 os
  assume d1: "has_table d1 s" "d1 = empty_db\<lparr> objects := os, app_refs := app_refs d, formats := [(''ms_format'', 1)],
           ms_schemas := [\<lparr> sr_name = sc_name s, sr_version = sc_version s, sr_table = table_name s,
             sr_definition = schema_definition s \<rparr>] \<rparr>"
    and own: "own_installed (core_names @ payload_names @ encoding_names @ lifecycle_names) d'"
    and grow: "\<And>n x. map_of (objects d1) n = Some x \<Longrightarrow> map_of (objects d') n = Some x"
    and d': "d' = d1\<lparr> objects := objects d', formats := [(''ms_format'', 1), (''ms_payload_format'', 1), (''ms_encoding_format'', 1),
        (''ms_lifecycle_format'', 1)], ms_payload_schemas := [(sc_name s, sc_version s)], ms_lifecycle_schemas := [sc_name s] \<rparr>"
    and guard: "create (retire_guard (sc_name s)) d4 = Inr d6" "objects d' = objects d6"
  have empty: "ms_blobs d' = []" "ms_prepared d' = []" "ms_objects d' = []" "ms_retired d' = []" "ms_gc d' = []"
    "data d' = []" "ms_encodings d' = []" "app_refs d' = app_refs d" "ms_payload_schemas d' = [(sc_name s, sc_version s)]"
    "ms_lifecycle_schemas d' = [sc_name s]"
    "formats d' = [(''ms_format'', 1), (''ms_payload_format'', 1), (''ms_encoding_format'', 1), (''ms_lifecycle_format'', 1)]"
    "ms_schemas d' = [\<lparr> sr_name = sc_name s, sr_version = sc_version s, sr_table = table_name s,
             sr_definition = schema_definition s \<rparr>]"
    by (subst d', simp add: d1(2))+
  have "has_table d' s" using d1(1) grow unfolding has_table_def by blast
  then have "rows_ok d'" using w by (auto simp: rows_ok_def registry_ok_def rows_typed_def empty)
  moreover have "catalog_ok d'"
    using own by (simp add: catalog_ok_def installed_def keys_ok_def schema_refs_def blobs_ok_def gc_ok_def empty)
  moreover have "map_of (objects d') (fst (retire_guard (sc_name s))) = Some (snd (retire_guard (sc_name s)))"
    using create_guard [OF guard(1)] guard(2) by metis
  ultimately show ?thesis by (simp add: consistentI empty schema_keys_def)
qed

end
