(* ===== verification/Progress.thy ===== *)
theory Progress
  imports NewCatalog
begin

text \<open>
  Every call keeps the invariant of the catalog, and no call forgets a journaled object, a cleanup
  intent or a retirement, or takes an object from a blob that is not retired.
\<close>

section \<open>Calls keep the catalog consistent\<close>

definition call_typed :: "call \<Rightarrow> bool" where
  "call_typed c = (case c of InstallSchema s \<Rightarrow> wf_declared s | _ \<Rightarrow> True)"

lemma lifecycle_schemas_ok:
  "consistent d \<Longrightarrow> lifecycle_schemas rows d = Inr d' \<Longrightarrow>
     consistent d' \<and> extends d d' \<and> ms_schemas d' = ms_schemas d \<and> app_refs d' = app_refs d"
proof (induction rows arbitrary: d)
  case (Cons r rows)
  then obtain s d1 where d1: "lifecycle_schema s d = Inr d1" "lifecycle_schemas rows d1 = Inr d'" by auto
  note e = lifecycle_schema_effect [OF d1(1)]
  then have "consistent d1"
    using extends_same_schemas_ok [of d d1] Cons.prems(1) by (simp add: consistent_def)
  from Cons.IH [OF this d1(2)] e show ?case
    using extends_trans by metis
qed simp

lemma install_lifecycle_effect:
  assumes ok: "consistent d" and i: "store_install_lifecycle d = Inr d'"
  shows "consistent d' \<and> extends d d' \<and> ms_schemas d' = ms_schemas d \<and> app_refs d' = app_refs d"
proof -
  from i obtain d1 rows where d1: "install_lifecycle d = Inr d1" "lifecycle_schemas rows d1 = Inr d'"
    by (auto simp: store_install_lifecycle_def)
  have "d1 = d"
    using installed_same(4) [OF _ d1(1)] ok by (simp add: consistent_def catalog_ok_def)
  with d1(2) ok lifecycle_schemas_ok show ?thesis by blast
qed

lemma references_ok:
  assumes ok: "consistent d" and s: "set_references rs d = Inr d'"
  shows "consistent d'"
proof -
  have d': "d' = d\<lparr> app_refs := rs \<rparr>" using s by (auto simp: set_references_def)
  have "installed d' = installed d" by (rule installed_cong) (simp_all add: d')
  moreover have "prepared_of i d' = prepared_of i d" for i
    by (simp add: prepared_of_def d' split: option.split)
  then have "blob_complete d' b = blob_complete d b" for b
    by (simp add: blob_complete_def data_row_of_def d')
  moreover have "rows_ok d'"
    by (rule rows_ok_cong [of d' d]) (use ok in \<open>simp_all add: d' consistent_def\<close>)
  ultimately show ?thesis
    using ok by (simp add: consistent_def catalog_ok_def keys_ok_def schema_refs_def schema_keys_def blobs_ok_def gc_ok_def d')
qed

lemma complete_import_consistent:
  assumes ok: "consistent d" and c: "complete_import sid i arg s metadata vals n dig enc d = Inr (r, d')"
  shows "consistent d'"
  using c
proof (cases rule: complete_import_effect)
  case (New r1 d1)
  have "consistent d1"
    using finalize_ok [OF _ New(2)] finalize_rows_ok [OF ok New(2)] ok by (simp add: consistent_def)
  then show ?thesis
    using publish_ok [OF _ New(3)] publish_rows_ok [OF _ New(3)] by (simp add: consistent_def)
qed (use ok in simp)

lemma queue_orphans_frame:
  assumes "queue_orphans linked sid keys d = Inr (ks, d')" shows "\<exists>gs. d' = d\<lparr> ms_gc := ms_gc d @ gs \<rparr>"
proof -
  have "queue_keys sid ks d = Inr d'" using assms by (auto simp: queue_orphans_def)
  then show ?thesis by (rule queue_keys_frame)
qed

lemma run_call_consistent:
  assumes ok: "consistent d" and c: "call_typed c" and r: "run_call sid c d = Inr d'"
  shows "consistent d'"
proof (cases c)
  case (InstallSchema s)
  then show ?thesis
    using r c ok store_install_schema_ok [of s d d'] unfolding call_typed_def consistent_def by simp
next
  case InstallLifecycle
  then show ?thesis using r install_lifecycle_effect [OF ok, of d'] by simp
next
  case (Journal arg schema)
  then have j: "journal arg schema d = Inr d'" using r by simp
  have "rows_ok d'"
    using journal_frame [OF j] ok rows_ok_cong [of d' d] by (auto simp: consistent_def)
  then show ?thesis using journal_ok [OF _ j] ok by (simp add: consistent_def)
next
  case (Finalize arg schema metadata i)
  then obtain x where f: "finalize sid arg schema metadata i d = Inr (x, d')" using r by auto
  show ?thesis using finalize_ok [OF _ f] finalize_rows_ok [OF ok f] ok by (simp add: consistent_def)
next
  case (Publish i)
  then obtain x where f: "publish sid i d = Inr (x, d')" using r by auto
  show ?thesis using publish_ok [OF _ f] publish_rows_ok [OF ok f] ok by (simp add: consistent_def)
next
  case (CompleteImport i arg s metadata vals n dig enc)
  then show ?thesis using r complete_import_consistent [OF ok] by auto
next
  case (UpdateMetadata i schema changes ver)
  then obtain x where f: "update_metadata i schema changes ver d = Inr (x, d')" using r by auto
  show ?thesis using update_metadata_ok [OF _ f] update_metadata_rows_ok [OF ok f] ok by (simp add: consistent_def)
next
  case (Delete i ver)
  then obtain x where f: "delete sid i ver d = Inr (x, d')" using r by auto
  show ?thesis using delete_ok [OF _ f] delete_rows_ok [OF ok f] ok by (simp add: consistent_def)
next
  case (Discard arg)
  then obtain x where f: "discard sid arg d = Inr (x, d')" using r by auto
  show ?thesis using discard_ok [OF _ f] discard_frame [OF f] rows_ok_cong [of d' d] ok by (auto simp: consistent_def)
next
  case (QueueOrphans linked keys)
  then obtain ks where f: "queue_orphans linked sid keys d = Inr (ks, d')" using r by auto
  obtain gs where "d' = d\<lparr> ms_gc := ms_gc d @ gs \<rparr>"
    using queue_orphans_frame [OF f] by blast
  then show ?thesis using queue_orphans_ok [OF _ f] rows_ok_cong [of d' d] ok by (auto simp: consistent_def)
next
  case (MarkCleanup storage key st err)
  then have f: "mark_gc storage key st err d = Inr d'" using r by simp
  show ?thesis using mark_gc_ok [OF _ f] mark_gc_frame [OF f] rows_ok_cong [of d' d] ok by (auto simp: consistent_def)
next
  case (References rs)
  then show ?thesis using r references_ok [OF ok] by simp
qed

section \<open>What is never lost\<close>

text \<open>
  Journaled objects, their encodings, cleanup intents and retirements stay; an object row stays
  until its blob is retired.
\<close>

definition advances :: "db \<Rightarrow> db \<Rightarrow> bool" where
  "advances d d' =
     (set (ms_prepared d) \<subseteq> set (ms_prepared d') \<and> gc_key ` set (ms_gc d) \<subseteq> gc_key ` set (ms_gc d') \<and>
      set (ms_retired d) \<subseteq> set (ms_retired d') \<and>
      (\<forall>p \<in> set (ms_prepared d).
         row_with e_token (p_token p) (ms_encodings d') = row_with e_token (p_token p) (ms_encodings d)) \<and>
      (\<forall>ob \<in> set (ms_objects d). ob \<in> set (ms_objects d') \<or> o_blob ob \<in> t_blob ` set (ms_retired d')))"

lemma advances_refl [simp]: "advances d d"
  by (simp add: advances_def)

lemma advances_trans: "advances d d' \<Longrightarrow> advances d' d'' \<Longrightarrow> advances d d''"
proof -
  assume a: "advances d d'" "advances d' d''"
  have "row_with e_token (p_token p) (ms_encodings d'') = row_with e_token (p_token p) (ms_encodings d)"
    if "p \<in> set (ms_prepared d)" for p
    using a that unfolding advances_def by (metis subsetD)
  moreover have "ob \<in> set (ms_objects d'') \<or> o_blob ob \<in> t_blob ` set (ms_retired d'')" if "ob \<in> set (ms_objects d)" for ob
    using a that unfolding advances_def by (meson image_mono subsetD)
  ultimately show ?thesis
    using a unfolding advances_def by (meson order_trans)
qed

lemma advancesI:
  assumes "set (ms_prepared d) \<subseteq> set (ms_prepared d')" "gc_key ` set (ms_gc d) \<subseteq> gc_key ` set (ms_gc d')"
    "ms_retired d' = ms_retired d" "ms_encodings d' = ms_encodings d" "set (ms_objects d) \<subseteq> set (ms_objects d')"
  shows "advances d d'"
  using assms by (auto simp: advances_def)

lemma journal_advances:
  assumes ok: "consistent d" and j: "journal arg schema d = Inr d'"
  shows "advances d d'"
proof -
  from j obtain p d1 where
    d1: "(case logical arg of None \<Rightarrow> Inr d | Some e \<Rightarrow> ebind (verify_encodings d) (\<lambda>_. insert_encoding e d)) = Inr d1" and
    i: "insert_prepared p d1 = Inr d'"
    unfolding journal_def ebind_eq_Inr expect_eq_Inr by blast
  have t: "trigger d ''ms_encoding_insert''"
    using installed_trigger(1) [of d "''ms_encoding_insert''"] ok
    by (simp add: consistent_def catalog_ok_def encoding_names_def)
  have "advances d d1 \<and> ms_prepared d1 = ms_prepared d"
  proof (cases "logical arg")
    case (Some e)
    then have ins: "insert_encoding e d = Inr d1" using d1 by auto
    then have "e_token e \<notin> p_token ` set (ms_prepared d)"
      using t by (auto simp: insert_encoding_def)
    then have "row_with e_token (p_token p) (ms_encodings d @ [e]) = row_with e_token (p_token p) (ms_encodings d)"
      if "p \<in> set (ms_prepared d)" for p
      using that by (auto simp: row_with_append split: option.split)
    then show ?thesis
      using insert_encoding_effect [OF ins] by (auto simp: advances_def)
  qed (use d1 in simp)
  moreover have "advances d1 d'"
    using insert_prepared_effect [OF i] by (auto simp: advances_def)
  ultimately show ?thesis using advances_trans by blast
qed

lemma update_data_frame: "update_data t i sv ver vals d = Inr (hit, d') \<Longrightarrow> \<exists>rows. d' = d\<lparr> data := rows \<rparr>"
  by (auto simp: update_data_def Let_def split: option.splits intro: exI [of _ "data d"])

lemma finalize_advances:
  assumes "finalize sid arg schema metadata id' d = Inr (r, d')"
  shows "advances d d' \<and> ms_prepared d' = ms_prepared d"
  using assms
proof (cases rule: finalize_effect)
  case (New i s vals p)
  then show ?thesis
    using insert_rows_effect [OF New(6)] by (auto intro!: advancesI)
qed simp

lemma publish_advances:
  assumes "publish sid i d = Inr (r, d')"
  shows "advances d d' \<and> ms_prepared d' = ms_prepared d"
  using publish_effect [OF assms] update_ready_frame [of i d d'] by (auto intro!: advancesI)

lemma extends_advances: "extends d d' \<Longrightarrow> advances d d' \<and> ms_prepared d' = ms_prepared d"
  by (auto simp: extends_def intro!: advancesI)

lemma store_install_extends:
  assumes "consistent d" "wf_declared s" "store_install_schema s d = Inr d'"
  shows "extends d d'"
proof -
  from assms(3) obtain d1 d2 d3 d4 where s: "install s d = Inr d1" "payload_install s d1 = Inr d2"
    "install_encodings d2 = Inr d3" "install_lifecycle d3 = Inr d4" "lifecycle_schema s d4 = Inr d'"
    by (auto simp: store_install_schema_def)
  have I: "installed d" using assms(1) by (simp add: consistent_def catalog_ok_def)
  have 1: "extends d d1"
    using install_effect [OF I s(1)] by (auto simp: extends_def)
  have I1: "installed d1" by (rule extends_installed [OF 1 I])
  have 2: "extends d1 d2" using payload_install_effect [OF I1 s(2)] by blast
  have I2: "installed d2" by (rule extends_installed [OF 2 I1])
  have "d3 = d2" by (rule installed_same(3) [OF I2 s(3)])
  moreover have "d4 = d3"
    by (rule installed_same(4) [OF _ s(4)]) (use I2 calculation in simp)
  moreover have "extends d4 d'" using lifecycle_schema_effect [OF s(5)] by blast
  ultimately show ?thesis using 1 2 extends_trans by metis
qed

lemma retired_db_advances: "advances d (retired_db r d)"
  by (auto simp: advances_def retired_db_def retired_of_def)

lemma mark_gc_keys: "map gc_key gs = map gc_key hs \<Longrightarrow> gc_key ` set gs = gc_key ` set hs"
  by (metis set_map)

text \<open>A call adds at most one prepared row, the one that it journals.\<close>

lemma run_call_advances:
  assumes ok: "consistent d" and c: "call_typed c" and r: "run_call sid c d = Inr d'"
  shows "advances d d' \<and> (\<forall>p \<in> set (ms_prepared d'). p \<in> set (ms_prepared d) \<or>
           (\<exists>arg schema. c = Journal arg schema \<and> physical arg = Some p))"
proof (cases c)
  case (InstallSchema s)
  then show ?thesis
    using r c store_install_extends [OF ok, of s d'] extends_advances [of d d'] by (auto simp: call_typed_def)
next
  case InstallLifecycle
  then show ?thesis using r install_lifecycle_effect [OF ok, of d'] extends_advances [of d d'] by simp
next
  case (Journal arg schema)
  then have j: "journal arg schema d = Inr d'" using r by simp
  show ?thesis using journal_advances [OF ok j] journal_frame [OF j] Journal by auto
next
  case (Finalize arg schema metadata i)
  then show ?thesis using r finalize_advances by fastforce
next
  case (Publish i)
  then show ?thesis using r publish_advances by fastforce
next
  case (CompleteImport i arg s metadata vals n dig enc)
  then obtain x where "complete_import sid i arg s metadata vals n dig enc d = Inr (x, d')" using r by auto
  then show ?thesis
  proof (cases rule: complete_import_effect)
    case (New r1 d1)
    then show ?thesis
      using finalize_advances [OF New(2)] publish_advances [OF New(3)] advances_trans by auto
  qed simp
next
  case (UpdateMetadata i schema changes ver)
  then obtain x where "update_metadata i schema changes ver d = Inr (x, d')" using r by auto
  then show ?thesis
  proof (cases rule: update_metadata_effect)
    case (1 j s v vals)
    then show ?thesis using update_data_frame [OF 1(5)] by (auto simp: advances_def)
  qed
next
  case (Delete i ver)
  then obtain x where "delete sid i ver d = Inr (x, d')" using r by auto
  then show ?thesis
  proof (cases rule: delete_effect)
    case (New j rec)
    have "d' = retired_db rec d" using retire_rows_effect [OF New(3)] by blast
    then show ?thesis using retired_db_advances [of d rec] by (auto simp: retired_db_def)
  qed simp
next
  case (Discard arg)
  then obtain x where "discard sid arg d = Inr (x, d')" using r by auto
  then show ?thesis using discard_frame [of sid arg d x d'] by (auto simp: advances_def)
next
  case (QueueOrphans linked keys)
  then obtain ks where "queue_orphans linked sid keys d = Inr (ks, d')" using r by auto
  then obtain gs where "d' = d\<lparr> ms_gc := ms_gc d @ gs \<rparr>"
    using queue_orphans_frame by blast
  then show ?thesis by (auto simp: advances_def)
next
  case (MarkCleanup storage key st err)
  then have f: "mark_gc storage key st err d = Inr d'" using r by simp
  from mark_gc_frame [OF f] obtain gs where gs: "d' = d\<lparr> ms_gc := gs \<rparr>" "gc_key ` set gs = gc_key ` set (ms_gc d)"
    using mark_gc_keys by blast
  then show ?thesis by (auto simp: advances_def)
next
  case (References rs)
  then show ?thesis using r by (auto simp: set_references_def advances_def)
qed

text \<open>Prepared rows of a journal call come with a key that is not queued for cleanup.\<close>

lemma run_calls_step:
  assumes "consistent d" "list_all call_typed cs" "run_calls sid cs d = Inr d'"
  shows "consistent d' \<and> advances d d' \<and> (\<forall>p \<in> set (ms_prepared d'). p \<in> set (ms_prepared d) \<or>
           (\<exists>arg schema. Journal arg schema \<in> set cs \<and> physical arg = Some p))"
  using assms
proof (induction cs arbitrary: d)
  case (Cons c cs)
  then obtain d1 where d1: "run_call sid c d = Inr d1" "run_calls sid cs d1 = Inr d'" by auto
  have c: "call_typed c" using Cons.prems(2) by simp
  note 1 = run_call_consistent [OF Cons.prems(1) c d1(1)] run_call_advances [OF Cons.prems(1) c d1(1)]
  from Cons.IH [OF 1(1) _ d1(2)] Cons.prems(2)
  have 2: "consistent d'" "advances d1 d'" "\<forall>p \<in> set (ms_prepared d'). p \<in> set (ms_prepared d1) \<or>
           (\<exists>arg schema. Journal arg schema \<in> set cs \<and> physical arg = Some p)" by simp_all
  have "advances d d'" by (rule advances_trans [OF conjunct1 [OF 1(2)] 2(2)])
  moreover have "\<forall>p \<in> set (ms_prepared d'). p \<in> set (ms_prepared d) \<or>
           (\<exists>arg schema. Journal arg schema \<in> set (c # cs) \<and> physical arg = Some p)"
    using 1(2) 2(3) by (metis list.set_intros)
  ultimately show ?case using 2(1) by blast
qed simp

end
