(* ===== verification/Links.thy ===== *)
theory Links
  imports Progress
begin

text \<open>
  The references between the tables that no commit checks again, and their preservation: together
  with the deferred references of a commit they make the checks of the maintenance calls pass.
\<close>

section \<open>The references of the catalog\<close>

definition guarded_schema :: "db \<Rightarrow> string \<Rightarrow> bool" where
  "guarded_schema d n =
     (map_of (objects d) (fst (retire_guard n)) = Some (snd (retire_guard n)) \<and>
      (\<exists>s. mk_schema (PStr n) (PDict []) (PInt 1) (PTuple []) (PTuple [PStr ''file'']) PNone PNone = Inr s))"

definition referential :: "db \<Rightarrow> bool" where
  "referential d =
     ((\<forall>g \<in> set (ms_gc d). \<forall>tok. g_token g = Some tok \<longrightarrow>
         (\<exists>p \<in> set (ms_prepared d). p_token p = tok \<and> gc_key g = (p_storage p, p_key p))) \<and>
      (\<forall>g \<in> set (ms_gc d). gc_reference_ok g d) \<and>
      (\<forall>t \<in> set (ms_retired d). t_token t \<in> p_token ` set (ms_prepared d) \<and> (t_schema t, t_version t) \<in> schema_keys d) \<and>
      set (ms_payload_schemas d) \<subseteq> schema_keys d \<and>
      (\<forall>a \<in> set (app_refs d). a_deferred a \<or> a_blob a \<in> b_id ` set (ms_blobs d)) \<and>
      (\<forall>n \<in> set (ms_lifecycle_schemas d). guarded_schema d n))"

lemma gc_reference_mono: "gc_reference_ok g d \<Longrightarrow> t_blob ` set (ms_retired d) \<subseteq> t_blob ` set (ms_retired d') \<Longrightarrow> gc_reference_ok g d'"
  by (auto simp: gc_reference_ok_def split: option.splits)

text \<open>Changes that only add rows on which others depend.\<close>

lemma linked_grow:
  assumes l: "referential d" and p: "set (ms_prepared d) \<subseteq> set (ms_prepared d')" and s: "schema_keys d \<subseteq> schema_keys d'"
    and b: "b_id ` set (ms_blobs d) \<subseteq> b_id ` set (ms_blobs d')"
    and same: "ms_gc d' = ms_gc d" "ms_retired d' = ms_retired d" "app_refs d' = app_refs d"
    and q: "set (ms_payload_schemas d') \<subseteq> schema_keys d'"
    and n: "\<And>n. n \<in> set (ms_lifecycle_schemas d') \<Longrightarrow> guarded_schema d' n"
  shows "referential d'"
proof -
  have "\<forall>g \<in> set (ms_gc d'). \<forall>tok. g_token g = Some tok \<longrightarrow>
         (\<exists>p \<in> set (ms_prepared d'). p_token p = tok \<and> gc_key g = (p_storage p, p_key p))"
    using l p unfolding referential_def same by (meson subsetD)
  moreover have "\<forall>g \<in> set (ms_gc d'). gc_reference_ok g d'"
    using l gc_reference_mono [of _ d d'] unfolding referential_def same by blast
  moreover have "\<forall>t \<in> set (ms_retired d'). t_token t \<in> p_token ` set (ms_prepared d') \<and> (t_schema t, t_version t) \<in> schema_keys d'"
    using l p s unfolding referential_def same by blast
  moreover have "\<forall>a \<in> set (app_refs d'). a_deferred a \<or> a_blob a \<in> b_id ` set (ms_blobs d')"
    using l b unfolding referential_def same by blast
  ultimately show ?thesis using q n by (simp add: referential_def)
qed

lemma guarded_schema_objects: "objects d' = objects d \<Longrightarrow> guarded_schema d' n = guarded_schema d n"
  by (simp add: guarded_schema_def)

lemma guarded_schema_extends: "extends d d' \<Longrightarrow> guarded_schema d n \<Longrightarrow> guarded_schema d' n"
  using extends_map_of by (auto simp: guarded_schema_def)

text \<open>Operations on blobs, data and the journal.\<close>

lemma linked_rows:
  assumes l: "referential d" and p: "set (ms_prepared d) \<subseteq> set (ms_prepared d')"
    and b: "b_id ` set (ms_blobs d) \<subseteq> b_id ` set (ms_blobs d')"
    and same: "ms_gc d' = ms_gc d" "ms_retired d' = ms_retired d" "app_refs d' = app_refs d"
      "ms_payload_schemas d' = ms_payload_schemas d" "ms_lifecycle_schemas d' = ms_lifecycle_schemas d"
      "objects d' = objects d" "ms_schemas d' = ms_schemas d"
  shows "referential d'"
proof (rule linked_grow [OF l p _ b same(1-3)])
  show "schema_keys d \<subseteq> schema_keys d'" by (simp add: schema_keys_def same)
  show "set (ms_payload_schemas d') \<subseteq> schema_keys d'"
    using l by (simp add: referential_def schema_keys_def same)
  show "\<And>n. n \<in> set (ms_lifecycle_schemas d') \<Longrightarrow> guarded_schema d' n"
    using l by (simp add: referential_def same guarded_schema_objects [of d' d])
qed

lemma finalize_linked:
  assumes l: "referential d" and f: "finalize sid arg schema metadata id' d = Inr (r, d')"
  shows "referential d'"
  using f
proof (cases rule: finalize_effect)
  case (New i s vals p)
  show ?thesis
    by (rule linked_rows [OF l]) (use insert_rows_effect [OF New(6)] in auto)
qed (use l in simp)

lemma publish_linked:
  assumes l: "referential d" and p: "publish sid i d = Inr (r, d')"
  shows "referential d'"
proof -
  obtain bs where bs: "d' = d\<lparr> ms_blobs := bs \<rparr>" "map b_id bs = map b_id (ms_blobs d)"
    using publish_effect [OF p] update_ready_frame [of i d d'] by blast
  then have "b_id ` set bs = b_id ` set (ms_blobs d)" by (metis set_map)
  with bs show ?thesis by (intro linked_rows [OF l]) simp_all
qed

text \<open>New cleanup intents.\<close>

lemma linked_add_gc:
  assumes l: "referential d" and g: "gc_reference_ok g d"
    and t: "\<And>tok. g_token g = Some tok \<Longrightarrow> \<exists>p \<in> set (ms_prepared d). p_token p = tok \<and> gc_key g = (p_storage p, p_key p)"
  shows "referential (d\<lparr> ms_gc := ms_gc d @ [g] \<rparr>)"
proof -
  have "gc_reference_ok h (d\<lparr> ms_gc := x \<rparr>) = gc_reference_ok h d" for h x
    by (simp add: gc_reference_ok_def split: option.split)
  moreover have "schema_keys (d\<lparr> ms_gc := x \<rparr>) = schema_keys d" "guarded_schema (d\<lparr> ms_gc := x \<rparr>) = guarded_schema d" for x
    by (simp_all add: schema_keys_def guarded_schema_def fun_eq_iff)
  ultimately show ?thesis
    using l g t unfolding referential_def by simp
qed

lemma discard_linked:
  assumes l: "referential d" and dis: "discard sid arg d = Inr (g, d')"
  shows "referential d'"
proof -
  from dis obtain p b where p: "physical arg = Some p" "matches arg p d = Inr b" "b" and
    i: "insert_or_ignore_gc (discarded_gc p) d = Inr d'"
    by (auto simp: discard_def)
  have "p \<in> set (ms_prepared d)"
    using matches_Inr [OF p(2,3)] by (auto dest: row_with_SomeD)
  then have "referential (d\<lparr> ms_gc := ms_gc d @ [discarded_gc p] \<rparr>)"
    by (intro linked_add_gc [OF l]) (auto simp: discarded_gc_def gc_reference_ok_def gc_key_def)
  then show ?thesis
    using insert_or_ignore_gc_effect [OF i] l by auto
qed

lemma queue_keys_linked: "referential d \<Longrightarrow> queue_keys sid ks d = Inr d' \<Longrightarrow> referential d'"
proof (induction ks arbitrary: d)
  case (Cons k ks)
  then obtain d1 where d1: "insert_or_ignore_gc (orphan_gc sid k) d = Inr d1" "queue_keys sid ks d1 = Inr d'" by auto
  have "referential (d\<lparr> ms_gc := ms_gc d @ [orphan_gc sid k] \<rparr>)"
    by (rule linked_add_gc [OF Cons.prems(1)]) (simp_all add: orphan_gc_def gc_reference_ok_def)
  then have "referential d1"
    using insert_or_ignore_gc_effect [OF d1(1)] Cons.prems(1) by auto
  then show ?case using Cons.IH d1(2) by blast
qed simp

lemma mark_gc_linked:
  assumes l: "referential d" and m: "mark_gc sid key st err d = Inr d'"
  shows "referential d'"
proof -
  define f where "f = (\<lambda>g. if gc_key g = (sid, key) \<and> g_state g = Pending then g\<lparr> g_state := st, g_error := err \<rparr> else g)"
  have d': "d' = d\<lparr> ms_gc := map f (ms_gc d) \<rparr>" using m by (auto simp: mark_gc_def f_def)
  have f: "g_token (f g) = g_token g" "gc_key (f g) = gc_key g" "g_blob (f g) = g_blob g" for g
    by (simp_all add: f_def gc_key_def)
  have "gc_reference_ok (f g) d' = gc_reference_ok g d" for g
    by (simp add: gc_reference_ok_def f d' split: option.split)
  moreover have "schema_keys d' = schema_keys d" "guarded_schema d' = guarded_schema d"
    by (simp_all add: schema_keys_def guarded_schema_def fun_eq_iff d')
  ultimately show ?thesis
    using l unfolding referential_def by (simp add: d' f)
qed

text \<open>Retirement removes the blob only when no immediate reference names it.\<close>

lemma set_state_ids: "b_id ` set (ms_blobs (set_state i st d)) = b_id ` set (ms_blobs d)"
proof -
  have "map b_id (ms_blobs (set_state i st d)) = map b_id (ms_blobs d)"
    by (simp add: set_state_def)
  then show ?thesis by (metis set_map)
qed

lemma retire_rows_references:
  assumes r: "retire_rows r d = Inr d'" and b: "r_id r \<in> b_id ` set (ms_blobs d)"
  shows "\<forall>a \<in> set (app_refs d). a_blob a = r_id r \<longrightarrow> a_deferred a"
proof -
  from r obtain d1 d2 d3 d4 d5 where
    1: "insert_retired (retired_of r) d = Inr d1" and 2: "insert_gc (gc_of r) d1 = Inr d2" and
    3: "update_pending_delete (r_id r) d2 = Inr d3" and
    4: "delete_data (data_table_of (r_schema_name r)) (r_id r) d3 = Inr d4" and
    5: "delete_object_row (r_id r) d4 = Inr d5" and 6: "delete_blob (r_id r) d5 = Inr d'"
    by (auto simp: retire_rows_def)
  have d1: "d1 = d\<lparr> ms_retired := ms_retired d @ [retired_of r] \<rparr>" using insert_retired_effect [OF 1] by blast
  have d2: "d2 = d1\<lparr> ms_gc := ms_gc d1 @ [gc_of r] \<rparr>" using insert_gc_effect [OF 2] by blast
  note d3 = update_pending_effect [OF 3] and d4 = delete_data_effect [OF 4] and d5 = delete_object_row_effect [OF 5]
  have a5: "app_refs d5 = app_refs d" unfolding d5 d4 d3 d2 d1 by (simp add: set_state_def)
  have "b_id ` set (ms_blobs d5) = b_id ` set (ms_blobs d)"
    using set_state_ids [of "r_id r" PendingDelete "d2"] unfolding d5 d4 d3 by (simp add: d2 d1)
  with b have "row_with b_id (r_id r) (ms_blobs d5) \<noteq> None" by (simp add: table_simps)
  then have "\<not> list_ex (\<lambda>a. a_blob a = r_id r \<and> \<not> a_deferred a) (app_refs d5)"
    using 6 by (auto simp: delete_blob_def split: option.splits)
  then show ?thesis by (auto simp: a5 list_ex_iff)
qed

lemma delete_linked:
  assumes l: "referential d" and del: "delete sid id' ver d = Inr (res, d')"
  shows "referential d'"
  using del
proof (cases rule: delete_effect)
  case (New i r)
  obtain b p m s md e where b: "row_with b_id i (ms_blobs d) = Some b" "prepared_of i d = Some p"
      "r = with_encoding e (record_row b p m md)"
    using New(2) by (rule get_record_Inr) auto
  have bi: "b \<in> set (ms_blobs d)" "b_id b = i" using row_with_SomeD [OF b(1)] by simp_all
  have rs: "r_id r = i" "r_token r = p_token p" "r_storage r = p_storage p" "r_key r = p_key p"
    by (simp_all add: b(3) bi)
  obtain ob where ob: "p \<in> set (ms_prepared d)" using prepared_of_SomeD [OF b(2)] by blast
  have eff: "d' = retired_db r d" "(r_schema_name r, r_schema_version r) \<in> schema_keys d"
    using retire_rows_effect [OF New(3)] by simp_all
  have refs: "\<forall>a \<in> set (app_refs d). a_blob a = i \<longrightarrow> a_deferred a"
    using retire_rows_references [OF New(3)] bi rs by auto
  have gcs: "ms_gc d' = ms_gc d @ [gc_of r]" and ret: "ms_retired d' = ms_retired d @ [retired_of r]"
    and pre: "ms_prepared d' = ms_prepared d" and app: "app_refs d' = app_refs d"
    and blobs: "ms_blobs d' = filter (\<lambda>b. b_id b \<noteq> i) (ms_blobs d)"
    and rest: "schema_keys d' = schema_keys d" "ms_payload_schemas d' = ms_payload_schemas d"
      "ms_lifecycle_schemas d' = ms_lifecycle_schemas d" "guarded_schema d' = guarded_schema d"
    by (simp_all add: eff(1) retired_db_def rs schema_keys_def guarded_schema_def fun_eq_iff)
  have "gc_reference_ok g d'" if "gc_reference_ok g d" for g
    by (rule gc_reference_mono [OF that]) (auto simp: ret)
  moreover have "gc_reference_ok (gc_of r) d'"
    by (simp add: gc_reference_ok_def gc_of_def ret retired_of_def)
  moreover have "\<exists>q \<in> set (ms_prepared d). p_token q = r_token r \<and> gc_key (gc_of r) = (p_storage q, p_key q)"
    using ob rs by (auto simp: gc_of_def gc_key_def)
  moreover have "\<forall>a \<in> set (app_refs d). a_deferred a \<or> a_blob a \<in> b_id ` set (ms_blobs d')"
    using l refs unfolding referential_def blobs by force
  moreover have "t_token (retired_of r) \<in> p_token ` set (ms_prepared d)"
    using ob rs by (simp add: retired_of_def)
  moreover have "g_token (gc_of r) = Some (r_token r)" by (simp add: gc_of_def)
  ultimately show ?thesis
    using l eff(2) unfolding referential_def gcs ret pre app rest by (auto simp: retired_of_def)
qed (use l in simp)

section \<open>Installation\<close>

lemma guarded_name:
  assumes "wf_declared s"
  shows "\<exists>t. mk_schema (PStr (sc_name s)) (PDict []) (PInt 1) (PTuple []) (PTuple [PStr ''file'']) PNone PNone = Inr t"
proof -
  let ?t = "\<lparr> sc_name = sc_name s, sc_fields = [], sc_version = 1, sc_indexes = [], sc_handlers = [''file''],
      sc_validator_id = None, sc_payload_validator = None \<rparr> :: blob_schema"
  have n: "valid_ident (sc_name s)" "length (sc_name s) \<le> 48"
    using assms by (simp_all add: wf_declared_def wf_schema_def)
  have "mk_schema (PStr ''d'') (PDict []) (PInt 1) (PTuple []) (PTuple [PStr ''file'']) PNone PNone =
      Inr \<lparr> sc_name = ''d'', sc_fields = [], sc_version = 1, sc_indexes = [], sc_handlers = [''file''],
      sc_validator_id = None, sc_payload_validator = None \<rparr>" by code_simp
  then have "mk_schema (PStr (sc_name s)) (PDict []) (PInt 1) (PTuple []) (PTuple [PStr ''file'']) PNone PNone = Inr ?t"
    unfolding mk_schema_Inr using n by simp
  then show ?thesis by blast
qed

lemma lifecycle_schema_linked:
  assumes l: "referential d" and i: "lifecycle_schema s d = Inr d'" and w: "\<exists>t. wf_declared t \<and> sc_name t = sc_name s"
  shows "referential d'"
proof -
  note e = lifecycle_schema_effect [OF i]
  have ex: "extends d d'" and rest: "ms_schemas d' = ms_schemas d" "app_refs d' = app_refs d"
    using e by simp_all
  have pay: "ms_payload_schemas d' = ms_payload_schemas d"
    using i by (auto simp: lifecycle_schema_def Let_def create_def split: if_splits)
  have "guarded_schema d' n" if n: "n \<in> set (ms_lifecycle_schemas d')" for n
  proof (cases "n \<in> set (ms_lifecycle_schemas d)")
    case True
    then have "guarded_schema d n" using l by (simp add: referential_def)
    then show ?thesis by (rule guarded_schema_extends [OF ex])
  next
    case False
    with n i have new: "n = sc_name s" and c: "\<exists>d1. create (retire_guard (sc_name s)) d = Inr d1 \<and> objects d' = objects d1"
      by (auto simp: lifecycle_schema_def Let_def create_def split: if_splits)
    obtain t where "wf_declared t" "sc_name t = sc_name s" using w by blast
    then have "\<exists>u. mk_schema (PStr n) (PDict []) (PInt 1) (PTuple []) (PTuple [PStr ''file'']) PNone PNone = Inr u"
      using guarded_name [of t] new by simp
    moreover have "map_of (objects d') (fst (retire_guard n)) = Some (snd (retire_guard n))"
      using c create_guard new by metis
    ultimately show ?thesis by (simp add: guarded_schema_def)
  qed
  then show ?thesis
    using ex l by (intro linked_grow [OF l]) (auto simp: extends_def rest pay schema_keys_def referential_def)
qed

lemma lifecycle_schemas_linked:
  "referential d \<Longrightarrow> registry_ok d \<Longrightarrow> set rows \<subseteq> set (ms_schemas d) \<Longrightarrow> lifecycle_schemas rows d = Inr d' \<Longrightarrow> referential d'"
proof (induction rows arbitrary: d)
  case (Cons r rows)
  then obtain s d1 where d1: "decode (sr_definition r) = Inr s" "lifecycle_schema s d = Inr d1" "lifecycle_schemas rows d1 = Inr d'"
    by auto
  obtain t where t: "wf_declared t" "sr_definition r = schema_definition t"
    using Cons.prems(2,3) unfolding registry_ok_def by fastforce
  then have "sc_name s = sc_name t"
    using decode_definition [OF t(1)] d1(1) by auto
  with t have 1: "referential d1"
    by (intro lifecycle_schema_linked [OF Cons.prems(1) d1(2)]) auto
  note e = lifecycle_schema_effect [OF d1(2)]
  have "has_table d1 u" if "has_table d u" for u
    using that e extends_map_of by (auto simp: has_table_def)
  then have "registry_ok d1"
    using Cons.prems(2) e unfolding registry_ok_def by metis
  then show ?case
    using Cons.IH [OF 1 _ _ d1(3)] Cons.prems(3) e by simp
qed simp

lemma payload_install_linked:
  assumes l: "referential d" and I: "installed d" and i: "payload_install s d = Inr d'"
  shows "referential d'"
proof -
  note e = payload_install_effect [OF I i]
  have "payload_format d = Inr d1 \<Longrightarrow> d1 = d" for d1
    by (rule installed_same(2) [OF I])
  with i have pay: "set (ms_payload_schemas d') \<subseteq> set (ms_payload_schemas d) \<union> schema_keys d'"
    and life: "ms_lifecycle_schemas d' = ms_lifecycle_schemas d"
    by (auto simp: payload_install_def Let_def create_def schema_keys_def split: if_splits)
  have sk: "schema_keys d' = schema_keys d" using e by (simp add: schema_keys_def)
  show ?thesis
  proof (rule linked_grow [OF l])
    show "set (ms_payload_schemas d') \<subseteq> schema_keys d'"
      using l pay sk by (auto simp: referential_def)
    show "\<And>n. n \<in> set (ms_lifecycle_schemas d') \<Longrightarrow> guarded_schema d' n"
      using l life guarded_schema_extends e by (auto simp: referential_def)
  qed (use e sk in \<open>auto simp: extends_def\<close>)
qed

lemma install_linked:
  assumes l: "referential d" and I: "installed d" and i: "install s d = Inr d'"
  shows "referential d'"
  using install_effect [OF I i]
proof (elim disjE conjE)
  assume e: "d' = d\<lparr> ms_schemas := ms_schemas d @ [\<lparr> sr_name = sc_name s, sr_version = sc_version s,
              sr_table = table_name s, sr_definition = schema_definition s \<rparr>],
            objects := objects d @ schema_objects s \<rparr>"
  have ex: "extends d d'" by (simp add: e extends_def)
  show ?thesis
  proof (rule linked_grow [OF l])
    show "set (ms_payload_schemas d') \<subseteq> schema_keys d'"
      using l by (auto simp: referential_def e schema_keys_def)
    show "\<And>n. n \<in> set (ms_lifecycle_schemas d') \<Longrightarrow> guarded_schema d' n"
      using l guarded_schema_extends [OF ex] by (auto simp: referential_def e)
  qed (auto simp: e schema_keys_def)
qed (use l in simp)

lemma store_install_schema_linked:
  assumes l: "referential d" and ok: "consistent d" and w: "wf_declared s" and ins: "store_install_schema s d = Inr d'"
  shows "referential d'"
proof -
  from ins obtain d1 d2 d3 d4 where s: "install s d = Inr d1" "payload_install s d1 = Inr d2"
    "install_encodings d2 = Inr d3" "install_lifecycle d3 = Inr d4" "lifecycle_schema s d4 = Inr d'"
    by (auto simp: store_install_schema_def)
  have I: "installed d" using ok by (simp add: consistent_def catalog_ok_def)
  have 1: "extends d d1" using install_effect [OF I s(1)] by (auto simp: extends_def)
  have I1: "installed d1" by (rule extends_installed [OF 1 I])
  have 2: "extends d1 d2" using payload_install_effect [OF I1 s(2)] by blast
  have I2: "installed d2" by (rule extends_installed [OF 2 I1])
  have "d3 = d2" by (rule installed_same(3) [OF I2 s(3)])
  moreover have "d4 = d3" by (rule installed_same(4) [OF _ s(4)]) (use I2 calculation in simp)
  moreover have "referential d2"
    by (rule payload_install_linked [OF install_linked [OF l I s(1)] I1 s(2)])
  ultimately show ?thesis
    using lifecycle_schema_linked [OF _ s(5)] w by blast
qed

lemma run_call_linked:
  assumes l: "referential d" and ok: "consistent d" and c: "call_typed c" and r: "run_call sid c d = Inr d'"
  shows "referential d'"
proof (cases c)
  case (InstallSchema s)
  then show ?thesis using r c store_install_schema_linked [OF l ok, of s d'] by (simp add: call_typed_def)
next
  case InstallLifecycle
  then have i: "store_install_lifecycle d = Inr d'" using r by simp
  then obtain d1 where d1: "install_lifecycle d = Inr d1"
      "lifecycle_schemas (sort_key (\<lambda>r. (sr_name r, sr_version r)) (ms_schemas d1)) d1 = Inr d'"
    by (auto simp: store_install_lifecycle_def)
  have "d1 = d" using installed_same(4) [OF _ d1(1)] ok by (simp add: consistent_def catalog_ok_def)
  then show ?thesis
    using lifecycle_schemas_linked [OF l _ _ d1(2) [unfolded \<open>d1 = d\<close>]] ok by (simp add: consistent_def rows_ok_def)
next
  case (Journal arg schema)
  then have j: "journal arg schema d = Inr d'" using r by simp
  from journal_frame [OF j] show ?thesis by (auto intro!: linked_rows [OF l])
next
  case (Finalize arg schema metadata i)
  then show ?thesis using r finalize_linked [OF l] by auto
next
  case (Publish i)
  then show ?thesis using r publish_linked [OF l] by auto
next
  case (CompleteImport i arg s metadata vals n dig enc)
  then obtain x where "complete_import sid i arg s metadata vals n dig enc d = Inr (x, d')" using r by auto
  then show ?thesis
  proof (cases rule: complete_import_effect)
    case (New r1 d1)
    show ?thesis by (rule publish_linked [OF finalize_linked [OF l New(2)] New(3)])
  qed (use l in simp)
next
  case (UpdateMetadata i schema changes ver)
  then obtain x where "update_metadata i schema changes ver d = Inr (x, d')" using r by auto
  then show ?thesis
  proof (cases rule: update_metadata_effect)
    case (1 j s v vals)
    from update_data_frame [OF 1(5)] show ?thesis by (auto intro!: linked_rows [OF l])
  qed
next
  case (Delete i ver)
  then show ?thesis using r delete_linked [OF l] by auto
next
  case (Discard arg)
  then show ?thesis using r discard_linked [OF l] by auto
next
  case (QueueOrphans links keys)
  then show ?thesis using r queue_keys_linked [OF l] by (auto simp: queue_orphans_def)
next
  case (MarkCleanup storage key st err)
  then show ?thesis using r mark_gc_linked [OF l, of storage key st err d'] by simp
next
  case (References rs)
  then have d': "d' = d\<lparr> app_refs := rs \<rparr>" "\<forall>a \<in> set rs. a_deferred a \<or> a_blob a \<in> b_id ` set (ms_blobs d)"
    using r by (auto simp: set_references_def list_all_iff)
  have "gc_reference_ok g d' = gc_reference_ok g d" for g
    by (simp add: gc_reference_ok_def d'(1) split: option.split)
  moreover have "schema_keys d' = schema_keys d" "guarded_schema d' = guarded_schema d"
    by (simp_all add: schema_keys_def guarded_schema_def fun_eq_iff d'(1))
  ultimately show ?thesis
    using l d'(2) unfolding referential_def by (simp add: d'(1))
qed

section \<open>The checks of the library pass\<close>

lemma verify_lifecycle_ok:
  assumes I: "installed d" and l: "referential d"
  shows "verify_lifecycle d = Inr ()"
proof -
  have "trigger d n" if "n \<in> set lifecycle_names" for n
    using installed_trigger [OF I, of n] that by simp
  then have 1: "verify_objects (own lifecycle_names) d = Inr ()"
    by (simp add: verify_objects_def own_def list_all_iff trigger_def)
  have 2: "verify_format ''ms_lifecycle_format'' m d = Inr ()" for m
    using I by (simp add: verify_format_def installed_def)
  let ?f = "\<lambda>n. ebind (mk_schema (PStr n) (PDict []) (PInt 1) (PTuple [])
                                (PTuple [PStr ''file'']) PNone PNone) (\<lambda>_.
                       verify_objects [retire_guard n] d)"
  have "?f n = Inr ((\<lambda>_. ()) n)" if "n \<in> set (ms_lifecycle_schemas d)" for n
  proof -
    have "guarded_schema d n" using l that by (simp add: referential_def)
    then show ?thesis by (auto simp: guarded_schema_def verify_objects_def)
  qed
  then have "emapM ?f (ms_lifecycle_schemas d) = Inr (map (\<lambda>_. ()) (ms_lifecycle_schemas d))"
    by (rule emapM_Inr_map)
  then show ?thesis by (simp add: verify_lifecycle_def 1 2)
qed

lemma foreign_keys_ok:
  assumes c: "consistent d" and l: "referential d" and q: "deferred_ok d"
  shows "foreign_key_check d = []"
proof -
  have K: "keys_ok d" and S: "schema_refs d" and B: "blobs_ok d"
    using c by (simp_all add: consistent_def catalog_ok_def)
  have objects: "o_blob ob \<in> b_id ` set (ms_blobs d) \<and> o_token ob \<in> p_token ` set (ms_prepared d)"
    if ob: "ob \<in> set (ms_objects d)" for ob
  proof -
    obtain b where b: "b \<in> set (ms_blobs d)" "b_id b = o_blob ob"
      using B ob unfolding blobs_ok_def by (metis (no_types, lifting) imageE image_eqI subsetD)
    then obtain p where p: "prepared_of (o_blob ob) d = Some p"
      using B unfolding blobs_ok_def blob_complete_def by metis
    have "row_with o_blob (o_blob ob) (ms_objects d) = Some ob"
      using K ob by (simp add: row_with_Some keys_ok_def)
    with p have "row_with p_token (o_token ob) (ms_prepared d) = Some p"
      by (simp add: prepared_of_def)
    then have "o_token ob \<in> p_token ` set (ms_prepared d)"
      using row_with_SomeD [of p_token "o_token ob" "ms_prepared d" p] by force
    with b show ?thesis by force
  qed
  have rows: "data_reference_ok d m" if m: "m \<in> set (data d)" for m
    using data_row_version [OF B K m] by (fastforce simp: data_reference_ok_def list_ex_iff data_key_def)
  show ?thesis
    unfolding foreign_key_check_def append_is_Nil_conv map_is_Nil_conv filter_empty_conv
    using S l q objects rows
    unfolding schema_refs_def referential_def deferred_ok_def list_all_iff by blast
qed

lemma check_catalog_ok:
  "consistent d \<Longrightarrow> referential d \<Longrightarrow> deferred_ok d \<Longrightarrow> check_catalog d = Inr ()"
  by (simp add: check_catalog_def foreign_keys_ok verify_lifecycle_ok consistent_def catalog_ok_def)

end
