(* ===== verification/MigrationSteps.thy ===== *)
theory MigrationSteps imports Migration Links begin

text \<open>
  What a successful batch of a metadata migration does to the catalog: the rows and the blobs that it
  migrates, its checkpoint, and nothing else.
\<close>

section \<open>One row\<close>

definition migrate_of :: "migration \<Rightarrow> string list \<Rightarrow> data_row \<Rightarrow> data_row" where
  "migrate_of plan names r =
     (case new_values plan r of
        Inl e \<Rightarrow> r
      | Inr v \<Rightarrow> migrated_row (sc_version (mg_target plan)) (field_values names v) r)"

lemma migrated_row_simps [simp]:
  "data_key (migrated_row v values r) = data_key r" "d_id (migrated_row v values r) = d_id r"
  "d_schema_version (migrated_row v values r) = v" "d_table (migrated_row v values r) = d_table r"
  "d_version (migrated_row v values r) = d_version r + 1"
  "d_cols (migrated_row v values r) = set_cols values (d_cols r)"
  by (simp_all add: migrated_row_def data_key_def)

lemma migrate_data_effect:
  assumes "migrate_data t i old new ver values xs d = Inr (hit, d')"
  shows "\<not> hit \<and> d' = d \<or> hit \<and> (\<exists>r def. find (update_hit t i old ver) (data d) = Some r \<and>
    d' = d\<lparr> data := map (\<lambda>x. if update_hit t i old ver x then migrated_row new values r else x) (data d) \<rparr> \<and>
    table_def d t = Inr def \<and> row_checks def new (set_cols values (d_cols r)) \<and>
    (\<forall>g. map_of (objects d) (t @ ''_update'') = Some g \<longrightarrow> lets_migrate d xs r new g) \<and>
    list_all (\<lambda>x. fst x \<in> fst ` set (def_columns def)) values)"
proof -
  from assms obtain def where def: "table_def d t = Inr def"
    "list_all (\<lambda>x. fst x \<in> fst ` set (def_columns def)) values"
    by (auto simp: migrate_data_def)
  show ?thesis
  proof (cases "find (update_hit t i old ver) (data d)")
    case None
    with assms show ?thesis by (auto simp: migrate_data_def)
  next
    case (Some r)
    with assms def show ?thesis
      by (auto simp: migrate_data_def Let_def split: option.splits)
  qed
qed

lemma update_blob_version_effect:
  assumes "update_blob_version i new d = Inr d'"
  shows "d' = d\<lparr> ms_blobs := map (\<lambda>b. if b_id b = i then b\<lparr> b_version := new \<rparr> else b) (ms_blobs d) \<rparr>"
proof (cases "row_with b_id i (ms_blobs d)")
  case None
  then have "i \<notin> b_id ` set (ms_blobs d)" by (simp add: row_with_None)
  then have "map (\<lambda>b. if b_id b = i then b\<lparr> b_version := new \<rparr> else b) (ms_blobs d) = ms_blobs d"
    by (intro map_idI) auto
  with None assms \<open>i \<notin> b_id ` set (ms_blobs d)\<close> show ?thesis
    by (auto simp: update_blob_version_def)
next
  case (Some b)
  with assms show ?thesis
    by (simp add: update_blob_version_def)
qed

text \<open>The rows and the blobs after the identities \<open>I\<close> of a table have been migrated.\<close>

definition row_after :: "migration \<Rightarrow> string list \<Rightarrow> string set \<Rightarrow> data_row \<Rightarrow> data_row" where
  "row_after plan names I r =
     (if d_table r = mg_table plan \<and> d_id r \<in> I then migrate_of plan names r else r)"

definition blob_after :: "migration \<Rightarrow> string set \<Rightarrow> blob_row \<Rightarrow> blob_row" where
  "blob_after plan I b = (if b_id b \<in> I then b\<lparr> b_version := sc_version (mg_target plan) \<rparr> else b)"

definition migrated :: "migration \<Rightarrow> string list \<Rightarrow> string set \<Rightarrow> db \<Rightarrow> db" where
  "migrated plan names I d =
     d\<lparr> data := map (row_after plan names I) (data d), ms_blobs := map (blob_after plan I) (ms_blobs d) \<rparr>"

lemma migrated_empty [simp]: "migrated plan names {} d = d"
proof -
  have "row_after plan names {} = id" "blob_after plan {} = id"
    by (auto simp: row_after_def blob_after_def)
  then show ?thesis by (simp add: migrated_def)
qed

lemma migrate_of_simps [simp]:
  "data_key (migrate_of plan names r) = data_key r" "d_id (migrate_of plan names r) = d_id r"
  "d_table (migrate_of plan names r) = d_table r"
  by (simp_all add: migrate_of_def split: sum.split)

lemma row_after_simps [simp]:
  "data_key (row_after plan names I r) = data_key r" "d_id (row_after plan names I r) = d_id r"
  "d_table (row_after plan names I r) = d_table r"
  by (simp_all add: row_after_def)

lemma blob_after_simps [simp]:
  "b_id (blob_after plan I b) = b_id b" "b_schema (blob_after plan I b) = b_schema b"
  "b_state (blob_after plan I b) = b_state b"
  by (simp_all add: blob_after_def)

lemma after_keys [simp]:
  "data_key \<circ> row_after plan names I = data_key" "d_id \<circ> row_after plan names I = d_id"
  "b_id \<circ> blob_after plan I = b_id"
  by auto

lemma migrated_rows [simp]:
  "data (migrated plan names I d) = map (row_after plan names I) (data d)"
  "ms_blobs (migrated plan names I d) = map (blob_after plan I) (ms_blobs d)"
  by (simp_all add: migrated_def)

lemma migrated_frame [simp]:
  "objects (migrated plan names I d) = objects d" "formats (migrated plan names I d) = formats d"
  "ms_schemas (migrated plan names I d) = ms_schemas d" "ms_migrations (migrated plan names I d) = ms_migrations d"
  "ms_prepared (migrated plan names I d) = ms_prepared d" "ms_objects (migrated plan names I d) = ms_objects d"
  "ms_gc (migrated plan names I d) = ms_gc d" "ms_retired (migrated plan names I d) = ms_retired d"
  "ms_encodings (migrated plan names I d) = ms_encodings d" "app_refs (migrated plan names I d) = app_refs d"
  "ms_payload_schemas (migrated plan names I d) = ms_payload_schemas d"
  "ms_lifecycle_schemas (migrated plan names I d) = ms_lifecycle_schemas d"
  "ms_metadata_layouts (migrated plan names I d) = ms_metadata_layouts d"
  by (simp_all add: migrated_def)

lemma migrated_keys:
  "map data_key (data (migrated plan names I d)) = map data_key (data d)"
  "map b_id (ms_blobs (migrated plan names I d)) = map b_id (ms_blobs d)"
  by (simp_all add: comp_def)

text \<open>What a successful iteration knows of its row.\<close>

definition row_migrates :: "migration \<Rightarrow> string list \<Rightarrow> db \<Rightarrow> data_row \<Rightarrow> bool" where
  "row_migrates plan names d r =
     (d_schema_version r = sc_version (mg_source plan) \<and> d_id r \<in> b_id ` set (ms_blobs d) \<and>
      (\<exists>def v. table_def d (mg_table plan) = Inr def \<and> new_values plan r = Inr v \<and>
         row_checks def (sc_version (mg_target plan)) (set_cols (field_values names v) (d_cols r)) \<and>
         (\<forall>g. map_of (objects d) (mg_table plan @ ''_update'') = Some g \<longrightarrow>
            lets_migrate d [\<lparr> st_blob = d_id r, st_migration = mg_name plan, st_expected = d_version r \<rparr>] r
              (sc_version (mg_target plan)) g)))"

text \<open>One iteration of the loop over the rows of a batch.\<close>

lemma batch_row_effect:
  assumes b: "batch_row plan names r (xs, d) = Inr (ys, d')"
    and k: "distinct (map data_key (data d))" "r \<in> set (data d)" "d_table r = mg_table plan"
    and x: "xs = []"
  shows "ys = [] \<and> d' = migrated plan names {d_id r} d \<and> row_migrates plan names d r"
proof -
  let ?t = "mg_table plan" and ?old = "sc_version (mg_source plan)" and ?new = "sc_version (mg_target plan)"
  let ?x = "\<lparr> st_blob = d_id r, st_migration = mg_name plan, st_expected = d_version r \<rparr>"
  from b x obtain v zs d1 where
    v: "new_values plan r = Inr v" and z: "insert_step ?x d [] = Inr zs" and
    m: "migrate_data ?t (d_id r) ?old ?new (d_version r) (field_values names v) zs d = Inr (True, d1)" and
    u: "update_blob_version (d_id r) ?new d1 = Inr d'" and ys: "ys = filter (\<lambda>x. st_blob x \<noteq> d_id r) zs"
    by (auto simp: batch_row_def)
  have zs: "zs = [?x]" "d_id r \<in> b_id ` set (ms_blobs d)" using z by (auto simp: insert_step_def)
  from migrate_data_effect [OF m] obtain r' def where
    f: "find (update_hit ?t (d_id r) ?old (d_version r)) (data d) = Some r'" and
    d1: "d1 = d\<lparr> data := map (\<lambda>x. if update_hit ?t (d_id r) ?old (d_version r) x
                 then migrated_row ?new (field_values names v) r' else x) (data d) \<rparr>" and
    def: "table_def d ?t = Inr def" "row_checks def ?new (set_cols (field_values names v) (d_cols r'))" and
    g: "\<forall>g. map_of (objects d) (?t @ ''_update'') = Some g \<longrightarrow> lets_migrate d zs r' ?new g"
    by blast
  have r': "r' \<in> set (data d)" "update_hit ?t (d_id r) ?old (d_version r) r'"
    using find_SomeD [OF f] by blast+
  have same: "y = r" if "y \<in> set (data d)" "d_table y = ?t" "d_id y = d_id r" for y
    using that k distinct_map_inj [of data_key "data d" y r] by (simp add: data_key_def)
  have rr: "r' = r" using same r' by (simp add: update_hit_def)
  have hit: "update_hit ?t (d_id r) ?old (d_version r) y = (d_table y = ?t \<and> d_id y = d_id r)"
    if "y \<in> set (data d)" for y
    using same [OF that] r' rr that by (auto simp: update_hit_def)
  have new: "migrate_of plan names r = migrated_row ?new (field_values names v) r"
    by (simp add: migrate_of_def v)
  have "map (\<lambda>x. if update_hit ?t (d_id r) ?old (d_version r) x then migrated_row ?new (field_values names v) r' else x) (data d) =
      map (row_after plan names {d_id r}) (data d)"
  proof (rule map_cong [OF refl])
    fix y assume "y \<in> set (data d)"
    from hit [OF this] same [OF this] rr new
    show "(if update_hit ?t (d_id r) ?old (d_version r) y then migrated_row ?new (field_values names v) r' else y) =
        row_after plan names {d_id r} y"
      by (cases "d_table y = ?t \<and> d_id y = d_id r") (auto simp: row_after_def)
  qed
  then have "d1 = d\<lparr> data := map (row_after plan names {d_id r}) (data d) \<rparr>"
    by (simp only: d1)
  moreover have "(\<lambda>b. if b_id b = d_id r then b\<lparr> b_version := ?new \<rparr> else b) = blob_after plan {d_id r}"
    by (intro ext) (simp add: blob_after_def)
  ultimately have d': "d' = migrated plan names {d_id r} d"
    using update_blob_version_effect [OF u] by (simp add: migrated_def)
  show ?thesis
    using d' zs ys v def g rr r' by (simp add: update_hit_def row_migrates_def)
qed

lemma migrated_insert:
  assumes "i \<notin> I"
  shows "migrated plan names I (migrated plan names {i} d) = migrated plan names (insert i I) d"
proof -
  have "row_after plan names I \<circ> row_after plan names {i} = row_after plan names (insert i I)"
    using assms by (intro ext) (auto simp: row_after_def)
  moreover have "blob_after plan I \<circ> blob_after plan {i} = blob_after plan (insert i I)"
    by (intro ext) (auto simp: blob_after_def)
  ultimately show ?thesis by (simp add: migrated_def)
qed

lemma row_migrates_migrated: "row_migrates plan names (migrated plan names I d) r = row_migrates plan names d r"
proof -
  have ids: "b_id ` set (ms_blobs (migrated plan names I d)) = b_id ` set (ms_blobs d)"
    by (simp add: image_image)
  have "lets_migrate (migrated plan names I d) = lets_migrate d"
  proof (intro ext)
    show "lets_migrate (migrated plan names I d) xs r new g = lets_migrate d xs r new g" for xs r new g
      by (cases g) (simp_all add: step_exists_def)
  qed
  then show ?thesis by (simp only: row_migrates_def table_def_def ids migrated_frame)
qed

text \<open>All rows of a batch.\<close>

lemma batch_rows_effect:
  assumes "batch_rows plan names rs ([], d) = Inr (ys, d')"
    and "distinct (map data_key (data d))" "set rs \<subseteq> set (data d)" "\<forall>r \<in> set rs. d_table r = mg_table plan"
    and "distinct (map d_id rs)"
  shows "ys = [] \<and> d' = migrated plan names (d_id ` set rs) d \<and> (\<forall>r \<in> set rs. row_migrates plan names d r)"
  using assms
proof (induction rs arbitrary: d)
  case (Cons r rs)
  from Cons.prems(1) obtain zs d1 where
    1: "batch_row plan names r ([], d) = Inr (zs, d1)" and 2: "batch_rows plan names rs (zs, d1) = Inr (ys, d')"
    by auto
  have e: "zs = []" "d1 = migrated plan names {d_id r} d" "row_migrates plan names d r"
    using batch_row_effect [OF 1 Cons.prems(2)] Cons.prems by simp_all
  have "x \<in> set (data d1)" if "x \<in> set rs" for x
  proof -
    have "d_id x \<noteq> d_id r" using that Cons.prems(5) by (metis distinct.simps(2) image_eqI list.simps(9) set_map)
    then show ?thesis using that Cons.prems(3) by (force simp: e row_after_def)
  qed
  then have "ys = [] \<and> d' = migrated plan names (d_id ` set rs) d1 \<and> (\<forall>r \<in> set rs. row_migrates plan names d1 r)"
    using Cons.IH [of d1] 2 Cons.prems(2,4,5) by (simp add: e subset_iff)
  then show ?case
    using Cons.prems(5) migrated_insert [of "d_id r" "d_id ` set rs" plan names d] e(3)
    by (auto simp: e(2) row_migrates_migrated)
qed simp

section \<open>One batch\<close>

lemma set_next_rows: "set (next_rows plan mark n d) \<subseteq> set (source_rows plan d)"
  using set_take_subset by (fastforce simp: next_rows_def)

lemma source_rows_D:
  "r \<in> set (source_rows plan d) \<Longrightarrow> r \<in> set (data d) \<and> d_table r = mg_table plan \<and>
     d_schema_version r = sc_version (mg_source plan)"
  by (simp add: source_rows_def)

lemma distinct_source_ids:
  assumes "distinct (map data_key (data d))" shows "distinct (map d_id (source_rows plan d))"
proof -
  have "distinct (map data_key (source_rows plan d))"
    unfolding source_rows_def using assms by (rule distinct_map_filter)
  moreover have "inj_on d_id (set (source_rows plan d))" if "inj_on data_key (set (source_rows plan d))"
  proof (rule inj_onI)
    fix x y assume x: "x \<in> set (source_rows plan d)" "y \<in> set (source_rows plan d)" "d_id x = d_id y"
    then have "data_key x = data_key y" by (simp add: data_key_def source_rows_D)
    with that x show "x = y" by (simp add: inj_on_def)
  qed
  ultimately show ?thesis by (simp add: distinct_map)
qed

lemma distinct_next_ids:
  assumes "distinct (map data_key (data d))" shows "distinct (map d_id (next_rows plan mark n d))"
proof -
  let ?P = "\<lambda>r. case mark of None \<Rightarrow> True | Some i \<Rightarrow> i < d_id r"
  have "distinct (map d_id (filter ?P (source_rows plan d)))"
    using distinct_source_ids [OF assms] by (rule distinct_map_filter)
  then have "distinct (map d_id (sort_key d_id (filter ?P (source_rows plan d))))"
    by (simp add: distinct_map)
  then have "distinct (take (nat n) (map d_id (sort_key d_id (filter ?P (source_rows plan d)))))"
    by (rule distinct_take)
  then show ?thesis by (simp add: next_rows_def take_map)
qed

lemma row_with_map:
  "(\<And>r. key (f r) = key r) \<Longrightarrow> row_with key k (map f rows) = map_option f (row_with key k rows)"
  by (induction rows) auto

lemma status_update_job:
  "status name d = Inr job \<Longrightarrow> status name (update_job name n mark running d) =
     Inr (job\<lparr> j_migrated := j_migrated job + n, j_last_id := mark, j_running := running \<rparr>)"
  by (auto simp: status_def update_job_def has_object_def row_with_map dest: row_with_SomeD)

lemma status_migrated [simp]: "status name (migrated plan names I d) = status name d"
  by (simp add: status_def has_object_def)

lemma batch_of_Inr:
  assumes "batch_of plan n job ([], d) = Inr (job', xs, d')"
  obtains schemas d1 where "all_ready plan d" "declarations d (sc_name (mg_source plan)) = Inr schemas"
    "batch_rows plan (all_fields schemas) (next_rows plan (j_last_id job) n d) ([], d) = Inr (xs, d1)"
    "source_rows plan d1 \<noteq> [] \<longrightarrow> next_rows plan (j_last_id job) n d \<noteq> []"
    "d' = update_job (mg_name plan) (int (length (next_rows plan (j_last_id job) n d)))
            (checkpoint job (next_rows plan (j_last_id job) n d)) (source_rows plan d1 \<noteq> []) d1"
    "status (mg_name plan) d' = Inr job'"
proof -
  let ?rs = "next_rows plan (j_last_id job) n d"
  from assms obtain schemas r where 1: "all_ready plan d" "declarations d (sc_name (mg_source plan)) = Inr schemas"
    "batch_rows plan (all_fields schemas) ?rs ([], d) = Inr r" and
    2: "(case r of (xs, d1) \<Rightarrow>
         let remaining = (source_rows plan d1 \<noteq> []) in
         ebind (require (remaining \<longrightarrow> ?rs \<noteq> []) ConflictError
                  ''Source rows exist behind the checkpoint; catalog needs inspection'') (\<lambda>_.
         let d' = update_job (mg_name plan) (int (length ?rs)) (checkpoint job ?rs) remaining d1 in
         ebind (status (mg_name plan) d') (\<lambda>job'. Inr (job', xs, d')))) = Inr (job', xs, d')"
    unfolding batch_of_def Let_def snd_conv ebind_eq_Inr require_eq_Inr by blast
  obtain ys d1 where r: "r = (ys, d1)" by (cases r)
  from 2 have "source_rows plan d1 \<noteq> [] \<longrightarrow> ?rs \<noteq> []" "ys = xs"
    "d' = update_job (mg_name plan) (int (length ?rs)) (checkpoint job ?rs) (source_rows plan d1 \<noteq> []) d1"
    "status (mg_name plan) d' = Inr job'"
    unfolding r Let_def prod.case ebind_eq_Inr require_eq_Inr by blast+
  with 1 r show ?thesis by (intro that) simp_all
qed

lemma batch_effect:
  assumes b: "batch plan n ([], d) = Inr (job', xs, d')" and k: "distinct (map data_key (data d))"
  obtains (complete) "status (mg_name plan) d = Inr job'" "\<not> j_running job'" "xs = []" "d' = d"
  | (rows) job schemas rs I names d1 where
      "status (mg_name plan) d = Inr job" "j_running job" "all_ready plan d" "xs = []"
      "declarations d (sc_name (mg_source plan)) = Inr schemas" "names = all_fields schemas"
      "rs = next_rows plan (j_last_id job) n d" "I = d_id ` set rs" "d1 = migrated plan names I d"
      "d' = update_job (mg_name plan) (int (length rs))
              (checkpoint job rs) (source_rows plan d1 \<noteq> []) d1"
      "job' = job\<lparr> j_migrated := j_migrated job + int (length rs),
                  j_last_id := (checkpoint job rs),
                  j_running := source_rows plan d1 \<noteq> [] \<rparr>"
      "\<forall>r \<in> set rs. row_migrates plan names d r" "rs = [] \<longrightarrow> source_rows plan d1 = []"
proof -
  obtain job where job: "status (mg_name plan) d = Inr job"
    using b unfolding batch_def by (cases "status (mg_name plan) d") simp_all
  show ?thesis
  proof (cases "j_running job")
    case False
    with b job have "job' = job" "xs = []" "d' = d" by (simp_all add: batch_def)
    with job False show ?thesis using complete by blast
  next
    case True
    let ?rs = "next_rows plan (j_last_id job) n d"
    from b job True have "batch_of plan n job ([], d) = Inr (job', xs, d')" by (simp add: batch_def)
    then obtain schemas d1 where a: "all_ready plan d" and
      s: "declarations d (sc_name (mg_source plan)) = Inr schemas" and
      e: "batch_rows plan (all_fields schemas) ?rs ([], d) = Inr (xs, d1)" and
      z: "source_rows plan d1 \<noteq> [] \<longrightarrow> ?rs \<noteq> []" and
      d': "d' = update_job (mg_name plan) (int (length ?rs)) (checkpoint job ?rs) (source_rows plan d1 \<noteq> []) d1" and
      j: "status (mg_name plan) d' = Inr job'"
      by (rule batch_of_Inr)
    have "set ?rs \<subseteq> set (data d)" "\<forall>r \<in> set ?rs. d_table r = mg_table plan"
      using set_next_rows [of plan "j_last_id job" n d] by (auto dest: source_rows_D)
    from batch_rows_effect [OF e k this distinct_next_ids [OF k]]
    have r: "xs = []" "d1 = migrated plan (all_fields schemas) (d_id ` set ?rs) d"
      "\<forall>r \<in> set ?rs. row_migrates plan (all_fields schemas) d r" by blast+
    have "status (mg_name plan) d1 = Inr job" using job by (simp add: r(2))
    then have "job' = job\<lparr> j_migrated := j_migrated job + int (length ?rs), j_last_id := checkpoint job ?rs,
        j_running := source_rows plan d1 \<noteq> [] \<rparr>"
      using j d' status_update_job by auto
    from rows [OF job True a r(1) s refl refl refl r(2) d' this r(3)] z show ?thesis by blast
  qed
qed

end
