(* ===== verification/MigrationRuns.thy ===== *)
theory MigrationRuns imports MigrationSteps begin

text \<open>
  The loop of a migration run: every batch makes progress, so the loop returns, and when it returns a
  completed job every source row has been migrated exactly once.
\<close>

section \<open>Progress of a batch\<close>

lemma row_after_unmoved: "d_id r \<notin> I \<Longrightarrow> row_after plan names I r = r"
  by (simp add: row_after_def)

lemma row_after_moved:
  "row_migrates plan names d r \<Longrightarrow> d_table r = mg_table plan \<Longrightarrow> d_id r \<in> I \<Longrightarrow>
     d_schema_version (row_after plan names I r) = sc_version (mg_target plan)"
  by (auto simp: row_after_def row_migrates_def migrate_of_def)

lemma source_rows_migrated:
  assumes k: "distinct (map data_key (data d))" and rs: "set rs \<subseteq> set (source_rows plan d)"
    and m: "\<forall>r \<in> set rs. row_migrates plan names d r"
    and v: "sc_version (mg_target plan) \<noteq> sc_version (mg_source plan)"
  shows "source_rows plan (migrated plan names (d_id ` set rs) d) =
    filter (\<lambda>r. r \<notin> set rs) (source_rows plan d)"
proof -
  let ?f = "row_after plan names (d_id ` set rs)"
  let ?P = "\<lambda>r. d_table r = mg_table plan \<and> d_schema_version r = sc_version (mg_source plan)"
  have same: "(?P (?f r) = (?P r \<and> r \<notin> set rs)) \<and> (?P (?f r) \<longrightarrow> ?f r = r)" if r: "r \<in> set (data d)" for r
  proof (cases "d_table r = mg_table plan \<and> d_id r \<in> d_id ` set rs")
    case True
    then obtain x where x: "x \<in> set rs" "d_id x = d_id r" by auto
    with rs have "x \<in> set (data d)" "d_table x = mg_table plan" by (auto dest: source_rows_D)
    with True x r k have "x = r" using distinct_map_inj [of data_key "data d" x r] by (simp add: data_key_def)
    with x m True v row_after_moved [of plan names d r "d_id ` set rs"] show ?thesis by auto
  next
    case False
    then have "?f r = r" unfolding row_after_def by (rule if_not_P)
    with False show ?thesis by auto
  qed
  have "filter ?P (map ?f (data d)) = map ?f (filter (?P \<circ> ?f) (data d))"
    by (simp add: filter_map)
  also have "filter (?P \<circ> ?f) (data d) = filter (\<lambda>r. ?P r \<and> r \<notin> set rs) (data d)"
    by (rule filter_cong [OF refl]) (use same in simp)
  also have "map ?f \<dots> = \<dots>"
    by (rule map_idI) (use same in auto)
  finally show ?thesis
    by (simp add: source_rows_def conj_commute)
qed

lemma length_filter_notin:
  assumes "distinct xs" "distinct ys" "set ys \<subseteq> set xs"
  shows "length (filter (\<lambda>x. x \<notin> set ys) xs) + length ys = length xs"
proof -
  have "set (filter (\<lambda>x. x \<in> set ys) xs) = set ys" using assms(3) by auto
  then have "length (filter (\<lambda>x. x \<in> set ys) xs) = length ys"
    using assms(1,2) by (metis distinct_card distinct_filter)
  then show ?thesis using sum_length_filter_compl [of "\<lambda>x. x \<in> set ys" xs] by simp
qed

lemma distinct_of_map: "distinct (map f xs) \<Longrightarrow> distinct xs"
  by (simp add: distinct_map)

lemma migrated_compose:
  "I \<inter> J = {} \<Longrightarrow> migrated plan names J (migrated plan names I d) = migrated plan names (I \<union> J) d"
proof -
  assume "I \<inter> J = {}"
  then have "row_after plan names J \<circ> row_after plan names I = row_after plan names (I \<union> J)"
    by (intro ext) (auto simp: row_after_def)
  moreover have "blob_after plan J \<circ> blob_after plan I = blob_after plan (I \<union> J)"
    by (intro ext) (auto simp: blob_after_def)
  ultimately show ?thesis by (simp add: migrated_def)
qed

text \<open>The database after the identities \<open>I\<close> have been migrated, up to the progress of the job.\<close>

definition moved :: "migration \<Rightarrow> string list \<Rightarrow> string set \<Rightarrow> db \<Rightarrow> db \<Rightarrow> bool" where
  "moved plan names I d d' = (\<exists>js. d' = (migrated plan names I d)\<lparr> ms_migrations := js \<rparr>)"

lemma moved_refl [simp]: "moved plan names {} d d"
  unfolding moved_def by (intro exI [of _ "ms_migrations d"]) simp

lemma migrated_jobs [simp]:
  "migrated plan names I (d\<lparr> ms_migrations := js \<rparr>) = (migrated plan names I d)\<lparr> ms_migrations := js \<rparr>"
  by (simp add: migrated_def)

lemma moved_trans:
  "moved plan names I d d1 \<Longrightarrow> moved plan names J d1 d2 \<Longrightarrow> I \<inter> J = {} \<Longrightarrow> moved plan names (I \<union> J) d d2"
  by (auto simp: moved_def migrated_compose)

lemma moved_frame:
  assumes "moved plan names I d d'"
  shows "ms_schemas d' = ms_schemas d" "objects d' = objects d" "map data_key (data d') = map data_key (data d)"
    "data d' = map (row_after plan names I) (data d)" "ms_blobs d' = map (blob_after plan I) (ms_blobs d)"
  using assms by (auto simp: moved_def)

lemma declarations_moved: "moved plan names I d d' \<Longrightarrow> declarations d' n = declarations d n"
  by (simp add: declarations_def moved_frame)

lemma source_rows_jobs [simp]: "source_rows plan (d\<lparr> ms_migrations := js \<rparr>) = source_rows plan d"
  by (simp add: source_rows_def)

definition source_ids :: "migration \<Rightarrow> db \<Rightarrow> string set" where
  "source_ids plan d = d_id ` set (source_rows plan d)"

text \<open>What one batch of a running job leaves to do, and what it has done.\<close>

lemma batch_progress:
  assumes b: "batch plan n ([], d) = Inr (job', xs, d')" and k: "distinct (map data_key (data d))"
    and v: "sc_version (mg_target plan) \<noteq> sc_version (mg_source plan)"
    and j: "status (mg_name plan) d = Inr job" "j_running job"
    and s: "declarations d (sc_name (mg_source plan)) = Inr schemas"
  obtains I where "moved plan (all_fields schemas) I d d'" "status (mg_name plan) d' = Inr job'"
    "I \<subseteq> source_ids plan d" "source_ids plan d' = source_ids plan d - I"
    "j_migrated job' + int (length (source_rows plan d')) = j_migrated job + int (length (source_rows plan d))"
    "j_running job' = (source_rows plan d' \<noteq> [])" "j_total job' = j_total job"
    "source_rows plan d' \<noteq> [] \<longrightarrow> length (source_rows plan d') < length (source_rows plan d)"
  using b k
proof (cases rule: batch_effect)
  case (rows job1 schemas1 rs I names d1)
  have e: "job1 = job" "names = all_fields schemas" using rows(1,5,6) j s by simp_all
  have sub: "set rs \<subseteq> set (source_rows plan d)" using rows(7) set_next_rows by simp
  have left: "source_rows plan d1 = filter (\<lambda>r. r \<notin> set rs) (source_rows plan d)"
    using source_rows_migrated [OF k sub _ v] rows(8,9,12) by blast
  have ids: "distinct (map d_id (source_rows plan d))" "distinct (map d_id rs)"
    using distinct_source_ids [OF k] distinct_next_ids [OF k] rows(7) by simp_all
  have len: "length (source_rows plan d1) + length rs = length (source_rows plan d)"
    unfolding left by (rule length_filter_notin) (use ids distinct_of_map sub in blast)+
  have d': "d' = d1\<lparr> ms_migrations := ms_migrations d' \<rparr>" by (simp add: rows(10) update_job_def)
  then have src: "source_rows plan d' = source_rows plan d1" by (metis source_rows_jobs)
  have mv: "moved plan (all_fields schemas) I d d'" using d' rows(9) e(2) by (auto simp: moved_def)
  have I: "I \<subseteq> source_ids plan d" using sub rows(8) by (auto simp: source_ids_def)
  have "source_ids plan d1 = source_ids plan d - I"
    unfolding source_ids_def left rows(8) using ids(1) sub
    by (auto simp: distinct_map inj_on_def)
  then have diff: "source_ids plan d' = source_ids plan d - I" by (simp add: source_ids_def src)
  have "status (mg_name plan) d1 = Inr job" using j rows(9) by simp
  then have st: "status (mg_name plan) d' = Inr job'"
    using status_update_job rows(10,11) e by simp
  have shrink: "source_rows plan d' \<noteq> [] \<longrightarrow> length (source_rows plan d') < length (source_rows plan d)"
    using rows(13) len src by (cases rs) auto
  show ?thesis
    by (rule that [OF mv st I diff _ _ _ shrink]) (use rows(11) len src e in auto)
qed (use j in simp)

section \<open>The loop of batches\<close>

lemma batch_tx_cases:
  obtains e where "batch_tx plan n d = (d, Inl e)"
  | job' xs d' where "batch_tx plan n d = (d', Inr job')" "batch plan n ([], d) = Inr (job', xs, d')" "deferred_ok d'"
proof (cases "batch plan n ([], d)")
  case (Inl e)
  then show ?thesis using that(1) by (simp add: batch_tx_def transact_def)
next
  case (Inr x)
  then show ?thesis using that
    by (cases x; cases "deferred_ok (snd (snd x))") (auto simp: batch_tx_def transact_def)
qed

lemma run_batches_returns:
  assumes "distinct (map data_key (data d))"
    and v: "sc_version (mg_target plan) \<noteq> sc_version (mg_source plan)"
    and "status (mg_name plan) d = Inr job" "j_running job"
    and "declarations d (sc_name (mg_source plan)) = Inr schemas"
  shows "\<exists>d' r. run_batches plan n None k job d = Some (d', r) \<and>
    (\<forall>job'. r = Inr job' \<longrightarrow> \<not> j_running job' \<and> source_rows plan d' = [] \<and>
       moved plan (all_fields schemas) (source_ids plan d) d d' \<and> status (mg_name plan) d' = Inr job' \<and> j_total job' = j_total job \<and>
       j_migrated job' = j_migrated job + int (length (source_rows plan d)))"
  using assms(1,3-5)
proof (induction "length (source_rows plan d)" arbitrary: d job k rule: less_induct)
  case less
  show ?case
  proof (cases rule: batch_tx_cases [of plan n d])
    case (1 e)
    then show ?thesis using less.prems(3) by (subst run_batches.simps) simp
  next
    case (2 job1 xs d1)
    obtain I where I: "moved plan (all_fields schemas) I d d1" "status (mg_name plan) d1 = Inr job1"
      "I \<subseteq> source_ids plan d" "source_ids plan d1 = source_ids plan d - I"
      "j_migrated job1 + int (length (source_rows plan d1)) = j_migrated job + int (length (source_rows plan d))"
      "j_running job1 = (source_rows plan d1 \<noteq> [])" "j_total job1 = j_total job"
      "source_rows plan d1 \<noteq> [] \<longrightarrow> length (source_rows plan d1) < length (source_rows plan d)"
      by (rule batch_progress [OF 2(2) less.prems(1) v less.prems(2-4)]) blast
    have step: "run_batches plan n None k job d = run_batches plan n None (k + 1) job1 d1"
      by (subst run_batches.simps) (simp add: less.prems(3) 2(1))
    show ?thesis
    proof (cases "source_rows plan d1 = []")
      case True
      then have "I = source_ids plan d" using I(3,4) by (auto simp: source_ids_def)
      moreover have "run_batches plan n None (k + 1) job1 d1 = Some (d1, Inr job1)"
        using True I(6) by (subst run_batches.simps) simp
      ultimately show ?thesis using step True I by auto
    next
      case False
      have k1: "distinct (map data_key (data d1))" using moved_frame(3) [OF I(1)] less.prems(1) by simp
      have s1: "declarations d1 (sc_name (mg_source plan)) = Inr schemas"
        using declarations_moved [OF I(1)] less.prems(4) by simp
      obtain d' r where r: "run_batches plan n None (k + 1) job1 d1 = Some (d', r)"
        and ok: "\<forall>job'. r = Inr job' \<longrightarrow> \<not> j_running job' \<and> source_rows plan d' = [] \<and>
          moved plan (all_fields schemas) (source_ids plan d1) d1 d' \<and> status (mg_name plan) d' = Inr job' \<and> j_total job' = j_total job1 \<and>
          j_migrated job' = j_migrated job1 + int (length (source_rows plan d1))"
        using less.hyps [of d1 job1 "k + 1"] False I(2,6,8) k1 s1 by blast
      have "moved plan (all_fields schemas) (source_ids plan d) d d'"
        if "moved plan (all_fields schemas) (source_ids plan d1) d1 d'"
      proof -
        have "I \<union> source_ids plan d1 = source_ids plan d" "I \<inter> source_ids plan d1 = {}" using I(3,4) by auto
        then show ?thesis using moved_trans [OF I(1) that] by simp
      qed
      then show ?thesis using step r ok I(5,7) by simp
    qed
  qed
qed

end
