(* ===== verification/MigrationStart.thy ===== *)
theory MigrationStart
  imports MigrationRuns NewCatalog
begin

text \<open>
  What a successful start of a metadata migration does to the catalog: the rebuilt data table with
  its library objects, the objects that survive the rebuild, the registered target version, and the
  new job. Coordination hooks are application code that may change anything; the effects are stated
  for plans without them.
\<close>


section \<open>Changes of the installed objects\<close>

lemma map_of_filter_keep: "map_of xs n = Some v \<Longrightarrow> P (n, v) \<Longrightarrow> map_of (filter P xs) n = Some v"
  by (induction xs) (auto split: if_splits)

lemma create_effect:
  "create x d = Inr d' \<Longrightarrow> d' = d\<lparr> objects := objects d @ [x] \<rparr> \<and> lower_name x \<notin> lower_name ` set (objects d)"
  by (auto simp: create_def lower_name_def)

lemma create_over_effect:
  "create_over x d = Inr d' \<Longrightarrow> d' = d\<lparr> objects := objects d @ [x] \<rparr> \<and> lower_name x \<notin> lower_name ` set (objects d)"
  using create_effect by (auto simp: create_over_def)

lemma create_all_over_effect:
  "create_all_over xs d = Inr d' \<Longrightarrow>
     d' = d\<lparr> objects := objects d @ xs \<rparr> \<and> lower_name ` set xs \<inter> lower_name ` set (objects d) = {} \<and>
     distinct (map lower_name xs)"
proof (induction xs arbitrary: d)
  case (Cons x xs)
  from Cons.prems obtain d1 where d1: "create_over x d = Inr d1" "create_all_over xs d1 = Inr d'" by auto
  note e = create_over_effect [OF d1(1)]
  show ?case using Cons.IH [OF d1(2)] e by auto
qed simp

lemma map_of_appended:
  assumes "lower_name x \<notin> lower_name ` set xs" shows "map_of (xs @ [x]) (fst x) = Some (snd x)"
  using fresh_map_of [OF assms] by (cases x) (simp add: map_of_append map_add_def)

section \<open>The rebuilt table\<close>

lemma insert_rows_into_effect:
  assumes "insert_rows_into t names rows d = Inr d'"
  shows "\<exists>def. table_def d t = Inr def \<and> set names \<subseteq> fst ` set (def_columns def) \<and>
    d' = d\<lparr> data := data d @ map (widen def) rows \<rparr> \<and>
    list_all (\<lambda>r. row_checks def (d_schema_version r) (d_cols r)) (map (widen def) rows)"
  using assms unfolding insert_rows_into_def ebind_eq_Inr require_eq_Inr checked_Inr Let_def by auto

lemma replace_table_effect:
  assumes "replace_table app backup t extras new d = Inr d'"
  obtains old_def def where "table_def d t = Inr old_def" "map_of new t = Some def" "as_table def = Some def"
    "fst ` set (def_columns old_def) \<subseteq> fst ` set (def_columns def)"
    "d' = d\<lparr> objects := objects (drop_table app t d) @ [(t, def)] @ filter (\<lambda>x. fst x \<noteq> t) new @ extras,
             data := filter (\<lambda>r. d_table r \<noteq> t) (data d) @ map (widen def) (filter (\<lambda>r. d_table r = t) (data d)) \<rparr>"
    "distinct (map lower_name (filter (\<lambda>x. fst x \<noteq> t) new @ extras))"
    "lower_name ` set (filter (\<lambda>x. fst x \<noteq> t) new @ extras) \<inter> lower_name ` set (objects (drop_table app t d) @ [(t, def)]) = {}"
    "lower_name (t, def) \<notin> lower_name ` set (objects (drop_table app t d))"
proof -
  let ?rows = "filter (\<lambda>r. d_table r = t) (data d)"
  from assms obtain old_def def d1 d2 d3 where
    o: "table_def d t = Inr old_def" and m: "map_of new t = Some def" and
    1: "create (t, def) (drop_table app t d) = Inr d1" and
    2: "insert_rows_into t (map fst (def_columns old_def)) ?rows d1 = Inr d2" and
    3: "create_all_over (filter (\<lambda>x. fst x \<noteq> t) new) d2 = Inr d3" and 4: "create_all_over extras d3 = Inr d'"
    unfolding replace_table_def ebind_eq_Inr expect_eq_Inr Let_def by blast
  note e1 = create_effect [OF 1] and e3 = create_all_over_effect [OF 3] and e4 = create_all_over_effect [OF 4]
  obtain def' where def': "table_def d1 t = Inr def'" "set (map fst (def_columns old_def)) \<subseteq> fst ` set (def_columns def')"
    "d2 = d1\<lparr> data := data d1 @ map (widen def') ?rows \<rparr>"
    using insert_rows_into_effect [OF 2] by blast
  have "map_of (objects d1) t = Some def" using e1 map_of_appended [of "(t, def)"] by auto
  with def'(1) have same: "def' = def" "as_table def = Some def" by (auto simp: table_def_Inr)
  have d2: "d2 = d\<lparr> objects := objects (drop_table app t d) @ [(t, def)],
      data := filter (\<lambda>r. d_table r \<noteq> t) (data d) @ map (widen def) ?rows \<rparr>"
    using def'(3) e1 same(1) by (simp add: drop_table_def)
  let ?new = "filter (\<lambda>x. fst x \<noteq> t) new"
  have d': "d' = d2\<lparr> objects := objects d2 @ ?new @ extras \<rparr>" using e3 e4 by simp
  have "distinct (map lower_name (?new @ extras))" using e3 e4 by (auto simp: image_Un)
  moreover have "lower_name ` set (?new @ extras) \<inter> lower_name ` set (objects d2) = {}"
    using e3 e4 by (auto simp: image_Un)
  moreover have "fst ` set (def_columns old_def) \<subseteq> fst ` set (def_columns def)" using def'(2) same(1) by simp
  ultimately show ?thesis
    by (intro that [OF o m same(2)]) (simp_all add: d' d2 e1)
qed

text \<open>An object survives the rebuild, unless it is the table or one of its library indexes and triggers.\<close>

lemma replace_table_keeps:
  assumes r: "replace_table app backup t (extras_of app t old d) new d = Inr d'"
    and v: "map_of (objects d) n = Some v" "n \<noteq> t" "on_table app t v \<longrightarrow> n \<notin> fst ` set old"
  shows "map_of (objects d') n = Some v"
  using r
proof (cases rule: replace_table_effect)
  case (1 old_def def)
  let ?ys = "filter (\<lambda>x. fst x \<noteq> t) new @ extras_of app t old d"
  let ?xs = "objects (drop_table app t d) @ [(t, def)]"
  have objs: "objects d' = ?xs @ ?ys" by (simp add: 1(5))
  show ?thesis
  proof (cases "on_table app t v")
    case True
    then have "(n, v) \<in> set ?ys" using v map_of_SomeD [OF v(1)] by (simp add: extras_of_def)
    then show ?thesis unfolding objs using map_of_fresh [OF 1(7,6)] by blast
  next
    case False
    then have "map_of (objects (drop_table app t d)) n = Some v"
      using map_of_filter_keep [OF v(1), of "\<lambda>(n, def). n \<noteq> t \<and> \<not> on_table app t def"] v(2) by (simp add: drop_table_def)
    then show ?thesis unfolding objs by (intro map_of_keep)
  qed
qed

lemma rebuild_effect:
  assumes "rebuild_table app backup plan old new d = Inr d'" and "mg_before plan = None" "mg_after plan = None"
  shows "replace_table app backup (mg_table plan) (extras_of app (mg_table plan) old d) new d = Inr d' \<and>
    verify_objects new d' = Inr () \<and> foreign_key_check d' = [] \<and> incoming app (mg_table plan) d = []"
proof -
  from assms obtain d1 where "incoming app (mg_table plan) d = []"
    "replace_table app backup (mg_table plan) (extras_of app (mg_table plan) old d) new d = Inr d1" "d' = d1"
    "verify_objects new d1 = Inr ()" "foreign_key_check d1 = []"
    unfolding rebuild_table_def ebind_eq_Inr require_eq_Inr Let_def run_hook_def
    by (auto simp: assms(2,3))
  then show ?thesis by blast
qed

lemma insert_migration_effect:
  "insert_migration job d = Inr d' \<Longrightarrow> d' = d\<lparr> ms_migrations := ms_migrations d @ [job] \<rparr> \<and>
     j_name job \<notin> j_name ` set (ms_migrations d)"
  unfolding insert_migration_def ebind_eq_Inr checked_Inr by auto

definition enrolled_layouts :: "migration \<Rightarrow> db \<Rightarrow> string list" where
  "enrolled_layouts plan d =
     (if sc_name (mg_source plan) \<in> set (ms_metadata_layouts d) then ms_metadata_layouts d
      else ms_metadata_layouts d @ [sc_name (mg_source plan)])"

definition target_guard :: "migration \<Rightarrow> string \<times> sqldef" where
  "target_guard plan = ready_guard (mg_target plan) True"

lemma enrol_effect:
  assumes "enrol plan d = Inr d'"
  shows "d' = d\<lparr> ms_metadata_layouts := enrolled_layouts plan d,
      objects := filter (\<lambda>x. fst x \<noteq> fst (target_guard plan)) (objects d) @ [target_guard plan],
      ms_payload_schemas := ms_payload_schemas d @ [(sc_name (mg_target plan), sc_version (mg_target plan))],
      ms_migrations := ms_migrations d @ [new_job plan d] \<rparr> \<and>
    lower_name (target_guard plan) \<notin> lower_name ` set (filter (\<lambda>x. fst x \<noteq> fst (target_guard plan)) (objects d)) \<and>
    mg_name plan \<notin> j_name ` set (ms_migrations d) \<and>
    (sc_name (mg_target plan), sc_version (mg_target plan)) \<notin> set (ms_payload_schemas d)"
proof -
  let ?key = "(sc_name (mg_target plan), sc_version (mg_target plan))"
  let ?d0 = "d\<lparr> ms_metadata_layouts := enrolled_layouts plan d \<rparr>"
  from assms obtain d1 where 1: "replace_guard (target_guard plan) ?d0 = Inr d1"
    and k: "?key \<notin> set (ms_payload_schemas d1)"
    and 2: "insert_migration (new_job plan d1) (d1\<lparr> ms_payload_schemas := ms_payload_schemas d1 @ [?key] \<rparr>) = Inr d'"
    unfolding enrol_def Let_def enrolled_layouts_def target_guard_def ebind_eq_Inr checked_Inr by blast
  from 1 have e1: "d1 = ?d0\<lparr> objects := filter (\<lambda>x. fst x \<noteq> fst (target_guard plan)) (objects d) @ [target_guard plan] \<rparr>"
    "lower_name (target_guard plan) \<notin> lower_name ` set (filter (\<lambda>x. fst x \<noteq> fst (target_guard plan)) (objects d))"
    using create_effect [of "target_guard plan" "?d0\<lparr> objects := filter (\<lambda>x. fst x \<noteq> fst (target_guard plan)) (objects ?d0) \<rparr>" d1]
    by (auto simp: replace_guard_def)
  have "new_job plan d1 = new_job plan d" by (simp add: new_job_def source_rows_def e1)
  with insert_migration_effect [OF 2] e1 k show ?thesis by (simp add: new_job_def)
qed

text \<open>The whole start of a new migration without hooks.\<close>

definition schema_row_of :: "blob_schema \<Rightarrow> schema_row" where
  "schema_row_of s = \<lparr> sr_name = sc_name s, sr_version = sc_version s, sr_table = table_name s,
     sr_definition = schema_definition s \<rparr>"

lemma start_migration_effect:
  assumes s: "start_migration app backup plan d = Inr (job, d')" and h: "mg_before plan = None" "mg_after plan = None"
  obtains schemas old new d1 d2 where
    "writable (mg_source plan) d = Inr ()" "all_ready plan d"
    "declarations d (sc_name (mg_source plan)) = Inr schemas"
    "(if evolved d (sc_name (mg_source plan)) then layout schemas else Inr (schema_objects (mg_source plan))) = Inr old"
    "layout (schemas @ [mg_target plan]) = Inr new"
    "d1 = d\<lparr> ms_schemas := ms_schemas d @ [schema_row_of (mg_target plan)] \<rparr>"
    "(sc_name (mg_target plan), sc_version (mg_target plan)) \<notin> schema_keys d"
    "replace_table app backup (mg_table plan) (extras_of app (mg_table plan) old d1) new d1 = Inr d2"
    "verify_objects new d2 = Inr ()" "foreign_key_check d2 = []"
    "enrol plan d2 = Inr d'" "status (mg_name plan) d' = Inr job"
proof -
  from s obtain u schemas old new d1 d2 where
    1: "writable (mg_source plan) d = Inr u" "all_ready plan d"
    "declarations d (sc_name (mg_source plan)) = Inr schemas"
    "(if evolved d (sc_name (mg_source plan)) then layout schemas else Inr (schema_objects (mg_source plan))) = Inr old"
    "layout (schemas @ [mg_target plan]) = Inr new" and
    2: "insert_schema (mg_target plan) d = Inr d1" and 3: "rebuild_table app backup plan old new d1 = Inr d2" and
    4: "enrol plan d2 = Inr d'" "status (mg_name plan) d' = Inr job"
    unfolding start_migration_def Let_def ebind_eq_Inr require_eq_Inr sum.inject prod.inject by blast
  note i = insert_schema_effect [OF 2]
  note r = rebuild_effect [OF 3 h]
  have "d1 = d\<lparr> ms_schemas := ms_schemas d @ [schema_row_of (mg_target plan)] \<rparr>"
    using i by (simp add: schema_row_of_def)
  from that [OF _ 1(2-5) this conjunct2 [OF i]] 1(1) r 4 show ?thesis by simp
qed

section \<open>The declarations of a name\<close>

lemma list_all2_right: "list_all2 P xs ys \<Longrightarrow> y \<in> set ys \<Longrightarrow> \<exists>x \<in> set xs. P x y"
  by (induction rule: list_all2_induct) auto

lemma list_all2_left: "list_all2 P xs ys \<Longrightarrow> x \<in> set xs \<Longrightarrow> \<exists>y \<in> set ys. P x y"
  by (induction rule: list_all2_induct) auto

lemma declared:
  assumes c: "declarations d n = Inr schemas" and R: "registry_ok d"
  shows "s \<in> set schemas \<Longrightarrow> \<exists>s0. wf_declared s0 \<and> registered d s0 \<and> sc_name s0 = n \<and>
      s = s0\<lparr> sc_payload_validator := map_option (\<lambda>_. unavailable_validator) (sc_validator_id s0) \<rparr>"
    and "registered d s \<Longrightarrow> sc_name s = n \<Longrightarrow> \<exists>s' \<in> set schemas. sc_fields s' = sc_fields s \<and> sc_version s' = sc_version s"
proof -
  let ?rows = "sort_key sr_version (filter (\<lambda>r. sr_name r = n) (ms_schemas d))"
  have l: "list_all2 (\<lambda>r s. decode (sr_definition r) = Inr s) ?rows schemas"
    using c by (simp add: declarations_def emapM_eq_Inr)
  have dec: "\<exists>s0. wf_declared s0 \<and> registered d s0 \<and> sc_name s0 = n \<and> sr_definition r = schema_definition s0 \<and>
      decode (sr_definition r) = Inr (s0\<lparr> sc_payload_validator := map_option (\<lambda>_. unavailable_validator) (sc_validator_id s0) \<rparr>)"
    if "r \<in> set ?rows" for r
  proof -
    from that have r: "r \<in> set (ms_schemas d)" "sr_name r = n" by simp_all
    with R obtain s0 where s0: "wf_declared s0" "sr_name r = sc_name s0" "sr_version r = sc_version s0"
      "sr_definition r = schema_definition s0" unfolding registry_ok_def by blast
    with r decode_definition [OF s0(1)] show ?thesis
      by (intro exI [of _ s0]) (auto simp: registered_def)
  qed
  show "\<exists>s0. wf_declared s0 \<and> registered d s0 \<and> sc_name s0 = n \<and>
      s = s0\<lparr> sc_payload_validator := map_option (\<lambda>_. unavailable_validator) (sc_validator_id s0) \<rparr>"
    if "s \<in> set schemas"
  proof -
    from that l obtain r where r: "r \<in> set ?rows" "decode (sr_definition r) = Inr s"
      using list_all2_right [OF l] by blast
    with dec [OF r(1)] show ?thesis by auto
  qed
  show "\<exists>s' \<in> set schemas. sc_fields s' = sc_fields s \<and> sc_version s' = sc_version s"
    if s: "registered d s" "sc_name s = n"
  proof -
    from s obtain r where r: "r \<in> set ?rows" "sr_definition r = schema_definition s"
      unfolding registered_def by auto
    obtain s' where s': "s' \<in> set schemas" "decode (sr_definition r) = Inr s'"
      using list_all2_left [OF l r(1)] by blast
    from dec [OF r(1)] obtain s0 where "schema_definition s = schema_definition s0"
      "s' = s0\<lparr> sc_payload_validator := map_option (\<lambda>_. unavailable_validator) (sc_validator_id s0) \<rparr>"
      using s'(2) r(2) by auto
    with definition_determines [of s s0] s'(1) show ?thesis by (intro bexI [of _ s']) auto
  qed
qed

lemma layout_table:
  assumes "layout schemas = Inr new"
  shows "schemas \<noteq> [] \<and> map_of new (table_name (last schemas)) =
     Some (TableDef (sc_name (last schemas)) (map (\<lambda>s. (sc_version s, table_cols s)) schemas) True)"
  using assms by (auto simp: layout_def Let_def split: if_splits)

text \<open>The names of a layout: the table, its triggers and its numbered indexes.\<close>

lemma layout_names:
  assumes "layout schemas = Inr new" "n \<in> fst ` set new"
  shows "n = table_name (last schemas) \<or>
    (\<exists>s. n = table_name (last schemas) @ CHR ''_'' # s \<and> (s \<in> {''update'', ''insert'', ''delete''} \<or> hd s = CHR ''v''))"
  using assms by (auto simp: layout_def Let_def split: if_splits)

lemma underscore_not_hex: "CHR ''_'' \<notin> set (hex s)"
  using hex_chars [of "CHR ''_''" s] by (auto simp: is_hex_digit_def is_digit_def less_eq_char_def)

lemma table_name_apart: "data_table_of a \<noteq> data_table_of b @ CHR ''_'' # s"
proof
  assume "data_table_of a = data_table_of b @ CHR ''_'' # s"
  then have "hex a = hex b @ CHR ''_'' # s" by (simp add: data_table_of_def)
  then have "CHR ''_'' \<in> set (hex a)" by simp
  then show False using underscore_not_hex by blast
qed

lemma suffix_apart:
  assumes "data_table_of a @ CHR ''_'' # s = data_table_of b @ CHR ''_'' # s'" shows "s = s' \<and> a = b"
proof -
  have "takeWhile (\<lambda>c. c \<noteq> CHR ''_'') (hex x @ CHR ''_'' # u) = hex x" for x u
    using underscore_not_hex [of x] by (subst takeWhile_append2) auto
  moreover have "hex a @ CHR ''_'' # s = hex b @ CHR ''_'' # s'" using assms by (simp add: data_table_of_def)
  ultimately have "hex a = hex b" by metis
  with assms show ?thesis by (simp add: data_table_of_def)
qed

lemma ready_apart:
  "data_table_of a \<noteq> data_table_of b @ ''_ready''"
  "s \<in> {''update'', ''insert'', ''delete''} \<or> hd s = CHR ''v'' \<Longrightarrow>
   data_table_of a @ CHR ''_'' # s \<noteq> data_table_of b @ ''_ready''"
  using table_name_apart [of a b "''ready''"] suffix_apart [of a s b "''ready''"] by auto

lemma retire_not_old:
  assumes "(if ev then layout schemas else Inr (schema_objects s)) = Inr old"
    and "sc_name s = n" "\<forall>x \<in> set schemas. sc_name x = n"
  shows "data_table_of n @ ''_retire'' \<notin> fst ` set old"
proof (cases ev)
  case True
  with assms(1) have l: "layout schemas = Inr old" by simp
  then have ne: "schemas \<noteq> []" using layout_table by blast
  then have "table_name (last schemas) = data_table_of n" using assms(3) by (simp add: table_name_data)
  with l ne show ?thesis by (auto simp: layout_def Let_def)
next
  case False
  with assms show ?thesis by (auto simp: schema_objects_def Let_def table_name_data)
qed

section \<open>The start of a migration keeps the invariant\<close>

text \<open>A plan that \<open>mk_migration\<close> made of declared schemas, without coordination hooks.\<close>

definition plan_ok :: "migration \<Rightarrow> bool" where
  "plan_ok plan =
     (wf_declared (mg_source plan) \<and> wf_declared (mg_target plan) \<and>
      sc_name (mg_target plan) = sc_name (mg_source plan) \<and>
      sc_version (mg_target plan) = sc_version (mg_source plan) + 1 \<and>
      mg_before plan = None \<and> mg_after plan = None)"

definition rewiden :: "string \<Rightarrow> sqldef \<Rightarrow> data_row \<Rightarrow> data_row" where
  "rewiden t def r = (if d_table r = t then widen def r else r)"

lemma widen_simps [simp]:
  "data_key (widen def r) = data_key r" "d_id (widen def r) = d_id r" "d_table (widen def r) = d_table r"
  "d_schema_version (widen def r) = d_schema_version r" "d_version (widen def r) = d_version r"
  by (simp_all add: widen_def data_key_def)

lemma rewiden_simps [simp]:
  "data_key (rewiden t def r) = data_key r" "d_table (rewiden t def r) = d_table r" "d_id (rewiden t def r) = d_id r"
  "d_schema_version (rewiden t def r) = d_schema_version r" "d_version (rewiden t def r) = d_version r"
  by (simp_all add: rewiden_def)

lemma widen_col: "n \<in> fst ` set (def_columns def) \<Longrightarrow> col_value (d_cols (widen def r)) n = col_value (d_cols r) n"
  by (simp add: widen_def col_value_def [of "map f xs" for f xs] map_of_columns)

lemma widen_names: "map fst (d_cols (widen def r)) = map fst (def_columns def)"
  by (simp add: widen_def comp_def case_prod_beta)

text \<open>The effect of a successful start on the parts of the database.\<close>

definition started :: "app_sql \<Rightarrow> migration \<Rightarrow> sqldef \<Rightarrow> (string \<times> sqldef) list \<Rightarrow> db \<Rightarrow> db \<Rightarrow> bool" where
  "started app plan def old d d' =
     (formats d' = formats d \<and> ms_blobs d' = ms_blobs d \<and> ms_prepared d' = ms_prepared d \<and>
      ms_objects d' = ms_objects d \<and> ms_encodings d' = ms_encodings d \<and> ms_retired d' = ms_retired d \<and>
      ms_gc d' = ms_gc d \<and> app_refs d' = app_refs d \<and> ms_lifecycle_schemas d' = ms_lifecycle_schemas d \<and>
      ms_schemas d' = ms_schemas d @ [schema_row_of (mg_target plan)] \<and>
      ms_payload_schemas d' = ms_payload_schemas d @ [(sc_name (mg_target plan), sc_version (mg_target plan))] \<and>
      (sc_name (mg_target plan), sc_version (mg_target plan)) \<notin> schema_keys d \<and>
      ms_migrations d' = ms_migrations d @ [new_job plan d'] \<and> mg_name plan \<notin> j_name ` set (ms_migrations d) \<and>
      data d' = filter (\<lambda>r. d_table r \<noteq> mg_table plan) (data d) @
                map (widen def) (filter (\<lambda>r. d_table r = mg_table plan) (data d)) \<and>
      ms_metadata_layouts d' = enrolled_layouts plan d \<and>
      map_of (objects d') (mg_table plan) = Some def \<and>
      map_of (objects d') (fst (target_guard plan)) = Some (snd (target_guard plan)) \<and>
      (\<forall>n v. map_of (objects d) n = Some v \<longrightarrow> n \<noteq> mg_table plan \<longrightarrow> n \<noteq> fst (target_guard plan) \<longrightarrow>
         (on_table app (mg_table plan) v \<longrightarrow> n \<notin> fst ` set old) \<longrightarrow> map_of (objects d') n = Some v))"

lemma verify_objects_D: "verify_objects xs d = Inr u \<Longrightarrow> (n, v) \<in> set xs \<Longrightarrow> map_of (objects d) n = Some v"
  by (auto simp: verify_objects_def list_all_iff)

lemma guard_name: "fst (target_guard plan) = data_table_of (sc_name (mg_target plan)) @ ''_ready''"
  by (simp add: target_guard_def ready_guard_def table_name_data)

lemma start_migration_started:
  assumes s: "start_migration app backup plan d = Inr (job, d')" and p: "plan_ok plan"
  obtains schemas old new where
    "declarations d (sc_name (mg_source plan)) = Inr schemas"
    "(if evolved d (sc_name (mg_source plan)) then layout schemas else Inr (schema_objects (mg_source plan))) = Inr old"
    "layout (schemas @ [mg_target plan]) = Inr new" "status (mg_name plan) d' = Inr job"
    "started app plan (TableDef (sc_name (mg_target plan))
       (map (\<lambda>s. (sc_version s, table_cols s)) (schemas @ [mg_target plan])) True) old d d'"
    "verify_objects new d' = Inr ()"
proof -
  from p have h: "mg_before plan = None" "mg_after plan = None" and n: "sc_name (mg_target plan) = sc_name (mg_source plan)"
    by (simp_all add: plan_ok_def)
  from start_migration_effect [OF s h] obtain schemas old new d1 d2 where
    a: "declarations d (sc_name (mg_source plan)) = Inr schemas"
    "(if evolved d (sc_name (mg_source plan)) then layout schemas else Inr (schema_objects (mg_source plan))) = Inr old"
    "layout (schemas @ [mg_target plan]) = Inr new" and
    d1: "d1 = d\<lparr> ms_schemas := ms_schemas d @ [schema_row_of (mg_target plan)] \<rparr>"
    "(sc_name (mg_target plan), sc_version (mg_target plan)) \<notin> schema_keys d" and
    r: "replace_table app backup (mg_table plan) (extras_of app (mg_table plan) old d1) new d1 = Inr d2" and
    v: "verify_objects new d2 = Inr ()" and e: "enrol plan d2 = Inr d'" and st: "status (mg_name plan) d' = Inr job"
    by (metis (no_types))
  let ?t = "mg_table plan" and ?g = "target_guard plan"
  let ?def = "TableDef (sc_name (mg_target plan)) (map (\<lambda>s. (sc_version s, table_cols s)) (schemas @ [mg_target plan])) True"
  have t: "?t = table_name (mg_target plan)" using n by (simp add: mg_table_def table_name_data)
  have def: "map_of new ?t = Some ?def" using layout_table [OF a(3)] t by simp
  from r obtain def os where rt: "map_of new ?t = Some def"
    "d2 = d1\<lparr> objects := os, data := filter (\<lambda>r. d_table r \<noteq> ?t) (data d1) @ map (widen def) (filter (\<lambda>r. d_table r = ?t) (data d1)) \<rparr>"
    by (cases rule: replace_table_effect) auto
  note ee = conjunct1 [OF enrol_effect [OF e]]
  have keep: "map_of (objects d') n = Some v" if "map_of (objects d2) n = Some v" "n \<noteq> fst ?g" for n v
  proof -
    have "map_of (filter (\<lambda>x. fst x \<noteq> fst ?g) (objects d2)) n = Some v"
      by (rule map_of_filter_keep) (use that in simp_all)
    then show ?thesis using map_of_keep by (simp add: ee)
  qed
  have tg: "?t \<noteq> fst ?g" using table_name_apart by (simp add: t guard_name table_name_data)
  have d2t: "map_of (objects d2) ?t = Some ?def" using verify_objects_D [OF v map_of_SomeD [OF def]] .
  have names: "n \<noteq> fst ?g" if "n \<in> fst ` set new" for n
    using layout_names [OF a(3) that] ready_apart by (auto simp: guard_name table_name_data)
  have "map_of (objects d') (fst x) = Some (snd x)" if x: "x \<in> set new" for x
    by (rule keep) (use x names verify_objects_D [OF v, of "fst x" "snd x"] in auto)
  then have v': "verify_objects new d' = Inr ()" by (simp add: verify_objects_def list_all_iff)
  have "started app plan ?def old d d'"
    unfolding started_def
  proof (intro conjI allI impI)
    fix n v assume x: "map_of (objects d) n = Some v" "n \<noteq> ?t" "n \<noteq> fst ?g" "on_table app ?t v \<longrightarrow> n \<notin> fst ` set old"
    have "map_of (objects d2) n = Some v"
      by (rule replace_table_keeps [OF r _ x(2,4)]) (use x(1) in \<open>simp add: d1(1)\<close>)
    then show "map_of (objects d') n = Some v" using keep x(3) by blast
  next
    show "map_of (objects d') ?t = Some ?def" using keep [OF d2t tg] .
  next
    show "map_of (objects d') (fst ?g) = Some (snd ?g)"
      using map_of_appended [OF conjunct1 [OF conjunct2 [OF enrol_effect [OF e]]]] ee by simp
  next
    show "ms_metadata_layouts d' = enrolled_layouts plan d"
      using ee rt(2) d1 by (simp add: enrolled_layouts_def)
  next
    have "source_rows plan d' = source_rows plan d2" by (simp add: source_rows_def ee)
    then show "ms_migrations d' = ms_migrations d @ [new_job plan d']"
      using ee rt(2) d1 by (simp add: new_job_def)
  next
    show "mg_name plan \<notin> j_name ` set (ms_migrations d)"
      using enrol_effect [OF e] rt(2) d1 by simp
  qed (use ee rt(2) d1 def rt(1) in \<open>simp_all\<close>)
  then show ?thesis using that a st v' by blast
qed

end
