(* ===== verification/MigrationInvariants.thy ===== *)
theory MigrationInvariants
  imports MigrationStart
begin

text \<open>
  The transactions of a metadata migration keep the invariant of the catalog: its start (which
  rebuilds the data table for the new version) and every batch, and with it the readability of every
  record under the schema version that its blob has.
\<close>

section \<open>The rows of a started migration\<close>

lemma mset_partition_rows: "mset (filter (\<lambda>x. \<not> P x) xs @ filter P xs) = mset xs"
  by (induction xs) auto

lemma started_rows:
  assumes "started app plan def old d d'"
  shows "set (data d') = rewiden (mg_table plan) def ` set (data d)"
    and "mset (map data_key (data d')) = mset (map data_key (data d))"
proof -
  let ?P = "\<lambda>r. d_table r = mg_table plan"
  have e: "data d' = filter (\<lambda>r. \<not> ?P r) (data d) @ map (widen def) (filter ?P (data d))"
    using assms by (simp add: started_def)
  show "set (data d') = rewiden (mg_table plan) def ` set (data d)"
    by (auto simp: e rewiden_def)
  have "data_key \<circ> widen def = data_key" by auto
  then have "mset (map data_key (data d')) = mset (map data_key (filter (\<lambda>r. \<not> ?P r) (data d) @ filter ?P (data d)))"
    by (simp add: e)
  also have "\<dots> = mset (map data_key (data d))"
    unfolding mset_map mset_partition_rows ..
  finally show "mset (map data_key (data d')) = mset (map data_key (data d))" .
qed

lemma started_keys: "started app plan def old d d' \<Longrightarrow> keys_ok d \<Longrightarrow> keys_ok d'"
proof -
  assume s: "started app plan def old d d'" and k: "keys_ok d"
  have "distinct (map data_key (data d')) = distinct (map data_key (data d))"
    by (rule mset_eq_imp_distinct_iff) (rule started_rows(2) [OF s])
  with s k show ?thesis
    by (auto simp: keys_ok_def started_def schema_row_of_def schema_keys_def)
qed

lemma started_schemas:
  assumes "started app plan def old d d'"
  shows "schema_keys d' = insert (sc_name (mg_target plan), sc_version (mg_target plan)) (schema_keys d)"
    and "registered d s \<Longrightarrow> registered d' s"
    and "registered d' s \<Longrightarrow> (sc_name s, sc_version s) \<in> schema_keys d \<Longrightarrow> registered d s"
  using assms by (auto simp: started_def registered_def schema_keys_def schema_row_of_def)

lemma started_lookup:
  assumes s: "started app plan def old d d'" and k: "keys_ok d"
  shows "data_row_of t i d' = map_option (rewiden (mg_table plan) def) (data_row_of t i d)"
proof -
  have k': "distinct (map data_key (data d'))" "distinct (map data_key (data d))"
    using k started_keys [OF s k] by (simp_all add: keys_ok_def)
  show ?thesis
  proof (cases "data_row_of t i d")
    case None
    then have "(t, i) \<notin> data_key ` set (data d')"
      by (auto simp: data_row_of_def row_with_None started_rows(1) [OF s] image_image)
    then have "data_row_of t i d' = None" by (simp add: data_row_of_def row_with_None)
    then show ?thesis using None by simp
  next
    case (Some m)
    then have "m \<in> set (data d)" "data_key m = (t, i)" by (auto simp: data_row_of_def dest: row_with_SomeD)
    then have "rewiden (mg_table plan) def m \<in> set (data d')" "data_key (rewiden (mg_table plan) def m) = (t, i)"
      by (simp_all add: started_rows(1) [OF s])
    then show ?thesis using Some row_with_Some [OF k'(1)] by (simp add: data_row_of_def)
  qed
qed

lemma started_catalog:
  assumes s: "started app plan def old d d'" and ok: "catalog_ok d"
    and own: "\<And>n. n \<in> set (core_names @ payload_names @ encoding_names @ lifecycle_names) \<Longrightarrow> trigger d' n"
  shows "catalog_ok d'"
proof -
  have k: "keys_ok d" using ok by (simp add: catalog_ok_def)
  have f: "ms_blobs d' = ms_blobs d" "ms_prepared d' = ms_prepared d" "ms_objects d' = ms_objects d"
    "ms_retired d' = ms_retired d" "ms_gc d' = ms_gc d" "formats d' = formats d"
    using s by (simp_all add: started_def)
  have "prepared_of i d' = prepared_of i d" for i
    by (simp add: prepared_of_def f split: option.split)
  then have "blob_complete d' b = blob_complete d b" for b
    by (auto simp: blob_complete_def started_lookup [OF s k])
  moreover have "data_key ` set (data d') = data_key ` set (data d)"
    by (simp add: started_rows(1) [OF s] image_image)
  ultimately have "blobs_ok d'" using ok by (simp add: catalog_ok_def blobs_ok_def f)
  moreover have "installed d'"
    using own ok by (simp add: catalog_ok_def installed_def own_installed_def list_all_iff f)
  ultimately show ?thesis
    using ok started_keys [OF s k] started_schemas(1) [OF s]
    by (auto simp: catalog_ok_def schema_refs_def gc_ok_def f)
qed

section \<open>The registry and the columns\<close>

lemma started_table:
  assumes s: "started app plan def old d d'" and "map_of (objects d) t = Some x" "as_table x = Some x"
    "t = data_table_of n" "t \<noteq> mg_table plan"
  shows "map_of (objects d') t = Some x"
proof -
  have "\<not> on_table app (mg_table plan) x" using assms(3) by (cases x) auto
  moreover have "t \<noteq> fst (target_guard plan)" using table_name_apart assms(4) by (simp add: guard_name)
  ultimately show ?thesis using s assms(2,5) unfolding started_def by blast
qed

lemma started_has_table:
  assumes s: "started app plan (TableDef (sc_name (mg_target plan))
       (map (\<lambda>s. (sc_version s, table_cols s)) (schemas @ [mg_target plan])) True) old d d'"
    and c: "declarations d (sc_name (mg_source plan)) = Inr schemas" and p: "plan_ok plan" and R: "registry_ok d"
    and r: "registered d t" "has_table d t"
  shows "has_table d' t"
proof (cases "sc_name t = sc_name (mg_source plan)")
  case False
  from r(2) obtain vs l where "map_of (objects d) (table_name t) = Some (TableDef (sc_name t) vs l)"
    "(sc_version t, table_cols t) \<in> set vs" by (auto simp: has_table_def)
  moreover from this have "map_of (objects d') (table_name t) = Some (TableDef (sc_name t) vs l)"
    by (intro started_table [OF s]) (use False in \<open>simp_all add: table_name_data mg_table_def\<close>)
  ultimately show ?thesis by (auto simp: has_table_def)
next
  case True
  obtain t' where "t' \<in> set schemas" "sc_fields t' = sc_fields t" "sc_version t' = sc_version t"
    using declared(2) [OF c R r(1) True] by blast
  then have "(sc_version t, table_cols t) \<in> set (map (\<lambda>s. (sc_version s, table_cols s)) (schemas @ [mg_target plan]))"
    by (auto simp: table_cols_def image_iff intro!: bexI [of _ t'])
  moreover have "table_name t = mg_table plan" "sc_name (mg_target plan) = sc_name t"
    using True p by (simp_all add: mg_table_def table_name_data plan_ok_def)
  moreover have "map_of (objects d') (mg_table plan) = Some (TableDef (sc_name (mg_target plan))
       (map (\<lambda>s. (sc_version s, table_cols s)) (schemas @ [mg_target plan])) True)"
    using s unfolding started_def by blast
  ultimately show ?thesis unfolding has_table_def by auto
qed

lemma started_rows_ok:
  assumes s: "started app plan (TableDef (sc_name (mg_target plan))
       (map (\<lambda>s. (sc_version s, table_cols s)) (schemas @ [mg_target plan])) True) old d d'" (is "started app plan ?def old d d'")
    and c: "declarations d (sc_name (mg_source plan)) = Inr schemas" and p: "plan_ok plan" and ok: "consistent d"
  shows "rows_ok d'"
proof -
  have R: "registry_ok d" and T: "rows_typed d" and K: "keys_ok d" and B: "blobs_ok d" and S: "schema_refs d"
    using ok by (simp_all add: consistent_def rows_ok_def catalog_ok_def)
  have kept: "\<exists>t. wf_declared t \<and> sr_name r = sc_name t \<and> sr_version r = sc_version t \<and>
      sr_definition r = schema_definition t \<and> has_table d' t" if "r \<in> set (ms_schemas d)" for r
  proof -
    from that R obtain t where t: "wf_declared t" "sr_name r = sc_name t" "sr_version r = sc_version t"
      "sr_definition r = schema_definition t" "has_table d t" unfolding registry_ok_def by blast
    then have "registered d t" using that unfolding registered_def by metis
    with t started_has_table [OF s c p R] show ?thesis by blast
  qed
  have "has_table d' (mg_target plan)"
    using s p by (auto simp: has_table_def started_def mg_table_def plan_ok_def table_name_data)
  moreover have "ms_schemas d' = ms_schemas d @ [schema_row_of (mg_target plan)]" using s by (simp add: started_def)
  ultimately have R': "registry_ok d'"
    using kept p unfolding registry_ok_def by (auto simp: schema_row_of_def plan_ok_def)
  have "row_shaped d' m' \<and> (\<forall>t. registered d' t \<and> table_name t = d_table m' \<and> sc_version t = d_schema_version m' \<longrightarrow>
      cols_typed t (d_cols m'))" if "m' \<in> set (data d')" for m'
  proof -
    from that obtain m where m: "m \<in> set (data d)" "m' = rewiden (mg_table plan) ?def m"
      using started_rows(1) [OF s] by auto
    obtain b where b: "b \<in> set (ms_blobs d)" "data_key m = (data_table_of (b_schema b), b_id b)" "d_schema_version m = b_version b"
      using data_row_version [OF B K m(1)] by blast
    have dt: "d_table m = data_table_of (b_schema b)" using b(2) by (simp add: data_key_def)
    have typed: "cols_typed t (d_cols m)" "registered d t"
      if t: "registered d' t" "table_name t = d_table m" "sc_version t = d_schema_version m" for t
    proof -
      have "(sc_name t, sc_version t) \<in> schema_keys d"
        using S b t(2,3) dt by (auto simp: schema_refs_def table_name_data)
      then show "registered d t" by (rule started_schemas(3) [OF s t(1)])
      then show "cols_typed t (d_cols m)" using T m(1) t by (auto simp: rows_typed_def)
    qed
    show ?thesis
    proof (cases "d_table m = mg_table plan")
      case False
      obtain x where x: "table_def d (d_table m) = Inr x" "map fst (d_cols m) = map fst (def_columns x)"
        using T m(1) by (auto simp: rows_typed_def row_shaped_def)
      then have "table_def d' (d_table m) = Inr x"
        using started_table [OF s _ _ dt False] by (auto simp: table_def_Inr)
      with x False m(2) typed show ?thesis by (auto simp: rewiden_def row_shaped_def)
    next
      case True
      have "table_def d' (mg_table plan) = Inr ?def" using s by (simp add: started_def table_def_Inr)
      then have "row_shaped d' m'" using True m(2) by (auto simp: row_shaped_def rewiden_def widen_names)
      moreover have "cols_typed t (d_cols m')"
        if t: "registered d' t" "table_name t = d_table m'" "sc_version t = d_schema_version m'" for t
      proof -
        have t': "table_name t = d_table m" "sc_version t = d_schema_version m" using t m(2) by simp_all
        note ty = typed [OF t(1) t']
        have "has_table d' t" using started_has_table [OF s c p R ty(2)] registered_table(1) [OF R ty(2)] by blast
        then have v: "(sc_version t, table_cols t) \<in> set (def_versions ?def)"
          using s t'(1) True by (auto simp: has_table_def started_def)
        have "col_value (d_cols m') n = col_value (d_cols m) n" if "(n, f) \<in> set (sc_fields t)" for n f
          using widen_col [OF def_columns_fields [OF v that]] True m(2) by (simp add: rewiden_def)
        with ty(1) show ?thesis unfolding cols_typed_def by fastforce
      qed
      ultimately show ?thesis by blast
    qed
  qed
  with R' show ?thesis by (simp add: rows_ok_def rows_typed_def)
qed

section \<open>The invariant\<close>

lemma own_not_data:
  assumes "n \<in> set (core_names @ payload_names @ encoding_names @ lifecycle_names @ migration_names)"
  shows "n \<noteq> data_table_of a" "n \<noteq> data_table_of a @ s"
proof -
  have "list_all (\<lambda>n. \<not> starts_with ''ms_data_'' n)
      (core_names @ payload_names @ encoding_names @ lifecycle_names @ migration_names)"
    unfolding core_names_def payload_names_def encoding_names_def lifecycle_names_def migration_names_def
    by code_simp
  then have "\<not> starts_with ''ms_data_'' n" using assms unfolding list_all_iff by blast
  then show "n \<noteq> data_table_of a" "n \<noteq> data_table_of a @ s"
    by (auto simp: data_table_of_def starts_with_def)
qed

lemma started_consistent:
  assumes s: "started app plan (TableDef (sc_name (mg_target plan))
       (map (\<lambda>s. (sc_version s, table_cols s)) (schemas @ [mg_target plan])) True) old d d'"
    and c: "declarations d (sc_name (mg_source plan)) = Inr schemas" and p: "plan_ok plan" and ok: "consistent d"
  shows "consistent d'"
proof (rule consistentI [OF started_catalog [OF s] started_rows_ok [OF s c p ok]])
  show "catalog_ok d" using ok by (simp add: consistent_def)
  fix n assume n: "n \<in> set (core_names @ payload_names @ encoding_names @ lifecycle_names)"
  then have "map_of (objects d) n = Some (Own n)"
    using ok installed_trigger(1) [of d n] by (simp add: consistent_def catalog_ok_def trigger_def)
  moreover have "n \<noteq> mg_table plan" "n \<noteq> fst (target_guard plan)"
    using own_not_data [of n] n by (auto simp: mg_table_def table_name_data guard_name)
  ultimately show "trigger d' n"
    using s unfolding started_def trigger_def by simp
qed

lemma started_advances: "started app plan def old d d' \<Longrightarrow> advances d d'"
  by (intro advancesI) (simp_all add: started_def)

lemma retire_guard_kept:
  assumes s: "started app plan def old d d'" and g: "guarded_schema d n"
    and old: "data_table_of (sc_name (mg_source plan)) @ ''_retire'' \<notin> fst ` set old"
  shows "guarded_schema d' n"
proof -
  let ?g = "retire_guard n"
  have g': "map_of (objects d) (fst ?g) = Some (snd ?g)" using g by (simp add: guarded_schema_def)
  have "fst ?g \<noteq> mg_table plan" "fst ?g \<noteq> fst (target_guard plan)"
    using table_name_apart [of "sc_name (mg_source plan)" n "''retire''"]
      suffix_apart [of n "''retire''" "sc_name (mg_target plan)" "''ready''"]
    by (auto simp: retire_guard_def mg_table_def table_name_data guard_name)
  moreover have "on_table app (mg_table plan) (snd ?g) \<longrightarrow> fst ?g \<notin> fst ` set old"
    using old by (auto simp: retire_guard_def mg_table_def table_name_data)
  ultimately have "map_of (objects d') (fst ?g) = Some (snd ?g)"
    using s g' unfolding started_def by blast
  with g show ?thesis by (simp add: guarded_schema_def)
qed

lemma started_referential:
  assumes s: "started app plan def old d d'" and l: "referential d"
    and old: "data_table_of (sc_name (mg_source plan)) @ ''_retire'' \<notin> fst ` set old"
  shows "referential d'"
proof (rule linked_grow [OF l])
  have f: "ms_lifecycle_schemas d' = ms_lifecycle_schemas d"
    "ms_payload_schemas d' = ms_payload_schemas d @ [(sc_name (mg_target plan), sc_version (mg_target plan))]"
    using s by (simp_all add: started_def)
  show "schema_keys d \<subseteq> schema_keys d'" by (auto simp: started_schemas(1) [OF s])
  show "set (ms_payload_schemas d') \<subseteq> schema_keys d'"
    using l by (auto simp: f started_schemas(1) [OF s] referential_def)
  show "guarded_schema d' n" if "n \<in> set (ms_lifecycle_schemas d')" for n
    by (rule retire_guard_kept [OF s _ old]) (use that l in \<open>simp add: f referential_def\<close>)
qed (use s in \<open>simp_all add: started_def\<close>)

text \<open>The start of a migration, and the whole of \<open>_initialize\<close>.\<close>

lemma start_migration_keeps:
  assumes s: "start_migration app backup plan d = Inr (job, d')" and p: "plan_ok plan" and ok: "consistent d"
  shows "consistent d' \<and> advances d d' \<and> ms_prepared d' = ms_prepared d \<and> (referential d \<longrightarrow> referential d') \<and>
    registered d' (mg_target plan) \<and> status (mg_name plan) d' = Inr job"
  using s p
proof (rule start_migration_started)
  fix schemas old new
  assume c: "declarations d (sc_name (mg_source plan)) = Inr schemas"
    and o: "(if evolved d (sc_name (mg_source plan)) then layout schemas else Inr (schema_objects (mg_source plan))) = Inr old"
    and st: "status (mg_name plan) d' = Inr job"
    and s: "started app plan (TableDef (sc_name (mg_target plan))
       (map (\<lambda>s. (sc_version s, table_cols s)) (schemas @ [mg_target plan])) True) old d d'"
  have "registry_ok d" using ok by (simp add: consistent_def rows_ok_def)
  then have "\<forall>x \<in> set schemas. sc_name x = sc_name (mg_source plan)"
    using declared(1) [OF c] by fastforce
  then have "data_table_of (sc_name (mg_source plan)) @ ''_retire'' \<notin> fst ` set old"
    by (rule retire_not_old [OF o refl])
  moreover have "registered d' (mg_target plan)"
    using s by (simp add: started_def registered_def schema_row_of_def)
  moreover have "ms_prepared d' = ms_prepared d" using s by (simp add: started_def)
  ultimately show ?thesis
    using started_consistent [OF s c p ok] started_advances [OF s] started_referential [OF s] st by blast
qed

lemma extends_linked:
  assumes l: "referential d" and e: "extends d d'" "ms_schemas d' = ms_schemas d" "app_refs d' = app_refs d"
    and p: "ms_payload_schemas d' = ms_payload_schemas d" "ms_lifecycle_schemas d' = ms_lifecycle_schemas d"
  shows "referential d'"
proof (rule linked_grow [OF l])
  show "guarded_schema d' n" if "n \<in> set (ms_lifecycle_schemas d')" for n
    using that l guarded_schema_extends [OF e(1)] by (simp add: p referential_def)
qed (use e p l in \<open>simp_all add: extends_def schema_keys_def referential_def\<close>)

lemma create_all_extends:
  assumes "create_all xs d = Inr d'"
  shows "extends d d'" "ms_schemas d' = ms_schemas d" "app_refs d' = app_refs d"
    "ms_payload_schemas d' = ms_payload_schemas d" "ms_lifecycle_schemas d' = ms_lifecycle_schemas d"
  using create_all_effect [OF assms] by (auto simp: extends_def)

lemma install_keeps:
  assumes i: "install s d = Inr d'" and w: "wf_declared s" and ok: "consistent d"
  shows "consistent d' \<and> advances d d' \<and> ms_prepared d' = ms_prepared d \<and> (referential d \<longrightarrow> referential d')"
proof -
  have I: "installed d" and c: "catalog_ok d" "rows_ok d" using ok by (simp_all add: consistent_def catalog_ok_def)
  have "extends d d'" using install_effect [OF I i] by (auto simp: extends_def)
  with install_ok [OF i w c] install_linked [OF _ I i] extends_advances show ?thesis
    by (simp add: consistent_def)
qed

lemma payload_install_keeps:
  assumes i: "payload_install s d = Inr d'" and ok: "consistent d"
  shows "consistent d' \<and> advances d d' \<and> ms_prepared d' = ms_prepared d \<and> (referential d \<longrightarrow> referential d')"
proof -
  have I: "installed d" and c: "catalog_ok d" "rows_ok d" using ok by (simp_all add: consistent_def catalog_ok_def)
  note e = payload_install_effect [OF I i]
  with extends_same_schemas_ok [OF _ _ c] payload_install_linked [OF _ I i] extends_advances show ?thesis
    by (simp add: consistent_def)
qed

lemma initialize_cases:
  assumes "initialize app backup plan d = Inr (job, d')"
  obtains (start) d1 d2 d3 where "install (mg_source plan) d = Inr d1" "payload_install (mg_source plan) d1 = Inr d2"
      "check_schema False (Some (mg_source plan)) d2 = Inr (mg_source plan)"
      "d3 = d2 \<or> create_all (own migration_names) d2 = Inr d3"
      "own_installed migration_names d3" "start_migration app backup plan d3 = Inr (job, d')"
  | (resume) d1 where "install (mg_source plan) d = Inr d1" "payload_install (mg_source plan) d1 = Inr d'"
      "check_schema False (Some (mg_source plan)) d' = Inr (mg_source plan)"
      "own_installed migration_names d'"
      "row_with j_name (mg_name plan) (ms_migrations d') = Some job" "resume_job plan job d' = Inr (job, d')"
proof -
  from assms obtain d1 d2 s where 1: "install (mg_source plan) d = Inr d1" and 2: "payload_install (mg_source plan) d1 = Inr d2"
    and 3: "check_schema False (Some (mg_source plan)) d2 = Inr s" and
    4: "(if has_object d2 ''ms_metadata_layouts''
     then ebind (verify_objects (own migration_names) d2) (\<lambda>_.
          case row_with j_name (mg_name plan) (ms_migrations d2) of
            Some job \<Rightarrow> resume_job plan job d2
          | None \<Rightarrow> start_migration app backup plan d2)
     else ebind (require (\<not> list_ex (has_object d2) migration_names) SchemaConflictError
                   ''Partial migration extension'') (\<lambda>_.
          ebind (create_all (own migration_names) d2) (start_migration app backup plan))) = Inr (job, d')"
    unfolding initialize_def ebind_eq_Inr by blast
  have s: "check_schema False (Some (mg_source plan)) d2 = Inr (mg_source plan)"
    using 3 check_schema_Inr [OF 3] by simp
  show ?thesis
  proof (cases "has_object d2 ''ms_metadata_layouts''")
    case False
    with 4 obtain d3 where c: "create_all (own migration_names) d2 = Inr d3" "start_migration app backup plan d3 = Inr (job, d')"
      by (auto simp: ebind_eq_Inr)
    from start [OF 1 2 s disjI2 [OF c(1)] create_own(2) [OF c(1)] c(2)] show ?thesis .
  next
    case True
    have o: "own_installed ns d2" if "verify_objects (own ns) d2 = Inr ()" for ns
      using that by (auto simp: verify_objects_def own_def own_installed_def list_all_iff trigger_def)
    show ?thesis
    proof (cases "row_with j_name (mg_name plan) (ms_migrations d2)")
      case None
      with 4 True have "start_migration app backup plan d2 = Inr (job, d')"
        "verify_objects (own migration_names) d2 = Inr ()" by (auto simp: ebind_eq_Inr)
      with start [OF 1 2 s] o show ?thesis by blast
    next
      case (Some j)
      have "ebind (verify_objects (own migration_names) d2) (\<lambda>_. resume_job plan j d2) = Inr (job, d')"
        using 4 unfolding if_P [OF True] Some option.case .
      then have r: "resume_job plan j d2 = Inr (job, d')" and v: "verify_objects (own migration_names) d2 = Inr ()"
        unfolding ebind_eq_Inr by simp_all
      from r have "j = job" "d2 = d'"
        unfolding resume_job_def ebind_eq_Inr require_eq_Inr sum.inject prod.inject by simp_all
      with resume [OF 1, of] 2 s o [OF v] Some r show ?thesis by simp
    qed
  qed
qed

text \<open>Everything before the last step of \<open>_initialize\<close> extends the catalog.\<close>

definition prelude_keeps :: "db \<Rightarrow> db \<Rightarrow> bool" where
  "prelude_keeps d d' =
     (consistent d' \<and> advances d d' \<and> ms_prepared d' = ms_prepared d \<and> (referential d \<longrightarrow> referential d') \<and>
      extends d d' \<and> app_refs d' = app_refs d \<and> set (ms_schemas d) \<subseteq> set (ms_schemas d'))"

lemma prelude_keeps_trans: "prelude_keeps d d' \<Longrightarrow> prelude_keeps d' d'' \<Longrightarrow> prelude_keeps d d''"
  unfolding prelude_keeps_def using advances_trans extends_trans by fastforce

lemma prelude_install:
  assumes "install s d = Inr d'" "wf_declared s" "consistent d" shows "prelude_keeps d d'"
proof -
  have "installed d" using assms(3) by (simp add: consistent_def catalog_ok_def)
  from install_effect [OF this assms(1)] install_keeps [OF assms] show ?thesis
    by (auto simp: prelude_keeps_def extends_def)
qed

lemma prelude_payload:
  assumes "payload_install s d = Inr d'" "consistent d" shows "prelude_keeps d d'"
proof -
  have "installed d" using assms(2) by (simp add: consistent_def catalog_ok_def)
  from payload_install_effect [OF this assms(1)] payload_install_keeps [OF assms] show ?thesis
    by (simp add: prelude_keeps_def)
qed

lemma prelude_create:
  assumes "create_all xs d = Inr d'" "consistent d" shows "prelude_keeps d d'"
proof -
  note e = create_all_extends [OF assms(1)]
  have "catalog_ok d" "rows_ok d" using assms(2) by (simp_all add: consistent_def)
  with e extends_same_schemas_ok [OF e(1,2)] extends_advances [OF e(1)] extends_linked [OF _ e] show ?thesis
    by (simp add: consistent_def prelude_keeps_def)
qed

lemma prelude_refl: "consistent d \<Longrightarrow> prelude_keeps d d"
  by (simp add: prelude_keeps_def)

lemma initialize_split:
  assumes i: "initialize app backup plan d = Inr (job, d')" and p: "plan_ok plan" and ok: "consistent d"
  obtains (new) d3 where "prelude_keeps d d3" "own_installed migration_names d3"
      "start_migration app backup plan d3 = Inr (job, d')"
  | (old) "prelude_keeps d d'" "own_installed migration_names d'"
      "row_with j_name (mg_name plan) (ms_migrations d') = Some job" "resume_job plan job d' = Inr (job, d')"
  using i
proof (cases rule: initialize_cases)
  case (start d1 d2 d3)
  have w: "wf_declared (mg_source plan)" using p by (simp add: plan_ok_def)
  have 1: "prelude_keeps d d1" by (rule prelude_install [OF start(1) w ok])
  have 2: "prelude_keeps d d2"
    by (rule prelude_keeps_trans [OF 1 prelude_payload [OF start(2)]]) (use 1 in \<open>simp add: prelude_keeps_def\<close>)
  then have c: "consistent d2" by (simp add: prelude_keeps_def)
  have "prelude_keeps d2 d3" using start(4) prelude_create [OF _ c] prelude_refl [OF c] by blast
  with 2 have "prelude_keeps d d3" by (rule prelude_keeps_trans)
  then show ?thesis by (rule new [OF _ start(5,6)])
next
  case (resume d1)
  have w: "wf_declared (mg_source plan)" using p by (simp add: plan_ok_def)
  have 1: "prelude_keeps d d1" by (rule prelude_install [OF resume(1) w ok])
  have "prelude_keeps d d'"
    by (rule prelude_keeps_trans [OF 1 prelude_payload [OF resume(2)]]) (use 1 in \<open>simp add: prelude_keeps_def\<close>)
  then show ?thesis by (rule old [OF _ resume(4-6)])
qed

lemma resume_job_Inr: "resume_job plan job d = Inr (job', d') \<Longrightarrow>
    same_job plan job \<and> registered d (mg_target plan) \<and> verify_layout d (sc_name (mg_source plan)) = Inr ()"
  unfolding resume_job_def ebind_eq_Inr require_eq_Inr using check_schema_Inr by fastforce

lemma initialize_keeps:
  assumes i: "initialize app backup plan d = Inr (job, d')" and p: "plan_ok plan" and ok: "consistent d"
  shows "consistent d' \<and> advances d d' \<and> ms_prepared d' = ms_prepared d \<and> (referential d \<longrightarrow> referential d') \<and>
    registered d' (mg_target plan) \<and> status (mg_name plan) d' = Inr job \<and>
    ms_blobs d' = ms_blobs d \<and> app_refs d' = app_refs d \<and> ms_encodings d' = ms_encodings d"
  using i p ok
proof (cases rule: initialize_split)
  case (new d3)
  have k: "consistent d3" using new(1) by (simp add: prelude_keeps_def)
  have "ms_blobs d' = ms_blobs d3 \<and> app_refs d' = app_refs d3 \<and> ms_encodings d' = ms_encodings d3"
    using new(3) p by (rule start_migration_started) (simp add: started_def)
  moreover have "advances d d'"
    using new(1) start_migration_keeps [OF new(3) p k] advances_trans by (auto simp: prelude_keeps_def)
  ultimately show ?thesis
    using new(1) start_migration_keeps [OF new(3) p k] by (simp add: prelude_keeps_def extends_def)
next
  case old
  have "status (mg_name plan) d' = Inr job"
    using old(2,3) trigger_has by (simp add: status_def own_installed_def migration_names_def)
  with old(1) resume_job_Inr [OF old(4)] show ?thesis by (simp add: prelude_keeps_def extends_def)
qed

section \<open>A batch keeps the invariant\<close>

lemma table_blob:
  assumes B: "blobs_ok d" and K: "keys_ok d" and r: "r \<in> set (data d)" "d_table r = mg_table plan"
    and b: "b \<in> set (ms_blobs d)" "b_id b = d_id r"
  shows "b_schema b = sc_name (mg_source plan)" "b_version b = d_schema_version r"
proof -
  obtain c where c: "c \<in> set (ms_blobs d)" "data_key r = (data_table_of (b_schema c), b_id c)" "d_schema_version r = b_version c"
    using data_row_version [OF B K r(1)] by blast
  have "b_id c = b_id b" using c(2) b(2) by (simp add: data_key_def)
  moreover have "distinct (map b_id (ms_blobs d))" using K by (simp add: keys_ok_def)
  ultimately have "c = b" using distinct_map_inj c(1) b(1) by metis
  with c r show "b_schema b = sc_name (mg_source plan)" "b_version b = d_schema_version r"
    by (simp_all add: data_key_def mg_table_def table_name_data)
qed

text \<open>A set of identities that a batch may migrate, and what its rows become.\<close>

definition batchable :: "migration \<Rightarrow> string list \<Rightarrow> string set \<Rightarrow> db \<Rightarrow> bool" where
  "batchable plan names I d =
     (\<forall>i \<in> I. \<exists>r \<in> set (data d). d_table r = mg_table plan \<and> d_id r = i \<and> row_migrates plan names d r)"

lemma batchable_row:
  assumes "batchable plan names I d" "keys_ok d" "r \<in> set (data d)" "d_table r = mg_table plan" "d_id r \<in> I"
  shows "row_migrates plan names d r"
proof -
  obtain x where x: "x \<in> set (data d)" "d_table x = mg_table plan" "d_id x = d_id r" "row_migrates plan names d x"
    using assms(1,5) unfolding batchable_def by blast
  then have "x = r" using assms(2-4) distinct_map_inj [of data_key "data d" x r] by (simp add: keys_ok_def data_key_def)
  with x show ?thesis by simp
qed

lemma blob_after_complete:
  assumes B: "blobs_ok d" and K: "keys_ok d" and I: "batchable plan names I d" and b: "b \<in> set (ms_blobs d)"
    and v: "sc_version (mg_target plan) = sc_version (mg_source plan) + 1"
  shows "blob_complete (migrated plan names I d) (blob_after plan I b)"
proof -
  obtain p m where m: "prepared_of (b_id b) d = Some p" "p_schema p = b_schema b" "p_version p \<le> b_version b"
    "data_row_of (data_table_of (b_schema b)) (b_id b) d = Some m" "d_schema_version m = b_version b"
    using B b by (auto simp: blobs_ok_def blob_complete_def)
  have "prepared_of (b_id b) (migrated plan names I d) = prepared_of (b_id b) d"
    by (simp add: prepared_of_def migrated_def split: option.split)
  moreover have "data_row_of t i (migrated plan names I d) = map_option (row_after plan names I) (data_row_of t i d)" for t i
    by (simp add: data_row_of_def row_with_map)
  moreover have mi: "m \<in> set (data d)" "d_table m = data_table_of (b_schema b)" "d_id m = b_id b"
    using m(4) by (auto simp: data_row_of_def data_key_def dest: row_with_SomeD)
  moreover have "d_schema_version (row_after plan names I m) = b_version (blob_after plan I b) \<and> b_version b \<le> b_version (blob_after plan I b)"
  proof (cases "b_id b \<in> I")
    case False
    then show ?thesis using m(5) mi by (simp add: row_after_def blob_after_def)
  next
    case True
    then obtain r where r: "r \<in> set (data d)" "d_table r = mg_table plan" "d_id r = b_id b" "row_migrates plan names d r"
      using I unfolding batchable_def by blast
    have bs: "b_schema b = sc_name (mg_source plan)" "b_version b = d_schema_version r"
      using table_blob [OF B K r(1,2) b] r(3) by simp_all
    then have "data_key r = data_key m"
      using r mi by (simp add: data_key_def mg_table_def table_name_data)
    then have "r = m" using K mi r distinct_map_inj [of data_key "data d" r m] by (simp add: keys_ok_def)
    with r True have "d_schema_version (row_after plan names I m) = sc_version (mg_target plan)"
      by (intro row_after_moved) auto
    then show ?thesis using True bs r(4) v by (simp add: blob_after_def row_migrates_def)
  qed
  ultimately show ?thesis using m by (auto simp: blob_complete_def)
qed

lemma migrated_catalog:
  assumes ok: "catalog_ok d" and I: "batchable plan names I d" and t: "registered d (mg_target plan)"
    and p: "plan_ok plan"
  shows "catalog_ok (migrated plan names I d)"
proof -
  let ?d = "migrated plan names I d"
  have K: "keys_ok d" and B: "blobs_ok d" and S: "schema_refs d" using ok by (simp_all add: catalog_ok_def)
  have n: "sc_name (mg_target plan) = sc_name (mg_source plan)"
    and v: "sc_version (mg_target plan) = sc_version (mg_source plan) + 1" using p by (simp_all add: plan_ok_def)
  have sk: "schema_keys ?d = schema_keys d" by (simp add: schema_keys_def)
  have tk: "(sc_name (mg_target plan), sc_version (mg_target plan)) \<in> schema_keys d"
    using t by (force simp: registered_def schema_keys_def)
  have "(b_schema b, b_version (blob_after plan I b)) \<in> schema_keys d" if b: "b \<in> set (ms_blobs d)" for b
  proof (cases "b_id b \<in> I")
    case True
    then obtain r where "r \<in> set (data d)" "d_table r = mg_table plan" "b_id b = d_id r"
      using I unfolding batchable_def by metis
    then have "b_schema b = sc_name (mg_source plan)" using table_blob(1) [OF B K] b by blast
    then show ?thesis using True tk n by (simp add: blob_after_def)
  qed (use S b in \<open>simp add: blob_after_def schema_refs_def\<close>)
  then have S': "schema_refs ?d" using S by (simp add: schema_refs_def sk) 
  have "(\<lambda>b. (data_table_of (b_schema b), b_id b)) ` set (ms_blobs ?d) =
      (\<lambda>b. (data_table_of (b_schema b), b_id b)) ` set (ms_blobs d)"
    by (simp add: image_image)
  moreover have "data_key ` set (data ?d) = data_key ` set (data d)" by (simp add: image_image)
  moreover have ids: "b_id ` set (ms_blobs ?d) = b_id ` set (ms_blobs d)" by (simp add: image_image)
  moreover have "b_state b' \<noteq> PendingDelete \<and> blob_complete ?d b'" if "b' \<in> set (ms_blobs ?d)" for b'
  proof -
    from that obtain b where b: "b \<in> set (ms_blobs d)" "b' = blob_after plan I b" by auto
    then have "b_state b' \<noteq> PendingDelete" using B by (simp add: blobs_ok_def)
    with blob_after_complete [OF B K I b(1) v] b(2) show ?thesis by blast
  qed
  ultimately have B': "blobs_ok ?d" using B by (simp add: blobs_ok_def)
  have "keys_ok ?d" using K migrated_keys [of plan names I d] by (simp add: keys_ok_def)
  moreover have "installed ?d" using ok installed_cong [of ?d d] by (simp add: catalog_ok_def)
  moreover have "gc_ok ?d" using ok ids by (simp add: catalog_ok_def gc_ok_def)
  ultimately show ?thesis using S' B' by (simp add: catalog_ok_def)
qed

text \<open>The columns of a migrated row hold the normalised result of the transformation.\<close>

lemma new_values_Inr:
  assumes "new_values plan r = Inr v"
  shows "\<exists>x. normalize_metadata (mg_target plan) x = Inr v"
  using assms unfolding new_values_def ebind_eq_Inr by blast

lemma field_value: "n \<in> set names \<Longrightarrow> map_of (field_values names v) n = Some (col_value v n)"
  by (induction names) (auto simp: field_values_def)

lemma all_fields_mem: "s \<in> set schemas \<Longrightarrow> (n, f) \<in> set (sc_fields s) \<Longrightarrow> n \<in> set (all_fields schemas)"
  by (force simp: all_fields_def)

lemma migrated_row_typed:
  assumes ok: "rows_ok d" and K: "keys_ok d" and p: "plan_ok plan" and t: "registered d (mg_target plan)"
    and c: "declarations d (sc_name (mg_source plan)) = Inr schemas"
    and r: "r \<in> set (data d)" "d_table r = mg_table plan" "new_values plan r = Inr v"
    and s: "registered d s" "table_name s = mg_table plan" "sc_version s = sc_version (mg_target plan)"
  shows "cols_typed s (set_cols (field_values (all_fields schemas) v) (d_cols r))"
  unfolding cols_typed_def
proof safe
  fix n f assume n: "(n, f) \<in> set (sc_fields s)"
  have R: "registry_ok d" and T: "rows_typed d" using ok by (simp_all add: rows_ok_def)
  have name: "sc_name s = sc_name (mg_source plan)" "sc_name s = sc_name (mg_target plan)"
    using s(2) p by (simp_all add: mg_table_def table_name_data plan_ok_def)
  have "sc_fields s = sc_fields (mg_target plan)"
    by (rule definition_determines(1) [OF registered_unique [OF K s(1) t name(2) s(3)]])
  with n have nt: "(n, f) \<in> set (sc_fields (mg_target plan))" by simp
  have w: "distinct (map fst (sc_fields (mg_target plan)))" using p wf_distinct by (simp add: plan_ok_def)
  obtain x where "normalize_metadata (mg_target plan) x = Inr v" using new_values_Inr [OF r(3)] by blast
  then obtain u w where u: "map_of v n = Some w" "normalize f u = Inr w"
    using normalize_metadata_vals [OF _ w nt] by blast
  obtain s' where "s' \<in> set schemas" "sc_fields s' = sc_fields s"
    using declared(2) [OF c R s(1) name(1)] by blast
  with n have nm: "n \<in> set (all_fields schemas)" using all_fields_mem by metis
  obtain def where def: "table_def d (d_table r) = Inr def" "map fst (d_cols r) = map fst (def_columns def)"
    using T r(1) by (auto simp: rows_typed_def row_shaped_def)
  have "(sc_version s, table_cols s) \<in> set (def_versions def)"
    using has_table_lookup [OF registered_table(1) [OF R s(1)]] def(1) r(2) s(2) by auto
  then have "n \<in> fst ` set (def_columns def)" using n by (rule def_columns_fields)
  then have "n \<in> fst ` set (d_cols r)" using def(2) by (metis set_map)
  then have "col_value (set_cols (field_values (all_fields schemas) v) (d_cols r)) n = w"
    using u(1) by (simp add: set_cols_value field_value [OF nm]) (simp add: col_value_def)
  with normalize_readable [OF u(2)] show
    "\<exists>y. from_sql f (col_value (set_cols (field_values (all_fields schemas) v) (d_cols r)) n) = Inr y" by simp
qed

lemma migrated_rows_ok:
  assumes ok: "rows_ok d" and K: "keys_ok d" and p: "plan_ok plan" and t: "registered d (mg_target plan)"
    and c: "declarations d (sc_name (mg_source plan)) = Inr schemas"
    and I: "batchable plan (all_fields schemas) I d"
  shows "rows_ok (migrated plan (all_fields schemas) I d)"
proof -
  let ?n = "all_fields schemas"
  let ?d = "migrated plan ?n I d"
  have R: "registry_ok d" and T: "rows_typed d" using ok by (simp_all add: rows_ok_def)
  have same: "registered ?d = registered d" "has_table ?d = has_table d" "table_def ?d = table_def d"
    by (rule ext, simp add: registered_def has_table_def table_def_def)+
  have "row_shaped d r' \<and> (\<forall>s. registered d s \<and> table_name s = d_table r' \<and> sc_version s = d_schema_version r' \<longrightarrow>
      cols_typed s (d_cols r'))" if "r' \<in> set (data ?d)" for r'
  proof -
    from that obtain r where r: "r \<in> set (data d)" "r' = row_after plan ?n I r" by auto
    show ?thesis
    proof (cases "d_table r = mg_table plan \<and> d_id r \<in> I")
      case False
      then have "r' = r" unfolding r(2) row_after_def by (rule if_not_P)
      with r T show ?thesis by (simp add: rows_typed_def)
    next
      case True
      then obtain v where v: "new_values plan r = Inr v"
        using batchable_row [OF I K r(1)] by (auto simp: row_migrates_def)
      have e: "r' = migrated_row (sc_version (mg_target plan)) (field_values ?n v) r"
        using True v by (simp add: r(2) row_after_def migrate_of_def)
      have "row_shaped d r" using T r(1) by (simp add: rows_typed_def)
      then have "row_shaped d r'" by (simp add: e row_shaped_def)
      moreover have "cols_typed s (d_cols r')"
        if "registered d s" "table_name s = d_table r'" "sc_version s = d_schema_version r'" for s
        using migrated_row_typed [OF ok K p t c r(1) _ v that(1)] that True by (simp add: e)
      ultimately show ?thesis by blast
    qed
  qed
  then have "rows_typed ?d" unfolding rows_typed_def row_shaped_def same by blast
  moreover have "registry_ok ?d" using R by (simp add: registry_ok_def same)
  ultimately show ?thesis by (simp add: rows_ok_def)
qed

lemma catalog_ok_jobs: "catalog_ok (d\<lparr> ms_migrations := js \<rparr>) = catalog_ok d"
proof -
  let ?d = "d\<lparr> ms_migrations := js \<rparr>"
  have "installed ?d = installed d" by (rule installed_cong) simp_all
  moreover have "blob_complete ?d = blob_complete d"
    by (rule ext) (simp add: blob_complete_def prepared_of_def data_row_of_def split: option.split)
  ultimately show ?thesis
    by (simp add: catalog_ok_def keys_ok_def schema_refs_def schema_keys_def blobs_ok_def gc_ok_def)
qed

lemma batch_keeps:
  assumes b: "batch plan n ([], d) = Inr (job, xs, d')" and p: "plan_ok plan" and ok: "consistent d"
    and t: "registered d (mg_target plan)"
  shows "consistent d' \<and> advances d d' \<and> ms_prepared d' = ms_prepared d \<and> (referential d \<longrightarrow> referential d') \<and>
    registered d' (mg_target plan)"
proof -
  have K: "keys_ok d" "catalog_ok d" "rows_ok d" using ok by (simp_all add: consistent_def catalog_ok_def)
  have k: "distinct (map data_key (data d))" using K(1) by (simp add: keys_ok_def)
  from b k show ?thesis
  proof (cases rule: batch_effect)
    case complete
    with t ok show ?thesis by simp
  next
    case (rows job0 schemas rs I names d1)
    have "batchable plan names I d"
      unfolding batchable_def
    proof
      fix i assume "i \<in> I"
      then obtain r where r: "r \<in> set rs" "d_id r = i" using rows(8) by auto
      moreover have "r \<in> set (source_rows plan d)" using r(1) set_next_rows rows(7) by blast
      ultimately show "\<exists>r \<in> set (data d). d_table r = mg_table plan \<and> d_id r = i \<and> row_migrates plan names d r"
        using rows(12) source_rows_D by blast
    qed
    with K p t rows(5,6,9) have c1: "catalog_ok d1" "rows_ok d1"
      using migrated_catalog migrated_rows_ok by blast+
    define js where "js = ms_migrations d'"
    have d': "d' = d1\<lparr> ms_migrations := js \<rparr>" by (simp add: js_def rows(10) update_job_def)
    have "catalog_ok d'" using c1(1) by (simp add: d' catalog_ok_jobs)
    moreover have "rows_ok d'" by (rule rows_ok_cong [OF _ _ _ c1(2)]) (simp_all add: d')
    moreover have f: "ms_prepared d' = ms_prepared d" "ms_gc d' = ms_gc d" "ms_retired d' = ms_retired d"
      "ms_encodings d' = ms_encodings d" "ms_objects d' = ms_objects d" "app_refs d' = app_refs d"
      "ms_payload_schemas d' = ms_payload_schemas d" "ms_lifecycle_schemas d' = ms_lifecycle_schemas d"
      "objects d' = objects d" "ms_schemas d' = ms_schemas d"
      by (simp_all add: d' rows(9))
    moreover have "b_id ` set (ms_blobs d') = b_id ` set (ms_blobs d)" by (simp add: d' rows(9) image_image)
    moreover have "registered d' (mg_target plan)" using t by (simp add: registered_def f)
    ultimately show ?thesis
      using linked_rows [of d d'] by (auto simp: consistent_def intro!: advancesI)
  qed
qed

end
