(* ===== verification/System.thy ===== *)
theory System
  imports MigrationInvariants
begin

text \<open>
  The catalog together with one storage root and the uploads that are under way: the steps of all
  participants in any order, and the invariant that links the journal to the stored bytes.
\<close>

section \<open>The catalog before and after its first installation\<close>

definition sane :: "db \<Rightarrow> bool" where
  "sane d = (fresh_db d \<or> consistent d)"

lemma fresh_check_schema: "fresh_db d \<Longrightarrow> check_schema wr arg d \<noteq> Inr s"
  using fresh_no_own [of d "''ms_schemas''"] by (auto simp: check_schema_def core_names_def)

lemma fresh_get_record: "fresh_db d \<Longrightarrow> get_record ready i d \<noteq> Inr r"
  using fresh_no_own [of d "''ms_blobs''"] by (auto simp: get_record_def core_names_def)

lemma fresh_verify_lifecycle: "fresh_db d \<Longrightarrow> verify_lifecycle d \<noteq> Inr u"
proof -
  assume f: "fresh_db d"
  have "\<not> has_object d ''ms_lifecycle_format''"
    by (rule fresh_no_own [OF f]) (simp add: lifecycle_names_def)
  then have "map_of (objects d) ''ms_lifecycle_format'' = None"
    by (simp add: has_object_def map_of_eq_None_iff)
  then show ?thesis
    by (simp add: verify_lifecycle_def verify_objects_def own_def lifecycle_names_def)
qed

lemma fresh_retry: "fresh_db d \<Longrightarrow> retry sid i s vals n dig enc d \<noteq> Inr r"
  using fresh_no_own [of d "''ms_blobs''"] by (auto simp: retry_def core_names_def)

lemma fresh_call:
  assumes f: "fresh_db d" and c: "call_typed c" and r: "run_call sid c d = Inr d'"
  shows "sane d' \<and> ms_prepared d' = [] \<and> ms_blobs d' = []"
proof -
  obtain os rs0 where "d = empty_db\<lparr> objects := os, app_refs := rs0 \<rparr>"
    using f unfolding fresh_db_def by blast
  then have e: "ms_prepared d = []" "ms_blobs d = []" by simp_all
  show ?thesis
  proof (cases c)
    case (InstallSchema s)
    then show ?thesis
      using r c store_install_schema_fresh [OF f, of s d'] by (simp add: call_typed_def sane_def)
  next
    case InstallLifecycle
    then show ?thesis
      using r fresh_no_own [OF f, of "''ms_blobs''"] fresh_no_own [OF f, of "''ms_lifecycle_format''"]
      by (auto simp: store_install_lifecycle_def install_lifecycle_def core_names_def lifecycle_names_def)
  next
    case (Journal arg schema)
    then show ?thesis using r fresh_check_schema [OF f] by (auto simp: journal_def)
  next
    case (Finalize arg schema metadata i)
    then show ?thesis using r fresh_check_schema [OF f] by (auto simp: finalize_def)
  next
    case (Publish i)
    then show ?thesis using r fresh_get_record [OF f] by (auto simp: publish_def)
  next
    case (CompleteImport i arg s metadata vals n dig enc)
    then show ?thesis using r fresh_retry [OF f] by (auto simp: complete_import_def)
  next
    case (UpdateMetadata i schema changes ver)
    then show ?thesis using r fresh_check_schema [OF f] by (auto simp: update_metadata_def)
  next
    case (Delete i ver)
    then show ?thesis using r fresh_verify_lifecycle [OF f] by (auto simp: delete_def)
  next
    case (Discard arg)
    then show ?thesis using r fresh_verify_lifecycle [OF f] by (auto simp: discard_def)
  next
    case (QueueOrphans linked keys)
    then show ?thesis using r fresh_verify_lifecycle [OF f] by (auto simp: queue_orphans_def check_catalog_def)
  next
    case (MarkCleanup storage key st err)
    then show ?thesis
      using r fresh_no_own [OF f, of "''ms_gc''"] by (auto simp: mark_gc_def lifecycle_names_def)
  next
    case (References rs)
    then have "d' = d\<lparr> app_refs := rs \<rparr>" using r by (auto simp: set_references_def)
    moreover obtain os rs' where "d = empty_db\<lparr> objects := os, app_refs := rs' \<rparr>"
      using f unfolding fresh_db_def by blast
    ultimately have "fresh_db d'" using f by (simp add: fresh_db_def)
    then show ?thesis using e \<open>d' = _\<close> by (simp add: sane_def)
  qed
qed

lemma fresh_other_call:
  assumes f: "fresh_db d" and r: "run_call sid c d = Inr d'" and c: "\<not> (\<exists>s. c = InstallSchema s)"
  shows "fresh_db d' \<and> (\<exists>rs. c = References rs \<and> (\<forall>a \<in> set (app_refs d'). a_deferred a))"
proof (cases c)
  case InstallLifecycle
  then show ?thesis
    using r fresh_no_own [OF f, of "''ms_blobs''"] fresh_no_own [OF f, of "''ms_lifecycle_format''"]
    by (auto simp: store_install_lifecycle_def install_lifecycle_def core_names_def lifecycle_names_def)
next
  case (References rs)
  obtain os rs' where d: "d = empty_db\<lparr> objects := os, app_refs := rs' \<rparr>"
    using f unfolding fresh_db_def by blast
  have "d' = d\<lparr> app_refs := rs \<rparr>" "\<forall>a \<in> set rs. a_deferred a"
    using References r by (auto simp: set_references_def d list_all_iff)
  with f References d show ?thesis by (simp add: fresh_db_def)
next
  case (MarkCleanup storage key st err)
  then show ?thesis
    using r fresh_no_own [OF f, of "''ms_gc''"] by (auto simp: mark_gc_def lifecycle_names_def)
qed (use r c fresh_check_schema [OF f] fresh_get_record [OF f] fresh_retry [OF f] fresh_verify_lifecycle [OF f] in
     \<open>auto simp: journal_def finalize_def publish_def complete_import_def update_metadata_def delete_def
        discard_def queue_orphans_def check_catalog_def\<close>)

lemma run_calls_sane:
  assumes "sane d" "list_all call_typed cs" "run_calls sid cs d = Inr d'"
  shows "sane d' \<and> (consistent d \<longrightarrow> consistent d') \<and> advances d d' \<and>
    (\<forall>p \<in> set (ms_prepared d'). p \<in> set (ms_prepared d) \<or>
       (\<exists>arg schema. Journal arg schema \<in> set cs \<and> physical arg = Some p))"
  using assms
proof (induction cs arbitrary: d)
  case (Cons c cs)
  show ?case
  proof (cases "consistent d")
    case True
    then show ?thesis
      using run_calls_step [OF True Cons.prems(2,3)] by (simp add: sane_def)
  next
    case False
    then have f: "fresh_db d" using Cons.prems(1) by (simp add: sane_def)
    obtain d1 where d1: "run_call sid c d = Inr d1" "run_calls sid cs d1 = Inr d'" using Cons.prems(3) by auto
    have 1: "sane d1" "ms_prepared d1 = []" using fresh_call [OF f _ d1(1)] Cons.prems(2) by simp_all
    obtain os rs where d: "d = empty_db\<lparr> objects := os, app_refs := rs \<rparr>"
      using f unfolding fresh_db_def by blast
    have "advances d d'" by (simp add: advances_def d)
    with Cons.IH [OF 1(1) _ d1(2)] Cons.prems(2) 1(2) False show ?thesis by auto
  qed
qed simp

section \<open>The system\<close>

record system =
  s_db :: db
  s_root :: root
  s_flight :: "(string \<times> bytes) list"

text \<open>One transaction of a participant: the calls, then the commit with its deferred checks.\<close>

definition body_of :: "string \<Rightarrow> call list \<Rightarrow> db \<Rightarrow> (unit \<times> db) res" where
  "body_of org cs d = ebind (run_calls org cs d) (\<lambda>d'. Inr ((), d'))"

definition commit :: "string \<Rightarrow> call list \<Rightarrow> db \<Rightarrow> db \<times> unit res" where
  "commit org cs = transact deferred_ok (body_of org cs)"

text \<open>
  A journaled token of this storage describes bytes that were uploaded to its key:
  \<open>_prepare_snapshot\<close> hashes the staged file, uploads it, and then journals.
\<close>

definition describes :: "digest \<Rightarrow> prepared_row \<Rightarrow> bytes \<Rightarrow> bool" where
  "describes xxh p b = (hash_file xxh b = (p_size p, p_digest p))"

definition upload_backed :: "digest \<Rightarrow> string \<Rightarrow> (string \<times> bytes) list \<Rightarrow> call \<Rightarrow> bool" where
  "upload_backed xxh sid flight c =
     (case c of
        Journal arg schema \<Rightarrow>
          (case physical arg of
             None \<Rightarrow> True
           | Some p \<Rightarrow> p_storage p = sid \<longrightarrow> list_ex (\<lambda>(k, b). k = p_key p \<and> describes xxh p b) flight)
      | _ \<Rightarrow> True)"

text \<open>
  Transactions of any participant, complete and incomplete uploads to this storage, removals of
  queued objects, and the transactions of metadata migrations of registered schemas (without
  coordination hooks, which are application code), in any order; a crash is a step that does not come.
\<close>

inductive step :: "digest \<Rightarrow> string \<Rightarrow> system \<Rightarrow> system \<Rightarrow> bool" for xxh sid where
  Transaction: "list_all call_typed cs \<Longrightarrow> list_all (upload_backed xxh sid (s_flight s)) cs \<Longrightarrow>
     step xxh sid s (s\<lparr> s_db := fst (commit org cs (s_db s)) \<rparr>)"
| Upload: "starts_with ''staging/'' stage \<Longrightarrow> upload fault stage b key (s_root s) = (r', res) \<Longrightarrow>
     step xxh sid s (s\<lparr> s_root := r',
       s_flight := (case res of Inr _ \<Rightarrow> (key, b) # s_flight s | Inl _ \<Rightarrow> s_flight s) \<rparr>)"
| Remove: "g \<in> set (ms_gc (s_db s)) \<Longrightarrow> g_storage g = sid \<Longrightarrow>
     step xxh sid s (s\<lparr> s_root := fst (delete_object linked done (g_key g) (s_root s)) \<rparr>)"
| BeginMigration: "plan_ok plan \<Longrightarrow> registered (s_db s) (mg_source plan) \<Longrightarrow>
     step xxh sid s (s\<lparr> s_db := fst (initialize_tx app backup plan (s_db s)) \<rparr>)"
| MigrateBatch: "plan_ok plan \<Longrightarrow> registered (s_db s) (mg_target plan) \<Longrightarrow>
     step xxh sid s (s\<lparr> s_db := fst (batch_tx plan n (s_db s)) \<rparr>)"

definition steps :: "digest \<Rightarrow> string \<Rightarrow> system \<Rightarrow> system \<Rightarrow> bool" where
  "steps xxh sid = (step xxh sid)\<^sup>*\<^sup>*"

inductive reach :: "digest \<Rightarrow> string \<Rightarrow> system \<Rightarrow> bool" for xxh sid where
  Start: "fresh_db (s_db s) \<Longrightarrow> app_refs (s_db s) = [] \<Longrightarrow> s_flight s = [] \<Longrightarrow> reach xxh sid s"
| Next: "reach xxh sid s \<Longrightarrow> step xxh sid s s' \<Longrightarrow> reach xxh sid s'"

inductive_cases stepE: "step xxh sid s s'"

lemma reach_steps: "steps xxh sid s s' \<Longrightarrow> reach xxh sid s \<Longrightarrow> reach xxh sid s'"
  unfolding steps_def by (induction rule: rtranclp_induct) (auto intro: reach.Next)

section \<open>The invariant of the system\<close>

definition queued_key :: "string \<Rightarrow> system \<Rightarrow> string \<Rightarrow> bool" where
  "queued_key sid s k = ((sid, k) \<in> gc_key ` set (ms_gc (s_db s)))"

definition system_ok :: "digest \<Rightarrow> string \<Rightarrow> system \<Rightarrow> bool" where
  "system_ok xxh sid s =
     (sane (s_db s) \<and>
      (\<forall>p \<in> set (ms_prepared (s_db s)). p_storage p = sid \<longrightarrow> queued_key sid s (p_key p) \<or>
         object_key (p_key p) \<and> (\<exists>b. s_root s (p_key p) = Some b \<and> describes xxh p b)) \<and>
      (\<forall>(k, b) \<in> set (s_flight s). object_key k \<and> (queued_key sid s k \<or> s_root s k = Some b)))"

text \<open>What one step may do to the database and to the objects.\<close>

definition keeps :: "string \<Rightarrow> system \<Rightarrow> system \<Rightarrow> bool" where
  "keeps sid s s' =
     (advances (s_db s) (s_db s') \<and> (consistent (s_db s) \<longrightarrow> consistent (s_db s')) \<and>
      (\<forall>k b. object_key k \<longrightarrow> s_root s k = Some b \<longrightarrow> s_root s' k = Some b \<or> queued_key sid s' k))"

lemma commit_cases:
  obtains "fst (commit org cs d) = d" | "run_calls org cs d = Inr (fst (commit org cs d))"
proof (cases "commit org cs d")
  case (Pair d' m)
  show ?thesis
  proof (cases m)
    case (Inl e)
    then have "d' = d"
      using Pair tx.run_raises [of deferred_ok "body_of org cs" d d' e] by (simp add: commit_def)
    with Pair that(1) show ?thesis by simp
  next
    case (Inr x)
    then have "body_of org cs d = Inr (x, d')"
      using Pair tx.run_returns [of deferred_ok "body_of org cs" d d' x] by (simp add: commit_def)
    with Pair that(2) show ?thesis by (auto simp: body_of_def)
  qed
qed

lemma commit_sane:
  fixes org cs d
  assumes "sane d" "list_all call_typed cs"
  defines "d' \<equiv> fst (commit org cs d)"
  shows "sane d' \<and> (consistent d \<longrightarrow> consistent d') \<and> advances d d' \<and>
    (\<forall>p \<in> set (ms_prepared d'). p \<in> set (ms_prepared d) \<or>
       (\<exists>arg schema. Journal arg schema \<in> set cs \<and> physical arg = Some p))"
  by (rule commit_cases [of org cs d]) (use run_calls_sane [OF assms(1,2)] assms(1) in \<open>auto simp: d'_def\<close>)

lemma object_not_staging: "object_key k \<Longrightarrow> starts_with ''staging/'' k \<Longrightarrow> False"
  by (auto simp: object_key_def starts_with_def)

lemma upload_root:
  assumes "upload fault stage b key r = (r', res)" "starts_with ''staging/'' stage" "object_key k" "r k = Some c"
  shows "r' k = Some c"
  using assms object_not_staging [of k] by (auto simp: upload_def split: if_splits)

lemma upload_done: "upload fault stage b key r = (r', Inr u) \<Longrightarrow> object_key key \<and> r' key = Some b"
  by (auto simp: upload_def split: if_splits)

lemma delete_object_root:
  "fst (delete_object linked done key r) k = (if k = key then fst (delete_object linked done key r) key else r k)"
  by (auto simp: delete_object_def split: sum.splits)

lemma gc_keys_mono: "advances d d' \<Longrightarrow> (sid, k) \<in> gc_key ` set (ms_gc d) \<Longrightarrow> (sid, k) \<in> gc_key ` set (ms_gc d')"
  unfolding advances_def by blast

text \<open>A change of the database that keeps its invariant and journals only uploaded bytes.\<close>

lemma system_ok_db:
  assumes ok: "system_ok xxh sid s" and d: "sane d'" "advances (s_db s) d'"
    and p: "\<And>p. p \<in> set (ms_prepared d') \<Longrightarrow> p_storage p = sid \<Longrightarrow> p \<in> set (ms_prepared (s_db s)) \<or>
       list_ex (\<lambda>(k, b). k = p_key p \<and> describes xxh p b) (s_flight s)"
  shows "system_ok xxh sid (s\<lparr> s_db := d' \<rparr>)"
proof -
  have q: "queued_key sid s k \<Longrightarrow> queued_key sid (s\<lparr> s_db := d' \<rparr>) k" for k
    using gc_keys_mono [OF d(2)] by (simp add: queued_key_def)
  have "queued_key sid (s\<lparr> s_db := d' \<rparr>) (p_key x) \<or>
         object_key (p_key x) \<and> (\<exists>b. s_root s (p_key x) = Some b \<and> describes xxh x b)"
    if x: "x \<in> set (ms_prepared d')" "p_storage x = sid" for x
    using p [OF x]
  proof
    assume "x \<in> set (ms_prepared (s_db s))"
    with ok x(2) q show ?thesis unfolding system_ok_def by blast
  next
    assume "list_ex (\<lambda>(k, b). k = p_key x \<and> describes xxh x b) (s_flight s)"
    then obtain b where b: "(p_key x, b) \<in> set (s_flight s)" "describes xxh x b"
      by (auto simp: list_ex_iff)
    with ok q show ?thesis unfolding system_ok_def by fast
  qed
  moreover have "\<forall>(k, b) \<in> set (s_flight s). object_key k \<and> (queued_key sid (s\<lparr> s_db := d' \<rparr>) k \<or> s_root s k = Some b)"
    using ok q unfolding system_ok_def by fast
  ultimately show ?thesis
    using d(1) by (simp add: system_ok_def)
qed

lemma step_transaction_ok:
  assumes ok: "system_ok xxh sid s" and t: "list_all call_typed cs" and u: "list_all (upload_backed xxh sid (s_flight s)) cs"
  shows "system_ok xxh sid (s\<lparr> s_db := fst (commit org cs (s_db s)) \<rparr>)"
proof -
  define d' where "d' = fst (commit org cs (s_db s))"
  have c: "sane d'" "advances (s_db s) d'"
    "\<forall>p \<in> set (ms_prepared d'). p \<in> set (ms_prepared (s_db s)) \<or>
       (\<exists>arg schema. Journal arg schema \<in> set cs \<and> physical arg = Some p)"
    using commit_sane [OF _ t, of "s_db s" org] ok by (simp_all add: system_ok_def d'_def)
  have "list_ex (\<lambda>(k, b). k = p_key p \<and> describes xxh p b) (s_flight s)"
    if "Journal arg schema \<in> set cs" "physical arg = Some p" "p_storage p = sid" for arg schema p
    using u that by (force simp: list_all_iff upload_backed_def)
  with c(3) system_ok_db [OF ok c(1,2)] show ?thesis
    unfolding d'_def by blast
qed

section \<open>The transactions of a migration\<close>

lemma transact_cases:
  obtains e where "transact ok body d = (d, Inl e)" | x d' where "transact ok body d = (d', Inr x)" "body d = Inr (x, d')" "ok d'"
proof (cases "body d")
  case (Inl e)
  then show ?thesis using that(1) by (simp add: transact_def)
next
  case (Inr y)
  then show ?thesis using that by (cases y; cases "ok (snd y)") (auto simp: transact_def)
qed

definition settled :: "db \<Rightarrow> bool" where
  "settled d = (referential d \<and> deferred_ok d)"

definition migration_keeps :: "db \<Rightarrow> db \<Rightarrow> bool" where
  "migration_keeps d d' =
     (consistent d' \<and> advances d d' \<and> ms_prepared d' = ms_prepared d \<and> (settled d \<longrightarrow> settled d'))"

lemma initialize_tx_keeps:
  assumes "consistent d" "plan_ok plan"
  shows "migration_keeps d (fst (initialize_tx app backup plan d))"
proof (rule transact_cases [of deferred_ok "initialize app backup plan" d])
  fix job d' assume "transact deferred_ok (initialize app backup plan) d = (d', Inr job)"
    "initialize app backup plan d = Inr (job, d')" "deferred_ok d'"
  with initialize_keeps [OF _ assms(2,1)] show ?thesis
    by (simp add: initialize_tx_def migration_keeps_def settled_def)
qed (use assms in \<open>simp add: initialize_tx_def migration_keeps_def\<close>)

lemma batch_tx_keeps:
  assumes "consistent d" "plan_ok plan" "registered d (mg_target plan)"
  shows "migration_keeps d (fst (batch_tx plan n d))"
proof (rule batch_tx_cases [of plan n d])
  fix job xs d' assume "batch_tx plan n d = (d', Inr job)" "batch plan n ([], d) = Inr (job, xs, d')" "deferred_ok d'"
  with batch_keeps [OF _ assms(2,1,3)] show ?thesis
    by (simp add: migration_keeps_def settled_def)
qed (use assms in \<open>simp add: migration_keeps_def\<close>)

lemma registered_consistent: "sane d \<Longrightarrow> registered d s \<Longrightarrow> consistent d"
proof -
  have "ms_schemas d = []" if f: "fresh_db d"
  proof -
    obtain os rs where "d = empty_db\<lparr> objects := os, app_refs := rs \<rparr>" using f unfolding fresh_db_def by blast
    then show ?thesis by (simp add: empty_db_def)
  qed
  then show "sane d \<Longrightarrow> registered d s \<Longrightarrow> consistent d" by (auto simp: sane_def registered_def)
qed

lemma step_migration_ok:
  assumes ok: "system_ok xxh sid s" and m: "migration_keeps (s_db s) d'"
  shows "system_ok xxh sid (s\<lparr> s_db := d' \<rparr>)"
  by (rule system_ok_db [OF ok]) (use m in \<open>simp_all add: migration_keeps_def sane_def\<close>)

text \<open>The two kinds of migration transactions are such changes.\<close>

lemma begin_migration_keeps:
  "system_ok xxh sid s \<Longrightarrow> plan_ok plan \<Longrightarrow> registered (s_db s) (mg_source plan) \<Longrightarrow>
     migration_keeps (s_db s) (fst (initialize_tx app backup plan (s_db s)))"
  using initialize_tx_keeps registered_consistent by (simp add: system_ok_def)

lemma migrate_batch_keeps:
  "system_ok xxh sid s \<Longrightarrow> plan_ok plan \<Longrightarrow> registered (s_db s) (mg_target plan) \<Longrightarrow>
     migration_keeps (s_db s) (fst (batch_tx plan n (s_db s)))"
  using batch_tx_keeps registered_consistent by (simp add: system_ok_def)

lemma step_upload_ok:
  assumes ok: "system_ok xxh sid s" and st: "starts_with ''staging/'' stage"
    and u: "upload fault stage b key (s_root s) = (r', res)"
  shows "system_ok xxh sid (s\<lparr> s_root := r',
       s_flight := (case res of Inr _ \<Rightarrow> (key, b) # s_flight s | Inl _ \<Rightarrow> s_flight s) \<rparr>)" (is "system_ok xxh sid ?s'")
proof -
  note keep = upload_root [OF u st]
  have q: "queued_key sid ?s' k = queued_key sid s k" for k by (simp add: queued_key_def)
  have f: "object_key k \<and> (queued_key sid s k \<or> r' k = Some c)" if "(k, c) \<in> set (s_flight ?s')" for k c
  proof (cases "(k, c) \<in> set (s_flight s)")
    case True
    with ok have "object_key k \<and> (queued_key sid s k \<or> s_root s k = Some c)"
      unfolding system_ok_def by blast
    with keep show ?thesis by blast
  next
    case False
    with that obtain x where "res = Inr x" "k = key" "c = b" by (cases res) auto
    with upload_done u show ?thesis by blast
  qed
  show ?thesis
    using ok keep f unfolding system_ok_def q by (fastforce simp: split_beta)
qed

lemma step_remove_ok:
  assumes ok: "system_ok xxh sid s" and g: "g \<in> set (ms_gc (s_db s))" "g_storage g = sid"
  shows "system_ok xxh sid (s\<lparr> s_root := fst (delete_object linked done (g_key g) (s_root s)) \<rparr>)"
proof -
  have q: "queued_key sid s (g_key g)"
    using g by (force simp: queued_key_def gc_key_def image_iff)
  have r: "k \<noteq> g_key g \<Longrightarrow> fst (delete_object linked done (g_key g) (s_root s)) k = s_root s k" for k
    using delete_object_root [of linked "done" "g_key g" "s_root s" k] by simp
  have "queued_key sid (s\<lparr> s_root := x \<rparr>) k = queued_key sid s k" for x k by (simp add: queued_key_def)
  then show ?thesis
    using ok q r unfolding system_ok_def by (simp add: split_beta) metis
qed

lemma step_ok:
  assumes "step xxh sid s s'" and ok: "system_ok xxh sid s"
  shows "system_ok xxh sid s'"
  using assms(1)
proof (cases rule: step.cases)
  case (Transaction cs org)
  with step_transaction_ok [OF ok] show ?thesis by blast
next
  case (Upload stage fault b key r' res)
  with step_upload_ok [OF ok] show ?thesis by blast
next
  case (Remove g linked "done")
  with step_remove_ok [OF ok] show ?thesis by blast
next
  case (BeginMigration plan app backup)
  then show ?thesis using step_migration_ok [OF ok begin_migration_keeps [OF ok]] by blast
next
  case (MigrateBatch plan n)
  then show ?thesis using step_migration_ok [OF ok migrate_batch_keeps [OF ok]] by blast
qed

lemma initial_system_ok: "fresh_db (s_db s) \<Longrightarrow> s_flight s = [] \<Longrightarrow> system_ok xxh sid s"
proof -
  assume f: "fresh_db (s_db s)" "s_flight s = []"
  obtain os rs where "s_db s = empty_db\<lparr> objects := os, app_refs := rs \<rparr>"
    using f(1) unfolding fresh_db_def by blast
  with f show ?thesis by (simp add: system_ok_def sane_def)
qed

lemma reach_ok: "reach xxh sid s \<Longrightarrow> system_ok xxh sid s"
  by (induction rule: reach.induct) (auto intro: initial_system_ok step_ok)

section \<open>Two states\<close>

lemma keeps_refl [simp]: "keeps sid s s"
  by (simp add: keeps_def)

lemma keeps_trans: "keeps sid s s' \<Longrightarrow> keeps sid s' s'' \<Longrightarrow> keeps sid s s''"
  unfolding keeps_def queued_key_def by (meson advances_trans gc_keys_mono)

lemma step_keeps:
  assumes "step xxh sid s s'" "system_ok xxh sid s"
  shows "keeps sid s s'"
  using assms(1)
proof (cases rule: step.cases)
  case (Transaction cs org)
  then show ?thesis
    using commit_sane [OF _ Transaction(2), of "s_db s" org] assms(2) by (simp add: keeps_def system_ok_def)
next
  case (Upload stage fault b key r' res)
  then show ?thesis
    using upload_root by (simp add: keeps_def)
next
  case (Remove g linked "done")
  have "queued_key sid s (g_key g)"
    using Remove by (force simp: queued_key_def gc_key_def image_iff)
  then have "queued_key sid s' (g_key g)"
    using Remove by (simp add: queued_key_def)
  moreover have "k \<noteq> g_key g \<Longrightarrow> s_root s' k = s_root s k" for k
    using delete_object_root [of linked "done" "g_key g" "s_root s" k] Remove by simp
  ultimately show ?thesis
    using Remove(1) by (simp add: keeps_def) metis
next
  case (BeginMigration plan app backup)
  then show ?thesis
    using begin_migration_keeps [OF assms(2) BeginMigration(2,3)] by (simp add: keeps_def migration_keeps_def)
next
  case (MigrateBatch plan n)
  then show ?thesis
    using migrate_batch_keeps [OF assms(2) MigrateBatch(2,3)] by (simp add: keeps_def migration_keeps_def)
qed

lemma steps_keep: "steps xxh sid s s' \<Longrightarrow> system_ok xxh sid s \<Longrightarrow> keeps sid s s' \<and> system_ok xxh sid s'"
  unfolding steps_def
proof (induction rule: rtranclp_induct)
  case (step t u)
  then show ?case using step_keeps step_ok keeps_trans by blast
qed simp

section \<open>References in committed states\<close>

lemma fresh_call_linked:
  assumes f: "fresh_db d" and l: "referential d" and c: "call_typed c" and r: "run_call sid c d = Inr d'"
  shows "referential d'"
proof (cases "\<exists>s. c = InstallSchema s")
  case True
  then obtain s where s: "c = InstallSchema s" by blast
  then have w: "wf_declared s" and ins: "store_install_schema s d = Inr d'" using c r by (simp_all add: call_typed_def)
  note e = store_install_schema_fresh [OF f ins w]
  have "guarded_schema d' (sc_name s)"
    using e guarded_name [OF w] by (simp add: guarded_schema_def)
  moreover have "\<forall>a \<in> set (app_refs d). a_deferred a"
  proof -
    obtain os rs where "d = empty_db\<lparr> objects := os, app_refs := rs \<rparr>" using f unfolding fresh_db_def by blast
    with l show ?thesis by (simp add: referential_def)
  qed
  ultimately show ?thesis using e by (simp add: referential_def)
next
  case False
  then have "fresh_db d'" "\<forall>a \<in> set (app_refs d'). a_deferred a"
    using fresh_other_call [OF f r] by blast+
  moreover obtain os rs where "d' = empty_db\<lparr> objects := os, app_refs := rs \<rparr>"
    using calculation(1) unfolding fresh_db_def by blast
  ultimately show ?thesis by (simp add: referential_def)
qed

lemma run_calls_linked:
  assumes "sane d" "referential d" "list_all call_typed cs" "run_calls sid cs d = Inr d'"
  shows "referential d'"
  using assms
proof (induction cs arbitrary: d)
  case (Cons c cs)
  then obtain d1 where d1: "run_call sid c d = Inr d1" "run_calls sid cs d1 = Inr d'" by auto
  have c: "call_typed c" "list_all call_typed cs" using Cons.prems(3) by simp_all
  have "referential d1"
    using Cons.prems(1,2) run_call_linked [OF _ _ c(1) d1(1)] fresh_call_linked [OF _ _ c(1) d1(1)]
    by (auto simp: sane_def)
  moreover have "sane d1"
    using Cons.prems(1) run_call_consistent [OF _ c(1) d1(1)] fresh_call [OF _ c(1) d1(1)] by (auto simp: sane_def)
  ultimately show ?case using Cons.IH d1(2) c(2) by blast
qed simp

lemma commit_settled:
  assumes "sane d" "settled d" "list_all call_typed cs"
  shows "settled (fst (commit org cs d))"
proof (cases "commit org cs d")
  case (Pair d' m)
  show ?thesis
  proof (cases m)
    case (Inl e)
    then show ?thesis
      using Pair tx.run_raises [of deferred_ok "body_of org cs" d d' e] assms(2) by (simp add: commit_def)
  next
    case (Inr x)
    then have tr: "transact deferred_ok (body_of org cs) d = (d', Inr x)"
      using Pair by (simp add: commit_def)
    have "body_of org cs d = Inr (x, d')" by (rule tx.run_returns [OF tr])
    moreover from this tr have q: "deferred_ok d'"
      by (simp add: transact_def split: if_splits)
    ultimately have "run_calls org cs d = Inr d'" by (auto simp: body_of_def)
    with q Pair run_calls_linked [OF assms(1) _ assms(3), of org d'] assms(2) show ?thesis
      by (simp add: settled_def)
  qed
qed

lemma reach_settled: "reach xxh sid s \<Longrightarrow> settled (s_db s)"
proof (induction rule: reach.induct)
  case (Start s)
  obtain os rs where "s_db s = empty_db\<lparr> objects := os, app_refs := rs \<rparr>"
    using Start(1) unfolding fresh_db_def by blast
  with Start(2) show ?case by (simp add: settled_def referential_def deferred_ok_def)
next
  case (Next s s')
  have ok: "system_ok xxh sid s" by (rule reach_ok [OF Next.hyps(1)])
  then have sane: "sane (s_db s)" by (simp add: system_ok_def)
  from Next.hyps(2) show ?case
  proof (cases rule: step.cases)
    case (BeginMigration plan app backup)
    then show ?thesis
      using begin_migration_keeps [OF ok BeginMigration(2,3)] Next.IH by (simp add: migration_keeps_def)
  next
    case (MigrateBatch plan n)
    then show ?thesis
      using migrate_batch_keeps [OF ok MigrateBatch(2,3)] Next.IH by (simp add: migration_keeps_def)
  qed (use Next.IH sane commit_settled in simp_all)
qed

lemma reach_checked:
  assumes "reach xxh sid s" "consistent (s_db s)"
  shows "check_catalog (s_db s) = Inr ()"
  using check_catalog_ok [OF assms(2)] reach_settled [OF assms(1)] by (simp add: settled_def)

end
