(* ===== verification/DeclarationProperties.thy ===== *)
theory DeclarationProperties
  imports Keyset
begin

text \<open>
  The properties of declarations, metadata values and compiled queries, with a sample schema on
  which each is evaluated.
\<close>

section \<open>A sample declaration\<close>

definition sample_fields :: "(string \<times> field) list" where
  "sample_fields = [(''when'', Timestamp False False), (''count'', Integer True False),
     (''title'', Text False True), (''flag'', Boolean False False)]"

definition sample_args :: "(pyval \<times> pyval) list \<Rightarrow> blob_schema res" where
  "sample_args fs =
     mk_schema (PStr ''doc'') (PDict fs) (PInt 1)
       (PTuple [PIndex \<lparr> ix_fields = [''title'', ''count''], ix_unique = True \<rparr>,
                PIndex \<lparr> ix_fields = [''count''], ix_unique = False \<rparr>])
       (PTuple [PStr ''json'', PStr ''file'']) (PStr ''v1'') (PCallable 7)"

definition sample_schema :: blob_schema where
  "sample_schema =
     \<lparr> sc_name = ''doc'',
       sc_fields = [(''count'', Integer True False), (''flag'', Boolean False False),
                    (''title'', Text False True), (''when'', Timestamp False False)],
       sc_version = 1,
       sc_indexes = [\<lparr> ix_fields = [''count''], ix_unique = False \<rparr>,
                     \<lparr> ix_fields = [''title'', ''count''], ix_unique = True \<rparr>],
       sc_handlers = [''file'', ''json''], sc_validator_id = Some ''v1'',
       sc_payload_validator = Some 7 \<rparr>"

lemma sample_args_schema: "sample_args (py_fields sample_fields) = Inr sample_schema"
  by code_simp

lemma sample_indexes: "list_all wf_index (sc_indexes sample_schema)"
  by code_simp

section \<open>Declarations\<close>

text \<open>
  C18. A declaration that \<open>BlobSchema\<close> accepts, with indexes that \<open>Index\<close> accepts, is read back
  from its canonical definition unchanged, except that a validator callback becomes the callback
  that reports its absence.
\<close>

theorem definition_roundtrip:
  assumes "mk_schema name flds version indexes handlers vid cb = Inr s"
    and "list_all wf_index (sc_indexes s)"
  shows "decode (schema_definition s) =
    Inr (s\<lparr> sc_payload_validator := map_option (\<lambda>_. unavailable_validator) (sc_validator_id s) \<rparr>)"
  using mk_schema_wf [OF assms(1)] assms(2)
  by (intro decode_definition) (simp add: wf_declared_def)

theorem definition_roundtrip_witness:
  "decode (schema_definition sample_schema) =
     Inr (sample_schema\<lparr> sc_payload_validator := Some unavailable_validator \<rparr>)"
  using definition_roundtrip [OF sample_args_schema [unfolded sample_args_def] sample_indexes]
  by (simp add: sample_schema_def)

text \<open>
  C32. The declared order of fields, indexes and handlers does not matter: permuted arguments give
  the same declaration, hence the same canonical definition.
\<close>

theorem declaration_order:
  assumes "mk_schema name (PDict (py_fields fs)) version (PTuple (map PIndex ixs))
             (PTuple (map PStr hs)) vid cb = Inr s"
    and "mset gs = mset fs" and "mset jxs = mset ixs" and "mset ks = mset hs"
  shows "mk_schema name (PDict (py_fields gs)) version (PTuple (map PIndex jxs))
             (PTuple (map PStr ks)) vid cb = Inr s"
  using assms by (rule mk_schema_order)

theorem declaration_order_witness:
  "mk_schema (PStr ''doc'') (PDict (py_fields (rev sample_fields))) (PInt 1)
     (PTuple (map PIndex [\<lparr> ix_fields = [''count''], ix_unique = False \<rparr>,
                          \<lparr> ix_fields = [''title'', ''count''], ix_unique = True \<rparr>]))
     (PTuple (map PStr [''file'', ''json''])) (PStr ''v1'') (PCallable 7) = Inr sample_schema"
  by (rule declaration_order [where fs = sample_fields and hs = "[''json'', ''file'']" and
        ixs = "[\<lparr> ix_fields = [''title'', ''count''], ix_unique = True \<rparr>,
                \<lparr> ix_fields = [''count''], ix_unique = False \<rparr>]"])
    (use sample_args_schema in \<open>simp_all add: sample_args_def\<close>)

section \<open>Metadata values\<close>

text \<open>
  C29. Normalisation and recovery are inverse: a recovered value normalises to the stored one, and
  the stored form of an accepted value is recovered as that value, a timestamp as the same instant
  in UTC.
\<close>

theorem field_roundtrip:
  "(from_sql f w = Inr x \<longrightarrow> normalize f x = Inr w) \<and>
   (normalize f v = Inr w \<longrightarrow>
      from_sql f w =
        Inr (case v of PDatetime t \<Rightarrow> PDatetime (of_clock_us (instant t)) | _ \<Rightarrow> v))"
  using from_sql_normalize normalize_from_sql by blast

definition sample_time :: datetime where
  "sample_time = \<lparr> dt_year = 2024, dt_month = 2, dt_day = 29, dt_hour = 1, dt_minute = 30,
     dt_second = 0, dt_microsecond = 5, dt_utcoffset = Some 7200000000 \<rparr>"

theorem field_roundtrip_witness:
  "from_sql (Timestamp False False) (PStr ''2024-02-28T23:30:00.000005Z'') =
     Inr (PDatetime (of_clock_us (instant sample_time))) \<and>
   normalize (Boolean True False) (PBool True) = Inr (PInt 1)"
proof -
  have "normalize (Timestamp False False) (PDatetime sample_time) =
      Inr (PStr ''2024-02-28T23:30:00.000005Z'')"
    by code_simp
  moreover have "from_sql (Boolean True False) (PInt 1) = Inr (PBool True)"
    by code_simp
  ultimately show ?thesis
    using field_roundtrip [of "Timestamp False False" "PStr ''2024-02-28T23:30:00.000005Z''" _
        "PDatetime sample_time"]
      field_roundtrip [of "Boolean True False" "PInt 1" "PBool True"]
    by simp
qed

text \<open>C31. Stored timestamps compare as text in the order of their instants.\<close>

theorem timestamp_order:
  assumes "normalize f (PDatetime t) = Inr (PStr a)" "normalize g (PDatetime u) = Inr (PStr b)"
  shows "(a < b) = (instant t < instant u) \<and> (a = b) = (instant t = instant u)"
  using timestamp_text_order [OF assms] by blast

theorem timestamp_order_witness:
  "''2024-02-28T23:30:00.000005Z'' < ''2024-02-29T00:30:00.000005Z'' \<longleftrightarrow>
     instant sample_time < instant (sample_time\<lparr> dt_hour := 2, dt_minute := 30 \<rparr>)"
proof -
  have "normalize (Timestamp False False) (PDatetime sample_time) =
      Inr (PStr ''2024-02-28T23:30:00.000005Z'')"
    "normalize (Timestamp True False) (PDatetime (sample_time\<lparr> dt_hour := 2, dt_minute := 30 \<rparr>)) =
      Inr (PStr ''2024-02-29T00:30:00.000005Z'')"
    by code_simp+
  from timestamp_order [OF this] show ?thesis by blast
qed

text \<open>
  C33. A quoted identifier is read by the SQL tokenizer as exactly the name that was quoted: nothing
  of a name escapes from its quotes.
\<close>

theorem quoting_is_safe:
  assumes "quote_identifier v = Inr q" "rest = [] \<or> hd rest \<noteq> CHR 0x22"
  shows "\<exists>s. v = PStr s \<and> q \<noteq> [] \<and> hd q = CHR 0x22 \<and>
    read_quoted (CHR 0x22) (tl q @ rest) = Some (s, rest)"
  using assms by (rule quote_identifier_read)

theorem quoting_is_safe_witness:
  "\<exists>s. PStr [CHR ''a'', CHR 0x22, CHR '';''] = PStr s \<and>
     read_quoted (CHR 0x22)
       (tl [CHR 0x22, CHR ''a'', CHR 0x22, CHR 0x22, CHR '';'', CHR 0x22] @ '' ASC'') = Some (s, '' ASC'')"
proof -
  have "quote_identifier (PStr [CHR ''a'', CHR 0x22, CHR '';'']) =
      Inr [CHR 0x22, CHR ''a'', CHR 0x22, CHR 0x22, CHR '';'', CHR 0x22]"
    by code_simp
  from quoting_is_safe [OF this, of "'' ASC''"] show ?thesis by auto
qed

section \<open>Queries\<close>


text \<open>
  C28. The keyset condition of a cursor selects exactly the rows after the cursor in the order of
  the query, with NULL first, descending fields reversed, and three-valued comparisons.
\<close>

theorem keyset_selects_after:
  assumes "length vs = length os"
  shows "(eval r (OrList (branches [] (zip os vs))) = Some True) = (cursor_key os vs < order_key os r)"
  using assms by (rule keyset_condition)

definition sample_row :: "string \<Rightarrow> pyval \<Rightarrow> pyval \<Rightarrow> row_view" where
  "sample_row i n t =
     \<lparr> rv_id = i, rv_state = ''ready'', rv_schema_name = ''doc'', rv_blob_version = 1,
       rv_row_version = 1,
       rv_cols = [(''count'', n), (''flag'', PNone), (''title'', t), (''when'', PNone)] \<rparr>"

theorem keyset_selects_after_witness:
  "eval (sample_row ''b'' (PInt 3) PNone)
     (OrList (branches [] (zip [(''title'', True), (''id'', False)] [PStr ''x'', PStr ''a'']))) = Some True"
proof -
  have "cursor_key [(''title'', True), (''id'', False)] [PStr ''x'', PStr ''a''] <
      order_key [(''title'', True), (''id'', False)] (sample_row ''b'' (PInt 3) PNone)"
    by (simp add: cursor_key_def order_key_def directed_key_def cell_def sample_row_def)
  then show ?thesis
    using keyset_selects_after [of "[PStr ''x'', PStr ''a'']" "[(''title'', True), (''id'', False)]"
        "sample_row ''b'' (PInt 3) PNone"]
    by simp
qed

text \<open>
  C17. Pages follow each other without gap or repetition: for a query without a cursor, the cursor
  of any selected row is accepted and yields the rows that follow it in the full result.
\<close>

theorem pages_are_consecutive:
  assumes "compile_query s whr preds ob (AfterValue PNone) (PInt n) = Inr q"
    and "distinct (map rv_id rows)" and "\<forall>r \<in> set rows. row_typed s r"
    and "1 \<le> m" "m \<le> 1000" and "i < length (matching q rows)"
  shows "\<exists>c q'. cursor (record_of s (matching q rows ! i)) s ob = Inr c \<and>
    compile_query s whr preds ob (AfterCursor c) (PInt m) = Inr q' \<and>
    run_query q' rows = take (nat m) (map rv_id (drop (Suc i) (matching q rows)))"
  using assms by (rule next_page)

definition sample_rows :: "row_view list" where
  "sample_rows = [sample_row ''a'' (PInt 1) (PStr ''x''), sample_row ''b'' (PInt 3) PNone,
     sample_row ''c'' (PInt 3) (PStr ''y''), sample_row ''d'' (PInt 9) (PStr ''x'')]"

definition sample_order :: "order_arg list option" where
  "sample_order = Some [Order (PStr ''title'') (PBool True)]"

definition sample_query :: query where
  "sample_query =
     \<lparr> q_table = table_name sample_schema,
       q_clauses = [StateReady, SchemaName ''doc'', BlobVersion 1, RowVersion 1,
                    Compare ''count'' Lt (PInt 9)],
       q_order = [(''title'', True), (''id'', False)], q_limit = 1 \<rparr>"

lemma sample_matching: "map rv_id (matching sample_query sample_rows) = [''c'', ''a'', ''b'']"
  by code_simp

theorem pages_are_consecutive_witness:
  "\<exists>c q'. cursor (record_of sample_schema (matching sample_query sample_rows ! 0)) sample_schema
            sample_order = Inr c \<and>
     compile_query sample_schema PNone (Some [Predicate (PStr ''count'') (PStr ''lt'') (PInt 9)])
       sample_order (AfterCursor c) (PInt 2) = Inr q' \<and>
     run_query q' sample_rows = [''a'', ''b'']"
proof -
  have q: "compile_query sample_schema PNone (Some [Predicate (PStr ''count'') (PStr ''lt'') (PInt 9)])
      sample_order (AfterValue PNone) (PInt 1) = Inr sample_query"
    by code_simp
  have "distinct (map rv_id sample_rows)" "\<forall>r \<in> set sample_rows. row_typed sample_schema r"
    by code_simp+
  moreover have "0 < length (matching sample_query sample_rows)"
    using arg_cong [OF sample_matching, of length] by simp
  moreover have "map rv_id (drop (Suc 0) (matching sample_query sample_rows)) = [''a'', ''b'']"
    using arg_cong [OF sample_matching, of "drop 1"] by (simp add: drop_map)
  ultimately show ?thesis
    using pages_are_consecutive [OF q, of sample_rows 2 0] by simp
qed

end
