(* ===== verification/SampleRun.thy ===== *)
theory SampleRun
  imports System DeclarationProperties
begin

text \<open>
  A run of the system on concrete values: a schema is installed, a file of five bytes is uploaded,
  journaled and imported, its metadata is changed, or the blob is retired and cleaned up.
\<close>

section \<open>A sample run\<close>

definition tiny_schema :: blob_schema where
  "tiny_schema =
     \<lparr> sc_name = ''d'', sc_fields = [(''n'', Integer True False)], sc_version = 1, sc_indexes = [],
       sc_handlers = [''file''], sc_validator_id = None, sc_payload_validator = None \<rparr>"

lemma tiny_schema_made:
  "mk_schema (PStr ''d'') (PDict [(PStr ''n'', PField (Integer True False))]) (PInt 1) (PTuple [])
     (PTuple [PStr ''file'']) PNone PNone = Inr tiny_schema"
  by code_simp


definition sample_xxh :: digest where
  "sample_xxh b = take 32 (hex b @ replicate 32 (CHR ''0''))"

definition sample_key :: string where
  "sample_key = ''objects/0123456789abcdef0123456789abcdef''"

definition sample_token :: prepared_row where
  "sample_token =
     \<lparr> p_token = ''t1'', p_storage = ''root'', p_key = sample_key, p_size = 5,
       p_digest = sample_xxh ''hello'', p_algorithm = ''xxh3_128'', p_handler = ''file'',
       p_handler_version = 1, p_schema = ''d'', p_version = 1 \<rparr>"

definition sample_metadata :: pyval where
  "sample_metadata = PDict [(PStr ''n'', PInt 3)]"

definition sample_vals :: "(string \<times> pyval) list" where
  "sample_vals = [(''n'', PInt 3)]"

definition sample_import :: call where
  "sample_import = CompleteImport ''b1'' (PreparedFile sample_token) tiny_schema sample_metadata
     sample_vals 5 (sample_xxh ''hello'') None"

definition db1 :: db where "db1 = fst (commit ''root'' [InstallSchema tiny_schema] empty_db)"
definition db2 :: db where "db2 = fst (commit ''root'' [Journal (PreparedFile sample_token) (Some tiny_schema)] db1)"
definition db3 :: db where "db3 = fst (commit ''root'' [sample_import] db2)"
definition db4 :: db where "db4 = fst (commit ''root'' [Delete (PStr ''b1'') (PInt 1)] db3)"

definition db5 :: db where
  "db5 = fst (commit ''root'' [UpdateMetadata (PStr ''b1'') (Some tiny_schema) (PDict [(PStr ''n'', PInt 4)]) (PInt 1)] db3)"
definition db6 :: db where "db6 = fst (commit ''root'' [MarkCleanup ''root'' sample_key Done None] db4)"

text \<open>The databases; each evaluation starts from the result of the one before.\<close>

lemma db1_value [code]:
  "db1 = empty_db\<lparr>
     objects := own core_names @ schema_objects tiny_schema @ own payload_names @ [ready_guard tiny_schema False] @
       own encoding_names @ own lifecycle_names @ [retire_guard ''d''],
     formats := [(''ms_format'', 1), (''ms_payload_format'', 1), (''ms_encoding_format'', 1), (''ms_lifecycle_format'', 1)],
     ms_schemas := [\<lparr> sr_name = ''d'', sr_version = 1, sr_table = ''ms_data_64'', sr_definition = schema_definition tiny_schema \<rparr>],
     ms_payload_schemas := [(''d'', 1)], ms_lifecycle_schemas := [''d''] \<rparr>"
  by code_simp

lemma db2_value [code]: "db2 = db1\<lparr> ms_prepared := [sample_token] \<rparr>"
  by code_simp

lemma db3_value [code]:
  "db3 = db2\<lparr>
     ms_blobs := [\<lparr> b_id = ''b1'', b_schema = ''d'', b_version = 1, b_state = Ready \<rparr>],
     data := [\<lparr> d_table = ''ms_data_64'', d_id = ''b1'', d_schema_version = 1, d_version = 1, d_cols = [(''n'', PInt 3)] \<rparr>],
     ms_objects := [\<lparr> o_blob = ''b1'', o_token = ''t1'' \<rparr>] \<rparr>"
  by code_simp

lemma db4_value [code]:
  "db4 = db2\<lparr>
     ms_retired := [\<lparr> t_blob = ''b1'', t_token = ''t1'', t_schema = ''d'', t_version = 1, t_metadata_version = 1 \<rparr>],
     ms_gc := [\<lparr> g_storage = ''root'', g_key = sample_key, g_token = Some ''t1'', g_blob = Some ''b1'',
                 g_reason = RetiredBlob, g_state = Pending, g_error = None \<rparr>] \<rparr>"
  by code_simp


lemma db5_value [code]:
  "db5 = db3\<lparr> data := [\<lparr> d_table = ''ms_data_64'', d_id = ''b1'', d_schema_version = 1, d_version = 2,
                         d_cols = [(''n'', PInt 4)] \<rparr>] \<rparr>"
  by code_simp

lemma db6_value [code]:
  "db6 = db4\<lparr> ms_gc := [\<lparr> g_storage = ''root'', g_key = sample_key, g_token = Some ''t1'', g_blob = Some ''b1'',
                 g_reason = RetiredBlob, g_state = Done, g_error = None \<rparr>] \<rparr>"
  by code_simp

section \<open>Its states\<close>

definition root1 :: root where
  "root1 = [sample_key \<mapsto> ''hello'']"

definition state0 :: system where "state0 = \<lparr> s_db = empty_db, s_root = Map.empty, s_flight = [] \<rparr>"
definition state3 :: system where
  "state3 = \<lparr> s_db = db3, s_root = root1, s_flight = [(sample_key, ''hello'')] \<rparr>"
definition state4 :: system where
  "state4 = \<lparr> s_db = db4, s_root = Map.empty, s_flight = [(sample_key, ''hello'')] \<rparr>"

lemma sample_wf: "wf_declared tiny_schema"
  using mk_schema_wf [OF tiny_schema_made] by (simp add: wf_declared_def tiny_schema_def)

lemma sample_upload:
  "upload Transferred ''staging/0'' ''hello'' sample_key Map.empty = (root1, Inr ())"
proof -
  have "object_key sample_key" by code_simp
  then show ?thesis by (simp add: upload_def root1_def)
qed

definition state2 :: system where
  "state2 = \<lparr> s_db = db2, s_root = root1, s_flight = [(sample_key, ''hello'')] \<rparr>"

lemma state2_reach: "reach sample_xxh ''root'' state2"
proof -
  have 0: "reach sample_xxh ''root'' state0"
    by (rule reach.Start) (simp_all add: state0_def fresh_db_def empty_db_def)
  have "step sample_xxh ''root'' state0 (state0\<lparr> s_db := db1 \<rparr>)"
    using step.Transaction [of "[InstallSchema tiny_schema]" sample_xxh "''root''" state0 "''root''"] sample_wf
    by (simp add: call_typed_def upload_backed_def db1_def state0_def)
  note 1 = reach.Next [OF 0 this]
  have "step sample_xxh ''root'' (state0\<lparr> s_db := db1 \<rparr>) (state0\<lparr> s_db := db1, s_root := root1, s_flight := [(sample_key, ''hello'')] \<rparr>)"
    using step.Upload [of "''staging/0''" Transferred "''hello''" sample_key "state0\<lparr> s_db := db1 \<rparr>" root1 "Inr ()" sample_xxh "''root''"]
      sample_upload by (simp add: state0_def starts_with_def)
  note 2 = reach.Next [OF 1 this]
  have d: "describes sample_xxh sample_token ''hello'' \<and> p_key sample_token = sample_key"
    by (simp add: describes_def hash_file_eq sample_token_def)
  have "step sample_xxh ''root'' (state0\<lparr> s_db := db1, s_root := root1, s_flight := [(sample_key, ''hello'')] \<rparr>) state2"
    using step.Transaction [of "[Journal (PreparedFile sample_token) (Some tiny_schema)]" sample_xxh "''root''"
        "state0\<lparr> s_db := db1, s_root := root1, s_flight := [(sample_key, ''hello'')] \<rparr>" "''root''"] d
    by (simp add: call_typed_def upload_backed_def db2_def state0_def state2_def)
  then show ?thesis by (rule reach.Next [OF 2])
qed

lemma state3_reach: "reach sample_xxh ''root'' state3"
proof -
  have "step sample_xxh ''root'' state2 state3"
    using step.Transaction [of "[sample_import]" sample_xxh "''root''" state2 "''root''"]
    by (simp add: call_typed_def upload_backed_def db3_def sample_import_def state2_def state3_def)
  then show ?thesis by (rule reach.Next [OF state2_reach])
qed

lemma stateq_reach: "reach sample_xxh ''root'' (state3\<lparr> s_db := db4 \<rparr>)"
proof -
  have "step sample_xxh ''root'' state3 (state3\<lparr> s_db := db4 \<rparr>)"
    using step.Transaction [of "[Delete (PStr ''b1'') (PInt 1)]" sample_xxh "''root''" state3 "''root''"]
    by (simp add: call_typed_def upload_backed_def db4_def state3_def)
  then show ?thesis by (rule reach.Next [OF state3_reach])
qed

lemma sample_installed: "has_object db2 ''ms_format''" "has_object db4 ''ms_format''"
  by code_simp+

lemma db3_blobs: "b_id ` set (ms_blobs db3) = {''b1''}"
  by (simp add: db3_value)

lemma db4_gc: "map gc_key (ms_gc db4) = [(''root'', sample_key)]" "ms_blobs db4 = []"
  by (simp_all add: db4_value db2_value db1_value gc_key_def)

lemma state4_steps: "steps sample_xxh ''root'' state3 state4"
proof -
  have 1: "step sample_xxh ''root'' state3 (state3\<lparr> s_db := db4 \<rparr>)"
    using step.Transaction [of "[Delete (PStr ''b1'') (PInt 1)]" sample_xxh "''root''" state3 "''root''"]
    by (simp add: call_typed_def upload_backed_def db4_def state3_def)
  obtain g where g: "ms_gc db4 = [g]" "gc_key g = (''root'', sample_key)"
    using db4_gc(1) by (auto simp: map_eq_Cons_conv)
  have "cleanup_pattern sample_key" by code_simp
  then have "fst (delete_object (\<lambda>_. False) True sample_key root1) = Map.empty"
    by (auto simp: delete_object_def cleanup_key_def root1_def)
  then have 2: "step sample_xxh ''root'' (state3\<lparr> s_db := db4 \<rparr>) state4"
    using step.Remove [of g "state3\<lparr> s_db := db4 \<rparr>" "''root''" sample_xxh "\<lambda>_. False" True] g
    by (simp add: gc_key_def state3_def state4_def)
  show ?thesis
    unfolding steps_def using 1 2 by (meson converse_rtranclp_into_rtranclp rtranclp.rtrancl_refl)
qed

definition state5 :: system where "state5 = state3\<lparr> s_db := db5 \<rparr>"
definition state6 :: system where "state6 = state4\<lparr> s_db := db6 \<rparr>"

lemma state5_steps: "steps sample_xxh ''root'' state3 state5"
  using step.Transaction [of "[UpdateMetadata (PStr ''b1'') (Some tiny_schema) (PDict [(PStr ''n'', PInt 4)]) (PInt 1)]"
      sample_xxh "''root''" state3 "''root''"]
  by (simp add: steps_def call_typed_def upload_backed_def state5_def db5_def state3_def r_into_rtranclp)

lemma state4_reach: "reach sample_xxh ''root'' state4"
  by (rule reach_steps [OF state4_steps state3_reach])

lemma state6_steps: "steps sample_xxh ''root'' state4 state6"
  using step.Transaction [of "[MarkCleanup ''root'' sample_key Done None]" sample_xxh "''root''" state4 "''root''"]
  by (simp add: steps_def call_typed_def upload_backed_def state6_def db6_def state4_def r_into_rtranclp)

definition sample_record :: blob_record where
  "sample_record =
     \<lparr> r_id = ''b1'', r_schema_name = ''d'', r_schema_version = 1, r_state = Ready, r_token = ''t1'',
       r_storage = ''root'', r_key = sample_key, r_size = 5, r_digest = sample_xxh ''hello'',
       r_algorithm = ''xxh3_128'', r_handler = ''file'', r_handler_version = 1, r_version = 1,
       r_metadata = [(''n'', PInt 3)], r_descriptor = None \<rparr>"

lemma sample_records:
  "get_record True ''b1'' db3 = Inr sample_record"
  "get_record True ''b1'' db5 = Inr (sample_record\<lparr> r_version := 2, r_metadata := [(''n'', PInt 4)] \<rparr>)"
  by code_simp+


end
