(* ===== verification/SystemProperties.thy ===== *)
theory SystemProperties
  imports SampleRun
begin

text \<open>
  What holds in every reachable state of the system: live blobs can be read and verified, payloads
  never change, retirement is final.
\<close>

section \<open>Live objects\<close>

lemma reach_consistent:
  assumes "reach xxh sid s" "b \<in> set (ms_blobs (s_db s))"
  shows "consistent (s_db s)"
proof -
  have "sane (s_db s)" using reach_ok [OF assms(1)] by (simp add: system_ok_def)
  moreover have "\<not> fresh_db (s_db s)"
  proof
    assume "fresh_db (s_db s)"
    then obtain os rs where "s_db s = empty_db\<lparr> objects := os, app_refs := rs \<rparr>"
      unfolding fresh_db_def by blast
    with assms(2) show False by simp
  qed
  ultimately show ?thesis by (simp add: sane_def)
qed

lemma live_object:
  assumes ok: "system_ok xxh sid s" and c: "consistent (s_db s)" and p: "prepared_of i (s_db s) = Some p"
    and sid: "p_storage p = sid"
  obtains bs where "object_key (p_key p)" "s_root s (p_key p) = Some bs" "describes xxh p bs" "\<not> queued_key sid s (p_key p)"
proof -
  obtain ob where ob: "ob \<in> set (ms_objects (s_db s))" "o_token ob = p_token p" "p \<in> set (ms_prepared (s_db s))"
    using prepared_of_SomeD [OF p] by blast
  have "\<not> queued_key sid s (p_key p)"
  proof
    assume "queued_key sid s (p_key p)"
    then obtain g where g: "g \<in> set (ms_gc (s_db s))" "gc_key g = (p_storage p, p_key p)"
      using sid by (auto simp: queued_key_def)
    then have "g_token g = Some (p_token p)" "p_token p \<notin> o_token ` set (ms_objects (s_db s))"
      using c ob unfolding consistent_def catalog_ok_def gc_ok_def by blast+
    with ob show False by (metis image_eqI)
  qed
  with ok ob(3) sid that show ?thesis unfolding system_ok_def by blast
qed

lemma get_record_row:
  assumes "get_record ready i d = Inr r"
  obtains b p m where "b \<in> set (ms_blobs d)" "b_id b = i" "prepared_of i d = Some p" "r_id r = i" "r_token r = p_token p"
    "r_storage r = p_storage p" "r_key r = p_key p" "r_size r = p_size p" "r_digest r = p_digest p"
    "r_state r = b_state b" "ready \<longrightarrow> b_state b = Ready"
    "data_row_of (data_table_of (b_schema b)) i d = Some m" "r_version r = d_version m"
  using assms
proof (rule get_record_Inr)
  fix b p m s md e
  assume a: "row_with b_id i (filter (\<lambda>b. ready \<longrightarrow> b_state b = Ready) (ms_blobs d)) = Some b"
    "prepared_of i d = Some p" "data_row_of (data_table_of (b_schema b)) i d = Some m"
    "r = with_encoding e (record_row b p m md)"
  have "b \<in> set (ms_blobs d)" "b_id b = i" "ready \<longrightarrow> b_state b = Ready"
    using row_with_SomeD [OF a(1)] by auto
  with a that show ?thesis by auto
qed

text \<open>
  C1. In every state that participants can reach, with any interleaving of transactions, failing
  uploads, cleanup and crashes, the record of every blob can be read, and if the blob is stored in
  this root then its bytes are there and pass the verification of size and digest.
\<close>

theorem live_blobs_verify:
  assumes "reach xxh sid s" and "b \<in> set (ms_blobs (s_db s))"
  shows "\<exists>r. get_record False (b_id b) (s_db s) = Inr r \<and>
    (r_storage r = sid \<longrightarrow>
       (\<exists>bs. materialize xxh (r_key r) (r_size r) (r_digest r) (get_object (r_key r) (s_root s)) = Inr bs))"
proof -
  have c: "consistent (s_db s)" by (rule reach_consistent [OF assms])
  then obtain r where r: "get_record False (b_id b) (s_db s) = Inr r"
    using assms(2) record_of_blob [of "s_db s" b False] unfolding consistent_def by metis
  then obtain p where p: "prepared_of (b_id b) (s_db s) = Some p" "r_storage r = p_storage p" "r_key r = p_key p"
      "r_size r = p_size p" "r_digest r = p_digest p"
    by (rule get_record_row) blast
  have "\<exists>bs. materialize xxh (r_key r) (r_size r) (r_digest r) (get_object (r_key r) (s_root s)) = Inr bs"
    if "p_storage p = sid"
    using live_object [OF reach_ok [OF assms(1)] c p(1) that]
    unfolding materialize_object p by (auto simp: describes_def hash_file_eq)
  with r p show ?thesis by auto
qed

theorem live_blobs_verify_witness:
  "\<exists>b r. b \<in> set (ms_blobs db3) \<and> get_record False (b_id b) db3 = Inr r \<and>
    (r_storage r = ''root'' \<longrightarrow>
       (\<exists>bs. materialize sample_xxh (r_key r) (r_size r) (r_digest r) (get_object (r_key r) root1) = Inr bs))"
proof -
  obtain b where "b \<in> set (ms_blobs db3)" using db3_blobs by (metis imageE insertI1)
  with live_blobs_verify [OF state3_reach, of b] show ?thesis
    by (auto simp: state3_def)
qed


section \<open>Stability\<close>

lemma prepared_of_stable:
  assumes k: "advances d d'" and c: "consistent d" "consistent d'" and p: "prepared_of i d = Some p"
    and b: "i \<in> b_id ` set (ms_blobs d')"
  shows "prepared_of i d' = Some p"
proof -
  obtain ob where ob: "ob \<in> set (ms_objects d)" "o_blob ob = i" "o_token ob = p_token p" "p \<in> set (ms_prepared d)"
    using prepared_of_SomeD [OF p] by blast
  have "\<forall>t \<in> set (ms_retired d'). t_blob t \<notin> b_id ` set (ms_blobs d')"
    using c(2) unfolding consistent_def catalog_ok_def gc_ok_def by blast
  with b have "i \<notin> t_blob ` set (ms_retired d')" by blast
  with k ob have "ob \<in> set (ms_objects d')" "p \<in> set (ms_prepared d')"
    unfolding advances_def by blast+
  moreover have "keys_ok d'" using c(2) by (simp add: consistent_def catalog_ok_def)
  ultimately have "row_with o_blob i (ms_objects d') = Some ob" "row_with p_token (o_token ob) (ms_prepared d') = Some p"
    using ob by (simp_all add: row_with_Some keys_ok_def)
  then show ?thesis by (simp add: prepared_of_def)
qed

lemma record_encoding:
  assumes c: "consistent d" and r: "get_record ready i d = Inr r" and p: "prepared_of i d = Some p"
  shows "r_handler r = (case row_with e_token (p_token p) (ms_encodings d) of None \<Rightarrow> p_handler p | Some e \<Rightarrow> e_id e)"
    "r_descriptor r = map_option e_descriptor (row_with e_token (p_token p) (ms_encodings d))"
proof -
  have I: "installed d" using c by (simp add: consistent_def catalog_ok_def)
  from r p obtain b m md e where "r = with_encoding e (record_row b p m md)" "read_encoding (p_token p) d = Inr e"
    by (auto elim: get_record_Inr)
  then show "r_handler r = (case row_with e_token (p_token p) (ms_encodings d) of None \<Rightarrow> p_handler p | Some e \<Rightarrow> e_id e)"
    "r_descriptor r = map_option e_descriptor (row_with e_token (p_token p) (ms_encodings d))"
    by (auto simp: read_encoding_ok [OF I] with_encoding_def record_row_def split: option.split)
qed

text \<open>
  C2. The payload of an identity never changes: as long as an identity names a blob, in whatever
  later state, its token, key, size, digest, handler and descriptor are the same, and
  materialisation returns the same bytes.
\<close>

theorem payload_is_immutable:
  assumes "reach xxh sid s" and "steps xxh sid s s'"
    and "get_record ready i (s_db s) = Inr r" and "get_record ready' i (s_db s') = Inr r'"
  shows "(r_token r', r_storage r', r_key r', r_size r', r_digest r', r_handler r', r_descriptor r') =
      (r_token r, r_storage r, r_key r, r_size r, r_digest r, r_handler r, r_descriptor r) \<and>
    (r_storage r = sid \<longrightarrow>
       materialize xxh (r_key r') (r_size r') (r_digest r') (get_object (r_key r') (s_root s')) =
       materialize xxh (r_key r) (r_size r) (r_digest r) (get_object (r_key r) (s_root s)))"
proof -
  obtain b p where b: "b \<in> set (ms_blobs (s_db s))" "prepared_of i (s_db s) = Some p" "r_token r = p_token p"
    "r_storage r = p_storage p" "r_key r = p_key p" "r_size r = p_size p" "r_digest r = p_digest p"
    using assms(3) by (rule get_record_row) blast
  obtain b' p' where b': "b' \<in> set (ms_blobs (s_db s'))" "b_id b' = i" "prepared_of i (s_db s') = Some p'" "r_token r' = p_token p'"
    "r_storage r' = p_storage p'" "r_key r' = p_key p'" "r_size r' = p_size p'" "r_digest r' = p_digest p'"
    using assms(4) by (rule get_record_row) blast
  have c: "consistent (s_db s)" by (rule reach_consistent [OF assms(1) b(1)])
  have k: "keeps sid s s'" and ok': "system_ok xxh sid s'"
    using steps_keep [OF assms(2) reach_ok [OF assms(1)]] by simp_all
  have c': "consistent (s_db s')" using k c by (simp add: keeps_def)
  have adv: "advances (s_db s) (s_db s')" using k by (simp add: keeps_def)
  have pp: "p' = p"
    using prepared_of_stable [OF adv c c' b(2)] b' by auto
  have pin: "p \<in> set (ms_prepared (s_db s))" using prepared_of_SomeD [OF b(2)] by blast
  have "row_with e_token (p_token p) (ms_encodings (s_db s')) = row_with e_token (p_token p) (ms_encodings (s_db s))"
    using adv pin by (simp add: advances_def)
  then have h: "r_handler r' = r_handler r" "r_descriptor r' = r_descriptor r"
    using record_encoding [OF c assms(3) b(2)] record_encoding [OF c' assms(4) b'(3) [unfolded pp]] by simp_all
  have "get_object (p_key p) (s_root s') = get_object (p_key p) (s_root s)" if loc: "p_storage p = sid"
  proof -
    obtain bs where bs: "object_key (p_key p)" "s_root s (p_key p) = Some bs"
      using live_object [OF reach_ok [OF assms(1)] c b(2) loc] by metis
    obtain cs where "s_root s' (p_key p) = Some cs" "\<not> queued_key sid s' (p_key p)"
      using live_object [OF ok' c' b'(3) [unfolded pp] loc] by metis
    with bs k show ?thesis by (auto simp: keeps_def get_object_def)
  qed
  with b b' h pp show ?thesis by simp
qed

theorem payload_is_immutable_witness:
  "materialize sample_xxh sample_key 5 (sample_xxh ''hello'') (get_object sample_key root1) = Inr ''hello'' \<and>
   get_record True ''b1'' db5 = Inr (sample_record\<lparr> r_version := 2, r_metadata := [(''n'', PInt 4)] \<rparr>) \<and>
   get_record True ''b1'' db3 = Inr sample_record \<and>
   materialize sample_xxh sample_key 5 (sample_xxh ''hello'') (get_object sample_key (s_root state5)) =
   materialize sample_xxh sample_key 5 (sample_xxh ''hello'') (get_object sample_key (s_root state3))"
proof -
  have "object_key sample_key" by code_simp
  then have "materialize sample_xxh sample_key 5 (sample_xxh ''hello'') (get_object sample_key root1) = Inr ''hello''"
    by (simp add: materialize_object root1_def)
  then show ?thesis
    using payload_is_immutable [OF state3_reach state5_steps, of True "''b1''" sample_record True
        "sample_record\<lparr> r_version := 2, r_metadata := [(''n'', PInt 4)] \<rparr>"] sample_records
    by (simp add: state3_def state5_def sample_record_def)
qed

text \<open>
  C5. Retirement is final: once an identity is retired, no later state has a blob with it, every
  read of it fails, and the retirement is still on record.
\<close>

theorem retirement_is_final:
  assumes "reach xxh sid s" and "steps xxh sid s s'" and "t \<in> set (ms_retired (s_db s))"
  shows "t \<in> set (ms_retired (s_db s')) \<and> t_blob t \<notin> b_id ` set (ms_blobs (s_db s')) \<and>
    (\<forall>ready r. get_record ready (t_blob t) (s_db s') \<noteq> Inr r)"
proof -
  have k: "keeps sid s s'" and ok': "system_ok xxh sid s'"
    using steps_keep [OF assms(2) reach_ok [OF assms(1)]] by simp_all
  then have t: "t \<in> set (ms_retired (s_db s'))"
    using assms(3) unfolding keeps_def advances_def by blast
  have no: "t_blob t \<notin> b_id ` set (ms_blobs (s_db s'))"
  proof
    assume a: "t_blob t \<in> b_id ` set (ms_blobs (s_db s'))"
    then have "consistent (s_db s')"
      using reach_consistent [OF reach_steps [OF assms(2,1)]] by blast
    with a t show False unfolding consistent_def catalog_ok_def gc_ok_def by blast
  qed
  moreover have "get_record ready (t_blob t) (s_db s') \<noteq> Inr r" for ready r
  proof
    assume "get_record ready (t_blob t) (s_db s') = Inr r"
    then obtain b where "b \<in> set (ms_blobs (s_db s'))" "b_id b = t_blob t" by (rule get_record_row)
    then have "t_blob t \<in> b_id ` set (ms_blobs (s_db s'))" by (metis imageI)
    with no show False by contradiction
  qed
  ultimately show ?thesis using t by blast
qed


theorem retirement_is_final_witness:
  "\<exists>t. t \<in> set (ms_retired db6) \<and> t_blob t = ''b1'' \<and> (\<forall>ready r. get_record ready ''b1'' db6 \<noteq> Inr r)"
proof -
  let ?t = "\<lparr> t_blob = ''b1'', t_token = ''t1'', t_schema = ''d'', t_version = 1, t_metadata_version = 1 \<rparr> :: retired_row"
  have "?t \<in> set (ms_retired (s_db state4))"
    by (simp add: state4_def db4_value)
  from retirement_is_final [OF state4_reach state6_steps this] show ?thesis
    by (intro exI [of _ ?t]) (simp add: state6_def)
qed

end
