(* ===== verification/MaintenanceProperties.thy ===== *)
theory MaintenanceProperties
  imports SystemProperties
begin

text \<open>
  Properties of retirement, revocation and cleanup in the reachable states of the system.
\<close>

section \<open>Cleanup\<close>

text \<open>A queued key has no live object.\<close>

lemma queued_not_live:
  assumes c: "catalog_ok d" and g: "g \<in> set (ms_gc d)" and p: "p \<in> set (ms_prepared d)" "gc_key g = (p_storage p, p_key p)"
  shows "p_token p \<notin> o_token ` set (ms_objects d)"
  using assms unfolding catalog_ok_def gc_ok_def by blast

lemma gc_blob_retired:
  assumes "check_catalog d = Inr ()" "g \<in> set (ms_gc d)" "g_blob g = Some i"
  shows "i \<in> t_blob ` set (ms_retired d)"
proof -
  have "filter (\<lambda>g. \<not> gc_reference_ok g d) (ms_gc d) = []"
    using assms(1) by (auto simp: check_catalog_def foreign_key_check_def)
  with assms(2,3) show ?thesis
    by (auto simp: filter_empty_conv gc_reference_ok_def)
qed

lemma sane_catalog: "sane d \<Longrightarrow> verify_lifecycle d = Inr () \<Longrightarrow> catalog_ok d"
  using fresh_verify_lifecycle [of d "()"] by (auto simp: sane_def consistent_def)

lemma job_not_live:
  assumes c: "catalog_ok d" "check_catalog d = Inr ()" and g: "g \<in> set (ms_gc d)"
  shows "\<not> job_live d g"
proof
  assume "job_live d g"
  then consider p where "p \<in> set (ms_prepared d)" "gc_key g = (p_storage p, p_key p)" "p_token p \<in> o_token ` set (ms_objects d)"
    | i where "g_blob g = Some i" "i \<in> b_id ` set (ms_blobs d)"
    by (auto simp: job_live_def list_ex_iff gc_key_def split: option.splits)
  then show False
  proof cases
    case 1
    with queued_not_live [OF c(1) g] show False by blast
  next
    case (2 i)
    have "\<forall>t \<in> set (ms_retired d). t_blob t \<notin> b_id ` set (ms_blobs d)"
      using c(1) unfolding catalog_ok_def gc_ok_def by blast
    with gc_blob_retired [OF c(2) g 2(1)] 2(2) show False by blast
  qed
qed

text \<open>The jobs of a call: pending intents of this storage, in the order of their keys.\<close>

lemma cleanup_jobs_set:
  assumes "cleanup_jobs sid n d = Inr jobs" "g \<in> set jobs"
  shows "g \<in> set (ms_gc d) \<and> g_storage g = sid \<and> g_state g = Pending"
  using assms by (auto simp: cleanup_jobs_def Let_def storage_gc_def dest!: in_set_takeD)

lemma cleanup_jobs_distinct:
  assumes "cleanup_jobs sid n d = Inr jobs" "keys_ok d"
  shows "distinct (map gc_key jobs)"
proof -
  have "distinct (map gc_key (sort_key g_key (filter (\<lambda>g. g_state g = Pending) (storage_gc sid d))))"
    using assms(2) by (simp add: keys_ok_def storage_gc_def distinct_map inj_on_def) 
  then have "distinct (map gc_key (take m (sort_key g_key (filter (\<lambda>g. g_state g = Pending) (storage_gc sid d)))))" for m
    by (simp add: take_map flip: take_map)
  then show ?thesis using assms(1) by (auto simp: cleanup_jobs_def Let_def)
qed

lemma reach_installed:
  assumes "reach xxh sid s" "has_object (s_db s) ''ms_format''"
  shows "consistent (s_db s)" "check_catalog (s_db s) = Inr ()" "referential (s_db s)"
proof -
  have "\<not> fresh_db (s_db s)"
    using fresh_no_own [of "s_db s" "''ms_format''"] assms(2) by (auto simp: core_names_def)
  then show c: "consistent (s_db s)"
    using reach_ok [OF assms(1)] by (simp add: system_ok_def sane_def)
  show "check_catalog (s_db s) = Inr ()" by (rule reach_checked [OF assms(1) c])
  show "referential (s_db s)" using reach_settled [OF assms(1)] by (simp add: settled_def)
qed

text \<open>
  C6. Maintenance never refuses and never meets a live object: in every reachable state with an
  installed catalog the integrity checks pass and the selection of cleanup jobs succeeds; it
  consists of at most \<open>limit\<close> pending intents of this storage, and no blob has the key of one.
\<close>

theorem cleanup_spares_live_objects:
  assumes "reach xxh sid s" and "has_object (s_db s) ''ms_format''"
  shows "check_catalog (s_db s) = Inr () \<and>
    (\<exists>jobs. cleanup_jobs sid n (s_db s) = Inr jobs \<and> length jobs \<le> nat n \<and>
      (\<forall>g \<in> set jobs. g_state g = Pending \<and> g_storage g = sid \<and>
         (\<forall>i r. get_record False i (s_db s) = Inr r \<longrightarrow> (r_storage r, r_key r) \<noteq> gc_key g)))"
proof -
  have c: "catalog_ok (s_db s)" and k: "check_catalog (s_db s) = Inr ()"
    using reach_installed [OF assms] by (simp_all add: consistent_def)
  define jobs where "jobs = take (nat n) (sort_key g_key (filter (\<lambda>g. g_state g = Pending) (storage_gc sid (s_db s))))"
  have live: "list_all (\<lambda>g. \<not> job_live (s_db s) g) jobs"
    using job_not_live [OF c k] by (force simp: jobs_def list_all_iff storage_gc_def dest!: in_set_takeD)
  then have j: "cleanup_jobs sid n (s_db s) = Inr jobs"
    using k by (simp add: cleanup_jobs_def Let_def jobs_def)
  have "(r_storage r, r_key r) \<noteq> gc_key g" if g: "g \<in> set jobs" and r: "get_record False i (s_db s) = Inr r" for g i r
  proof -
    obtain p where p: "prepared_of i (s_db s) = Some p" "r_storage r = p_storage p" "r_key r = p_key p"
      using r by (rule get_record_row) blast
    obtain ob where "ob \<in> set (ms_objects (s_db s))" "o_token ob = p_token p" "p \<in> set (ms_prepared (s_db s))"
      using prepared_of_SomeD [OF p(1)] by blast
    then show ?thesis
      using queued_not_live [OF c, of g p] cleanup_jobs_set [OF j g] p by (metis image_eqI)
  qed
  moreover have "length jobs \<le> nat n" by (simp add: jobs_def)
  moreover have "\<forall>g \<in> set jobs. g_state g = Pending \<and> g_storage g = sid"
    using cleanup_jobs_set [OF j] by blast
  ultimately show ?thesis using j k by blast
qed

theorem cleanup_spares_live_objects_witness:
  "\<exists>jobs. cleanup_jobs ''root'' 10 db4 = Inr jobs \<and> map g_key jobs = [sample_key]"
proof -
  obtain jobs where j: "cleanup_jobs ''root'' 10 db4 = Inr jobs"
    using cleanup_spares_live_objects [OF stateq_reach, of 10] sample_installed by auto
  moreover have "map_sum id (map g_key) (cleanup_jobs ''root'' 10 db4) = Inr [sample_key]"
    by code_simp
  ultimately show ?thesis by simp
qed

subsection \<open>A cleanup is a run of the system\<close>



text \<open>Jobs stay on record, by their key, while other jobs run.\<close>

lemma run_job_gc:
  assumes r: "run_job linked ok g w = (w', m)" and h: "h \<in> set (ms_gc (w_db w))"
  shows "\<exists>h' \<in> set (ms_gc (w_db w')). gc_key h' = gc_key h \<and>
     (g_state h = Done \<longrightarrow> h' = h) \<and> (gc_key h \<noteq> gc_key g \<longrightarrow> h' = h)"
proof -
  obtain r' res where del: "delete_object linked ok (g_key g) (w_root w) = (r', res)" by (metis surj_pair)
  let ?err = "job_error res"
  let ?op = "\<lambda>d. ebind (mark_gc (g_storage g) (g_key g) (job_state ?err) ?err d) (\<lambda>d'. Inr ((), d'))"
  obtain d' m' where t: "transact deferred_ok ?op (w_db w) = (d', m')" by (metis surj_pair)
  have w': "w_db w' = d'" using r by (auto simp: run_job_def del Let_def t)
  show ?thesis
  proof (cases m')
    case (Inl e)
    then have "d' = w_db w" using tx.run_raises t by fast
    with h w' show ?thesis by auto
  next
    case (Inr u)
    then have "?op (w_db w) = Inr (u, d')" using tx.run_returns t by fast
    define f where "f = (\<lambda>h. if gc_key h = gc_key g \<and> g_state h = Pending
        then h\<lparr> g_state := job_state ?err, g_error := ?err \<rparr> else h)"
    have "d' = (w_db w)\<lparr> ms_gc := map f (ms_gc (w_db w)) \<rparr>"
      using \<open>?op (w_db w) = Inr (u, d')\<close> by (auto simp: mark_gc_def gc_key_def f_def)
    then have "f h \<in> set (ms_gc (w_db w'))" using h w' by simp
    moreover have "gc_key (f h) = gc_key h" "g_state h = Done \<longrightarrow> f h = h" "gc_key h \<noteq> gc_key g \<longrightarrow> f h = h"
      by (simp_all add: f_def gc_key_def)
    ultimately show ?thesis by blast
  qed
qed




lemma sample_cleanup:
  "snd (cleanup (\<lambda>_. False) (\<lambda>_. True) ''root'' (PInt 10) \<lparr> w_db = db4, w_root = root1 \<rparr>) = Inr [(sample_key, Done)]"
  by code_simp

lemma sample_cleanup_state:
  "\<lparr> w_db = s_db (state3\<lparr> s_db := db4 \<rparr>), w_root = s_root (state3\<lparr> s_db := db4 \<rparr>) \<rparr> = \<lparr> w_db = db4, w_root = root1 \<rparr>"
  by (simp add: state3_def)


subsection \<open>What a cleanup achieves\<close>

lemma delete_object_message:
  "snd (delete_object linked ok key r) = Inl e \<Longrightarrow> message_of e \<noteq> []"
  by (auto simp: delete_object_def cleanup_key_def raise_def split: if_splits)

lemma job_state_Done: "job_state (job_error (snd (delete_object linked ok key r))) = Done \<Longrightarrow>
   fst (delete_object linked ok key r) key = None"
proof (cases "snd (delete_object linked ok key r)")
  case (Inl e)
  assume "job_state (job_error (snd (delete_object linked ok key r))) = Done"
  with Inl delete_object_message [OF Inl] show ?thesis
    by (simp add: job_state_def job_error_def split: list.splits)
next
  case (Inr u)
  then show ?thesis
    by (auto simp: delete_object_def split: sum.splits if_splits)
qed

lemma run_job_done:
  assumes r: "run_job linked ok g w = (w', Inr st)" and g: "g \<in> set (ms_gc (w_db w))" "g_state g = Pending"
  shows "(st = Done \<longrightarrow> w_root w' (g_key g) = None) \<and> (\<exists>h \<in> set (ms_gc (w_db w')). gc_key h = gc_key g \<and> g_state h = st)"
proof -
  obtain r' res where del: "delete_object linked ok (g_key g) (w_root w) = (r', res)" by (metis surj_pair)
  let ?err = "job_error res"
  let ?op = "\<lambda>d. ebind (mark_gc (g_storage g) (g_key g) (job_state ?err) ?err d) (\<lambda>d'. Inr ((), d'))"
  obtain d' m' where t: "transact deferred_ok ?op (w_db w) = (d', m')" by (metis surj_pair)
  have e: "w' = \<lparr> w_db = d', w_root = r' \<rparr>" "m' = Inr ()" "st = job_state ?err"
    using r by (auto simp: run_job_def Let_def del t split: sum.splits)
  have "?op (w_db w) = Inr ((), d')" using tx.run_returns t e(2) by fast
  then have "d' = (w_db w)\<lparr> ms_gc := map (\<lambda>h. if gc_key h = gc_key g \<and> g_state h = Pending
        then h\<lparr> g_state := job_state ?err, g_error := ?err \<rparr> else h) (ms_gc (w_db w)) \<rparr>"
    by (auto simp: mark_gc_def gc_key_def)
  then have "g\<lparr> g_state := job_state ?err, g_error := ?err \<rparr> \<in> set (ms_gc d')"
    using g by (auto intro: rev_image_eqI [of g])
  then have "\<exists>h \<in> set (ms_gc (w_db w')). gc_key h = gc_key g \<and> g_state h = st"
    using e by (auto simp: gc_key_def intro!: bexI [of _ "g\<lparr> g_state := job_state ?err, g_error := ?err \<rparr>"])
  with e job_state_Done [of linked ok "g_key g" "w_root w"] show ?thesis by (auto simp: del)
qed

lemma run_job_root: "run_job linked ok g w = (w', m) \<Longrightarrow> w_root w k = None \<Longrightarrow> w_root w' k = None"
  using delete_object_root [of linked ok "g_key g" "w_root w" k]
  by (auto simp: run_job_def delete_object_def Let_def split: prod.splits sum.splits if_splits)

lemma run_jobs_frame:
  "run_jobs linked jobs w = (w', m) \<Longrightarrow> h \<in> set (ms_gc (w_db w)) \<Longrightarrow> gc_key h \<notin> (gc_key \<circ> fst) ` set jobs \<Longrightarrow>
     h \<in> set (ms_gc (w_db w'))"
proof (induction jobs arbitrary: w m w')
  case (Cons x jobs)
  obtain g ok where x: "x = (g, ok)" by fastforce
  obtain w1 m1 where w1: "run_job linked ok g w = (w1, m1)" by (metis surj_pair)
  have "h \<in> set (ms_gc (w_db w1))"
    using run_job_gc [OF w1 Cons.prems(2)] Cons.prems(3) x by auto
  then show ?case
    using Cons.prems Cons.IH [of w1] by (auto simp: x w1 split: sum.splits prod.splits)
qed simp

lemma run_jobs_root: "run_jobs linked jobs w = (w', m) \<Longrightarrow> w_root w k = None \<Longrightarrow> w_root w' k = None"
proof (induction jobs arbitrary: w m w')
  case (Cons x jobs)
  obtain g ok where x: "x = (g, ok)" by fastforce
  obtain w1 m1 where w1: "run_job linked ok g w = (w1, m1)" by (metis surj_pair)
  have "w_root w1 k = None" by (rule run_job_root [OF w1 Cons.prems(2)])
  then show ?case
    using Cons.prems Cons.IH [of w1] by (auto simp: x w1 split: sum.splits prod.splits)
qed simp

lemma run_jobs_done:
  assumes "run_jobs linked jobs w = (w', Inr rs)" "distinct (map (gc_key \<circ> fst) jobs)"
    "\<forall>x \<in> set jobs. fst x \<in> set (ms_gc (w_db w)) \<and> g_state (fst x) = Pending \<and> g_storage (fst x) = sid"
  shows "map fst rs = map (g_key \<circ> fst) jobs \<and>
    (\<forall>(k, st) \<in> set rs. (st = Done \<longrightarrow> w_root w' k = None) \<and>
       (\<exists>h \<in> set (ms_gc (w_db w')). gc_key h = (sid, k) \<and> g_state h = st))"
  using assms
proof (induction jobs arbitrary: w rs)
  case (Cons x jobs)
  obtain g ok where x: "x = (g, ok)" by fastforce
  obtain w1 st rs' where w1: "run_job linked ok g w = (w1, Inr st)" "run_jobs linked jobs w1 = (w', Inr rs')"
      "rs = (g_key g, st) # rs'"
    using Cons.prems(1) by (auto simp: x split: sum.splits prod.splits)
  have g: "g \<in> set (ms_gc (w_db w))" "g_state g = Pending" "g_storage g = sid"
    using Cons.prems(3) by (simp_all add: x)
  have fresh: "gc_key g \<notin> (gc_key \<circ> fst) ` set jobs" "distinct (map (gc_key \<circ> fst) jobs)"
    using Cons.prems(2) by (simp_all add: x comp_def)
  have "fst y \<in> set (ms_gc (w_db w1)) \<and> g_state (fst y) = Pending \<and> g_storage (fst y) = sid" if y: "y \<in> set jobs" for y
  proof -
    have "gc_key (fst y) \<noteq> gc_key g" using fresh(1) y by (metis comp_apply image_eqI)
    with run_job_gc [OF w1(1), of "fst y"] Cons.prems(3) y show ?thesis by auto
  qed
  then have all: "\<forall>x \<in> set jobs. fst x \<in> set (ms_gc (w_db w1)) \<and> g_state (fst x) = Pending \<and> g_storage (fst x) = sid"
    by blast
  note IH = Cons.IH [OF w1(2) fresh(2) all]
  from run_job_done [OF w1(1) g(1,2)] obtain h where h: "h \<in> set (ms_gc (w_db w1))" "gc_key h = gc_key g" "g_state h = st"
    and n: "st = Done \<longrightarrow> w_root w1 (g_key g) = None" by blast
  have "h \<in> set (ms_gc (w_db w'))"
    by (rule run_jobs_frame [OF w1(2) h(1)]) (use h(2) fresh(1) in simp)
  moreover have "st = Done \<longrightarrow> w_root w' (g_key g) = None"
    using n run_jobs_root [OF w1(2)] by blast
  ultimately show ?case
    using IH h g(3) by (auto simp: w1(3) x gc_key_def)
qed simp

text \<open>
  C15. What a cleanup reports is so: for every job of the call, in order of the keys, it gives a state
  that the catalog now records for it, and where that is \<open>done\<close> the object is gone.
\<close>

theorem cleanup_reports_truth:
  assumes "reach xxh sid s"
    and "cleanup linked ok sid limit \<lparr> w_db = s_db s, w_root = s_root s \<rparr> = (w', Inr rs)"
  shows "\<exists>n jobs. bound 1000 limit = Inr n \<and> cleanup_jobs sid n (s_db s) = Inr jobs \<and> map fst rs = map g_key jobs \<and>
    (\<forall>(k, st) \<in> set rs. (st = Done \<longrightarrow> w_root w' k = None) \<and>
       (\<exists>g \<in> set (ms_gc (w_db w')). gc_key g = (sid, k) \<and> g_state g = st))"
proof -
  from assms(2) obtain n jobs where n: "bound 1000 limit = Inr n" and j: "cleanup_jobs sid n (s_db s) = Inr jobs"
    and r: "run_jobs linked (map (\<lambda>g. (g, ok g)) jobs) \<lparr> w_db = s_db s, w_root = s_root s \<rparr> = (w', Inr rs)"
    by (auto simp: cleanup_def split: sum.splits)
  have "verify_lifecycle (s_db s) = Inr ()"
    using j by (auto simp: cleanup_jobs_def check_catalog_def)
  then have "keys_ok (s_db s)"
    using sane_catalog reach_ok [OF assms(1)] by (auto simp: system_ok_def catalog_ok_def)
  then have d: "distinct (map (gc_key \<circ> fst) (map (\<lambda>g. (g, ok g)) jobs))"
    using cleanup_jobs_distinct [OF j] by (simp add: comp_def)
  show ?thesis
    using run_jobs_done [OF r d, of sid] cleanup_jobs_set [OF j] n j by (auto simp: comp_def)
qed



theorem cleanup_reports_truth_witness:
  "\<exists>w'. cleanup (\<lambda>_. False) (\<lambda>_. True) ''root'' (PInt 10) \<lparr> w_db = db4, w_root = root1 \<rparr> = (w', Inr [(sample_key, Done)]) \<and>
     w_root w' sample_key = None"
proof -
  obtain w' where w: "cleanup (\<lambda>_. False) (\<lambda>_. True) ''root'' (PInt 10) \<lparr> w_db = db4, w_root = root1 \<rparr> = (w', Inr [(sample_key, Done)])"
    using sample_cleanup by (metis prod.collapse)
  from cleanup_reports_truth [OF stateq_reach, unfolded sample_cleanup_state, OF w] w show ?thesis by auto
qed

section \<open>Revocation\<close>





section \<open>Retirement\<close>

lemma delete_arguments:
  assumes "delete sid id' ver d = Inr (res, d')"
  shows "\<exists>i n. id' = PStr i \<and> py_identifier id' = Inr i \<and> ver = PInt n \<and> 1 \<le> n \<and> n < 2 ^ 63"
proof -
  from assms obtain i n where "py_identifier id' = Inr i" "as_int ver = Some n" "1 \<le> n" "n < 2 ^ 63"
    unfolding delete_def ebind_eq_Inr expect_eq_Inr require_eq_Inr by blast
  moreover have "id' = PStr i" using calculation(1) by (auto simp: py_identifier_def split: pyval.splits if_splits)
  moreover have "ver = PInt n" using calculation(2) by (cases ver) auto
  ultimately show ?thesis by blast
qed

lemma retired_is_found:
  assumes "retire_rows r d = Inr d'" "r_id r = i"
  shows "row_with t_blob i (ms_retired d') = Some (retired_of r)" "row_with g_blob (Some i) (ms_gc d') = Some (gc_of r)"
    "retirement i d' = Inr x \<Longrightarrow> x = Some (retired_of r, gc_of r)" "verify_lifecycle d' = verify_lifecycle d"
proof -
  have eff: "d' = retired_db r d" "r_id r \<notin> t_blob ` set (ms_retired d)" "\<not> list_ex (gc_conflict (gc_of r)) (ms_gc d)"
    using retire_rows_effect [OF assms(1)] by simp_all
  have "row_with t_blob i (ms_retired d) = None" using eff(2) assms(2) by (simp add: row_with_None)
  then show t: "row_with t_blob i (ms_retired d') = Some (retired_of r)"
    using assms(2) by (simp add: eff(1) retired_db_def row_with_append retired_of_def)
  have "Some i \<notin> g_blob ` set (ms_gc d)"
    using eff(3) assms(2) by (auto simp: list_ex_iff gc_conflict_def gc_of_def)
  then have "row_with g_blob (Some i) (ms_gc d) = None" by (simp add: row_with_None)
  then show g: "row_with g_blob (Some i) (ms_gc d') = Some (gc_of r)"
    using assms(2) by (simp add: eff(1) retired_db_def row_with_append gc_of_def)
  show "retirement i d' = Inr x \<Longrightarrow> x = Some (retired_of r, gc_of r)"
    using t g by (auto simp: retirement_def)
  show "verify_lifecycle d' = verify_lifecycle d"
    by (simp add: verify_lifecycle_def verify_objects_def verify_format_def eff(1) retired_db_def)
qed

text \<open>
  C35. Retirement returns its record and repeats harmlessly: after a successful call the identity has
  no blob, the catalog holds its retirement at the expected version with a cleanup intent of this
  storage, and the same call again returns the same without a change.
\<close>

theorem delete_is_idempotent:
  assumes "reach xxh org s" and "delete sid id' ver (s_db s) = Inr (res, d')"
  shows "\<exists>i t g. id' = PStr i \<and> res = Some (t, g) \<and> t \<in> set (ms_retired d') \<and> g \<in> set (ms_gc d') \<and>
    t_blob t = i \<and> ver = PInt (t_metadata_version t) \<and> g_blob g = Some i \<and> g_storage g = sid \<and>
    i \<notin> b_id ` set (ms_blobs d') \<and> delete sid id' ver d' = Inr (res, d')"
proof -
  let ?d = "s_db s"
  have v: "verify_lifecycle ?d = Inr ()" using assms(2) by (auto simp: delete_def)
  have "sane ?d" using reach_ok [OF assms(1)] by (simp add: system_ok_def)
  then have c: "consistent ?d" using fresh_verify_lifecycle v by (auto simp: sane_def)
  have c': "consistent d'"
    using run_call_consistent [OF c, of "Delete id' ver" sid d'] assms(2) by (simp add: call_typed_def)
  obtain i n where i: "id' = PStr i" "py_identifier id' = Inr i" "ver = PInt n" "1 \<le> n" "n < 2 ^ 63"
    using assms(2) delete_arguments by metis
  have no: "t \<in> set (ms_retired d') \<Longrightarrow> t_blob t \<notin> b_id ` set (ms_blobs d')" for t
    using c' unfolding consistent_def catalog_ok_def gc_ok_def by blast
  have again: "delete sid id' ver e = Inr (Some (t, g), e)"
    if "verify_lifecycle e = Inr ()" "retirement i e = Inr (Some (t, g))" "g_storage g = sid" "t_metadata_version t = n" for e t g
    using that i by (simp add: delete_def)
  show ?thesis
    using assms(2)
  proof (cases rule: delete_effect)
    case (Known j t g)
    then have j: "j = i" using i by simp
    have st: "g_storage g = sid" "t_metadata_version t = n"
      using assms(2) Known i j v by (auto simp: delete_def)
    have rows: "t \<in> set (ms_retired ?d)" "t_blob t = i" "g \<in> set (ms_gc ?d)" "g_blob g = Some i"
      using Known(3) j by (auto simp: retirement_def split: option.splits dest!: row_with_SomeD)
    show ?thesis
      using again [OF v Known(3) [unfolded j] st] rows st Known i no [of t] by auto
  next
    case (New j r)
    then have j: "j = i" using i by simp
    have rid: "r_id r = i" using New(2) j by (auto elim: get_record_row)
    note found = retired_is_found [OF New(3) rid]
    have res: "res = Some (retired_of r, gc_of r)" "retirement i d' = Inr (Some (retired_of r, gc_of r))"
      using New(5) j found(3) by auto
    have st: "g_storage (gc_of r) = sid" "t_metadata_version (retired_of r) = n"
      using New(6,7) i by (simp_all add: gc_of_def retired_of_def)
    show ?thesis
      using again [of d'] found(4) v res st i no row_with_SomeD [OF found(1)] row_with_SomeD [OF found(2)] by auto
  qed
qed

lemma sample_delete: "delete ''root'' (PStr ''b1'') (PInt 1) db3 =
  Inr (Some (\<lparr> t_blob = ''b1'', t_token = ''t1'', t_schema = ''d'', t_version = 1, t_metadata_version = 1 \<rparr>,
     \<lparr> g_storage = ''root'', g_key = sample_key, g_token = Some ''t1'', g_blob = Some ''b1'',
       g_reason = RetiredBlob, g_state = Pending, g_error = None \<rparr>), db4)"
  by code_simp

theorem delete_is_idempotent_witness:
  "\<exists>res. delete ''root'' (PStr ''b1'') (PInt 1) db4 = Inr (res, db4) \<and> res \<noteq> None"
  using delete_is_idempotent [OF state3_reach, of "''root''" "PStr ''b1''" "PInt 1"] sample_delete
  by (fastforce simp: state3_def)



end
