(* ===== verification/SqlText.thy ===== *)
theory SqlText imports Schema begin

text \<open>
  Which SQL an application may run: the check of \<open>Transaction.sql\<close> on the start of a
  statement (\<open>_check_sql\<close> of \<open>catalog.py\<close>), the first token that SQLite itself
  reads, and what the one says about the other.
\<close>

section \<open>Whitespace\<close>

text \<open>
  The length of the white space character at the start of a text, 0 if there is none: the characters
  of Python's \<open>str.isspace\<close>, and those that SQLite's tokenizer skips (a byte order mark among
  them).
\<close>

fun three_byte_space :: "nat \<Rightarrow> nat \<Rightarrow> nat \<Rightarrow> bool" where
  "three_byte_space a b c =
     (a = 0xE1 \<and> b = 0x9A \<and> c = 0x80 \<or>
      a = 0xE2 \<and> b = 0x80 \<and> (0x80 \<le> c \<and> c \<le> 0x8A \<or> c = 0xA8 \<or> c = 0xA9 \<or> c = 0xAF) \<or>
      a = 0xE2 \<and> b = 0x81 \<and> c = 0x9F \<or>
      a = 0xE3 \<and> b = 0x80 \<and> c = 0x80)"

definition one_byte_space :: "nat \<Rightarrow> bool" where
  "one_byte_space a = (9 \<le> a \<and> a \<le> 13 \<or> 28 \<le> a \<and> a \<le> 32)"

fun py_space :: "string \<Rightarrow> nat" where
  "py_space [] = 0"
| "py_space (a # s) =
     (if one_byte_space (of_char a) then 1
      else case s of
        [] \<Rightarrow> 0
      | b # t \<Rightarrow>
          if of_char a = (0xC2 :: nat) \<and> (of_char b = (0x85 :: nat) \<or> of_char b = (0xA0 :: nat)) then 2
          else case t of
            [] \<Rightarrow> 0
          | c # u \<Rightarrow> if three_byte_space (of_char a) (of_char b) (of_char c) then 3 else 0)"

fun sqlite_space :: "string \<Rightarrow> nat" where
  "sqlite_space [] = 0"
| "sqlite_space (a # s) =
     (if of_char a \<in> {9, 10, 12, 13, 32 :: nat} then 1
      else case s of
        b # c # u \<Rightarrow>
          if of_char a = (0xEF :: nat) \<and> of_char b = (0xBB :: nat) \<and> of_char c = (0xBF :: nat) then 3 else 0
      | _ \<Rightarrow> 0)"

text \<open>\<open>str.lstrip()\<close>\<close>

function lstrip :: "string \<Rightarrow> string" where
  "lstrip s = (if py_space s = 0 then s else lstrip (drop (py_space s) s))"
  by pat_completeness auto

termination lstrip
proof (relation "measure length", goal_cases)
  case (2 s)
  then show ?case by (cases s) auto
qed simp

declare lstrip.simps [simp del]

section \<open>Comments\<close>

text \<open>The text after the first occurrence of a separator, as \<open>str.partition\<close> finds it.\<close>

fun after_sep :: "string \<Rightarrow> string \<Rightarrow> string option" where
  "after_sep p [] = (if p = [] then Some [] else None)"
| "after_sep p (c # s) = (if starts_with p (c # s) then Some (drop (length p) (c # s)) else after_sep p s)"

lemma length_after_sep: "after_sep p s = Some t \<Longrightarrow> length t \<le> length s"
proof (induction s)
  case (Cons c s)
  then show ?case by (auto split: if_splits)
qed (auto split: if_splits)

definition NEWLINE :: char where
  "NEWLINE = CHR 0x0A"

definition after_line :: "string \<Rightarrow> string" where
  "after_line s = (case after_sep [NEWLINE] s of None \<Rightarrow> [] | Some t \<Rightarrow> t)"

lemma length_lstrip: "length (lstrip s) \<le> length s"
proof (induction s rule: lstrip.induct)
  case (1 s)
  show ?case
  proof (cases "py_space s = 0")
    case False
    with 1 have "length (lstrip (drop (py_space s) s)) \<le> length (drop (py_space s) s)" by blast
    with False show ?thesis by (subst lstrip.simps) simp
  qed (simp add: lstrip.simps)
qed

text \<open>The loop over leading comments; every comment is followed by \<open>lstrip\<close>.\<close>

function skip_comments :: "string \<Rightarrow> string res" where
  "skip_comments s =
     (if starts_with ''--'' s then skip_comments (lstrip (after_line s))
      else if starts_with ''/*'' s
      then (case after_sep ''*/'' s of
              None \<Rightarrow> raise ValidationError ''Unclosed SQL comment''
            | Some t \<Rightarrow> skip_comments (lstrip t))
      else Inr s)"
  by pat_completeness auto

lemma after_sep_shorter: "after_sep p s = Some t \<Longrightarrow> p \<noteq> [] \<Longrightarrow> length t < length s"
proof (induction s)
  case (Cons c s)
  show ?case
  proof (cases "starts_with p (c # s)")
    case True
    with Cons.prems have "t = drop (length p) (c # s)" by simp
    with Cons.prems(2) show ?thesis by (cases p) auto
  next
    case False
    with Cons have "length t < length s" by simp
    then show ?thesis by simp
  qed
qed simp

termination skip_comments
proof (relation "measure length", goal_cases)
  case (2 s)
  then have "s \<noteq> []" by (auto simp: starts_with_def)
  then have "length (after_line s) < length s"
    by (auto simp: after_line_def split: option.split dest: after_sep_shorter)
  then show ?case using length_lstrip [of "after_line s"] by simp
next
  case (3 s t)
  then have "length t < length s" using after_sep_shorter by fastforce
  then show ?case using length_lstrip [of t] by simp
qed simp

declare skip_comments.simps [simp del]

section \<open>The check\<close>

definition is_letter :: "char \<Rightarrow> bool" where
  "is_letter c = (CHR ''a'' \<le> c \<and> c \<le> CHR ''z'' \<or> CHR ''A'' \<le> c \<and> c \<le> CHR ''Z'')"

definition CONTROL :: "string list" where
  "CONTROL = [''BEGIN'', ''COMMIT'', ''ROLLBACK'', ''END'', ''SAVEPOINT'', ''RELEASE'', ''VACUUM'',
     ''PRAGMA'', ''ATTACH'', ''DETACH'']"

text \<open>
  The regular expression for explained statements, with \<open>re.IGNORECASE\<close>: its white space is
  Unicode, and its \<open>S\<close> also matches the long s. \<open>uword\<close> tells whether a text that starts with
  a character outside ASCII starts with a word character of the Unicode database.
\<close>

fun skip_spaces :: "string \<Rightarrow> string option" where
  "skip_spaces s = (if py_space s = 0 then None else Some (lstrip s))"

fun match_word :: "string \<Rightarrow> string \<Rightarrow> string option" where
  "match_word [] s = Some s"
| "match_word (p # ps) [] = None"
| "match_word (p # ps) (c # s) =
     (if upper_char c = p then match_word ps s
      else if p = CHR ''S'' \<and> of_char c = (0xC5 :: nat) \<and> s \<noteq> [] \<and> of_char (hd s) = (0xBF :: nat)
      then match_word ps (tl s)
      else None)"

definition word_boundary :: "(string \<Rightarrow> bool) \<Rightarrow> string \<Rightarrow> bool" where
  "word_boundary uword s =
     (case s of
        [] \<Rightarrow> True
      | c # t \<Rightarrow> if of_char c < (128 :: nat) then \<not> (is_letter c \<or> is_digit c \<or> c = CHR ''_'') else \<not> uword s)"

definition match_select :: "(string \<Rightarrow> bool) \<Rightarrow> string \<Rightarrow> bool" where
  "match_select uword s =
     (case match_word ''SELECT'' s of None \<Rightarrow> False | Some t \<Rightarrow> word_boundary uword t)"

definition match_plan :: "string \<Rightarrow> string option" where
  "match_plan s =
     Option.bind (match_word ''QUERY'' s) (\<lambda>s. Option.bind (skip_spaces s) (\<lambda>s.
     Option.bind (match_word ''PLAN'' s) skip_spaces))"

definition explains_select :: "(string \<Rightarrow> bool) \<Rightarrow> string \<Rightarrow> bool" where
  "explains_select uword s =
     (case Option.bind (match_word ''EXPLAIN'' s) skip_spaces of
        None \<Rightarrow> False
      | Some t \<Rightarrow> (case match_plan t of Some u \<Rightarrow> match_select uword u | None \<Rightarrow> False) \<or> match_select uword t)"

text \<open>\<open>_check_sql(statement)\<close>\<close>

definition check_sql :: "(string \<Rightarrow> bool) \<Rightarrow> pyval \<Rightarrow> unit res" where
  "check_sql uword statement =
     (case statement of
        PStr s \<Rightarrow>
          ebind (skip_comments (lstrip s)) (\<lambda>remaining.
          let word = ascii_upper (takeWhile is_letter remaining) in
          ebind (require (word \<noteq> [] \<and> word \<notin> set CONTROL) ValidationError
                   ''Transaction and connection control SQL is not supported'') (\<lambda>_.
          require (word = ''EXPLAIN'' \<longrightarrow> explains_select uword remaining) ValidationError
            ''EXPLAIN supports SELECT statements only''))
      | _ \<Rightarrow> raise ValidationError ''SQL must be text'')"

section \<open>SQLite's first token\<close>

text \<open>
  What SQLite skips before the first token: white space, line comments, and block comments, in which
  the two characters that open the comment cannot take part in closing it; an unclosed comment runs
  to the end.
\<close>

definition block_end :: "string \<Rightarrow> string" where
  "block_end s = (case after_sep ''*/'' (drop 2 s) of None \<Rightarrow> [] | Some t \<Rightarrow> t)"

definition opens_block :: "string \<Rightarrow> bool" where
  "opens_block s = (starts_with ''/*'' s \<and> 2 < length s)"

function sqlite_skip :: "string \<Rightarrow> string" where
  "sqlite_skip s =
     (if sqlite_space s \<noteq> 0 then sqlite_skip (drop (sqlite_space s) s)
      else if starts_with ''--'' s then sqlite_skip (after_line s)
      else if opens_block s then sqlite_skip (block_end s)
      else s)"
  by pat_completeness auto

lemma length_block_end: "opens_block s \<Longrightarrow> length (block_end s) < length s"
proof -
  assume "opens_block s"
  then have "2 < length s" by (simp add: opens_block_def)
  then show ?thesis
    using length_after_sep [of "''*/''" "drop 2 s"] by (auto simp: block_end_def split: option.split)
qed

lemma length_after_line: "s \<noteq> [] \<Longrightarrow> length (after_line s) < length s"
  by (auto simp: after_line_def split: option.split dest: after_sep_shorter)

termination sqlite_skip
proof (relation "measure length", goal_cases)
  case (2 s)
  then show ?case by (cases s) auto
next
  case (3 s)
  then have "s \<noteq> []" by (auto simp: starts_with_def)
  then show ?case using length_after_line by simp
next
  case (4 s)
  then show ?case using length_block_end by simp
qed simp

declare sqlite_skip.simps [simp del]

definition id_char :: "char \<Rightarrow> bool" where
  "id_char c = (is_letter c \<or> is_digit c \<or> c = CHR ''_'' \<or> c = CHR ''$'' \<or> 128 \<le> (of_char c :: nat))"

definition sqlite_word :: "string \<Rightarrow> string" where
  "sqlite_word s = ascii_upper (takeWhile id_char (sqlite_skip s))"

section \<open>What the check keeps out\<close>

definition harmless :: "string \<Rightarrow> bool" where
  "harmless s = (sqlite_word s \<notin> set CONTROL)"

lemma upper_letter: "is_letter (upper_char c) = is_letter c"
  by (auto simp: upper_char_def is_letter_def less_eq_char_def)

lemma CONTROL_letters: "w \<in> set CONTROL \<Longrightarrow> list_all is_letter w \<and> w \<noteq> []"
  by (auto simp: CONTROL_def is_letter_def less_eq_char_def)

lemma upper_CONTROL: "ascii_upper w \<in> set CONTROL \<Longrightarrow> list_all is_letter w \<and> w \<noteq> []"
  by (drule CONTROL_letters) (simp add: ascii_upper_def list_all_iff upper_letter)

lemma is_letter_id_char: "is_letter c \<Longrightarrow> id_char c"
  by (simp add: id_char_def)

lemma takeWhile_letters:
  "list_all is_letter (takeWhile id_char s) \<Longrightarrow> takeWhile id_char s = takeWhile is_letter s"
  by (induction s) (auto simp: is_letter_id_char)

lemma harmless_stuck:
  assumes "sqlite_skip (c # s) = c # s" "\<not> is_letter c" shows "harmless (c # s)"
proof (cases "id_char c")
  case True
  with assms have "\<not> list_all is_letter (takeWhile id_char (c # s))" by simp
  then show ?thesis using upper_CONTROL unfolding harmless_def sqlite_word_def assms(1) by blast
next
  case False
  with assms show ?thesis using upper_CONTROL [of "[]"] by (auto simp: harmless_def sqlite_word_def)
qed

lemma three_byte_lead: "three_byte_space a b d \<Longrightarrow> a \<in> {0xE1, 0xE2, 0xE3}"
  by auto

lemma py_space_lead:
  "py_space (c # s) \<noteq> 0 \<Longrightarrow> one_byte_space (of_char c) \<or> of_char c \<in> {0xC2, 0xE1, 0xE2, 0xE3 :: nat}"
  by (auto simp del: three_byte_space.simps split: if_splits list.splits dest: three_byte_lead)

lemma sqlite_space_lead:
  "sqlite_space (c # s) \<noteq> 0 \<Longrightarrow> of_char c \<in> {9, 10, 12, 13, 32, 0xEF :: nat}"
  by (auto split: if_splits list.splits)

lemma one_byte_members:
  "one_byte_space n = (n \<in> {9, 10, 11, 12, 13, 28, 29, 30, 31, 32})"
  unfolding one_byte_space_def by auto

lemma byte_cases:
  assumes "py_space (c # s) \<noteq> 0" "sqlite_space (c # s) = 0"
  shows "of_char c \<in> {11, 28, 29, 30, 31, 0xC2, 0xE1, 0xE2, 0xE3 :: nat}"
proof -
  from assms(2) have "of_char c \<notin> {9, 10, 12, 13, 32 :: nat}" by (auto split: if_splits)
  with py_space_lead [OF assms(1)] show ?thesis unfolding one_byte_members by blast
qed

lemma two_spaces:
  assumes "py_space (c # s) \<noteq> 0" "sqlite_space (c # s) \<noteq> 0"
  shows "py_space (c # s) = 1" "sqlite_space (c # s) = 1"
proof -
  from py_space_lead [OF assms(1)] sqlite_space_lead [OF assms(2)]
  have "of_char c \<in> {9, 10, 12, 13, 32 :: nat}" unfolding one_byte_members by auto
  then show "py_space (c # s) = 1" "sqlite_space (c # s) = 1" by (auto simp: one_byte_members)
qed

lemma harmless_lstrip: "harmless (lstrip s) \<Longrightarrow> harmless s"
proof (induction s rule: lstrip.induct)
  case (1 s)
  show ?case
  proof (cases "py_space s = 0")
    case True
    with 1 show ?thesis by (simp add: lstrip.simps)
  next
    case space: False
    then obtain c u where s: "s = c # u" by (cases s) auto
    from space 1 have tail: "harmless (drop (py_space s) s)" by (simp add: lstrip.simps)
    show ?thesis
    proof (cases "sqlite_space s = 0")
      case False
      with space tail show ?thesis
        using two_spaces [of c u] by (simp add: s harmless_def sqlite_word_def sqlite_skip.simps [of "c # u"])
    next
      case True
      with space have c: "of_char c \<in> {11, 28, 29, 30, 31, 0xC2, 0xE1, 0xE2, 0xE3 :: nat}"
        using byte_cases s by blast
      then have "\<not> is_letter c" by (auto simp: is_letter_def less_eq_char_def)
      moreover from c True have "sqlite_skip s = s"
        by (subst sqlite_skip.simps) (auto simp: s starts_with_def opens_block_def)
      ultimately show ?thesis using harmless_stuck s by blast
    qed
  qed
qed

lemma after_sep_drop: "after_sep p s = None \<Longrightarrow> after_sep p (drop n s) = None"
proof (induction s arbitrary: n)
  case (Cons c s)
  then show ?case by (cases n) (auto split: if_splits)
qed simp

lemma after_sep_suffix: "after_sep p s = Some t \<Longrightarrow> \<exists>n. t = drop n s"
proof (induction s)
  case (Cons c s)
  show ?case
  proof (cases "starts_with p (c # s)")
    case True
    with Cons.prems show ?thesis by auto
  next
    case False
    with Cons obtain n where "t = drop n s" by auto
    then show ?thesis by (intro exI [of _ "Suc n"]) simp
  qed
qed (auto split: if_splits)

lemma lstrip_suffix: "\<exists>n. lstrip s = drop n s"
proof (induction s rule: lstrip.induct)
  case (1 s)
  show ?case
  proof (cases "py_space s = 0")
    case True
    then show ?thesis by (intro exI [of _ 0]) (simp add: lstrip.simps)
  next
    case False
    with 1 obtain n where "lstrip (drop (py_space s) s) = drop n (drop (py_space s) s)" by blast
    with False show ?thesis by (auto simp: lstrip.simps [of s])
  qed
qed

definition clean :: "string \<Rightarrow> bool" where
  "clean s = (after_sep ''/*/'' s = None)"

lemma clean_drop: "clean s \<Longrightarrow> clean (drop n s)"
  by (simp add: clean_def after_sep_drop)

lemma clean_lstrip: "clean s \<Longrightarrow> clean (lstrip s)"
  using lstrip_suffix [of s] clean_drop by metis

lemma clean_after: "clean s \<Longrightarrow> after_sep p s = Some t \<Longrightarrow> clean t"
  using after_sep_suffix clean_drop by metis

lemma clean_after_line: "clean s \<Longrightarrow> clean (after_line s)"
  using clean_after [of s "[NEWLINE]"] by (auto simp: after_line_def clean_def split: option.split)

lemma block_end_clean:
  assumes "clean s" "starts_with ''/*'' s" "after_sep ''*/'' s = Some t"
  shows "opens_block s \<and> block_end s = t"
proof -
  from assms(2) obtain u where s: "s = ''/*'' @ u" by (auto simp: starts_with_iff)
  with assms(3) obtain c v where u: "u = c # v" by (cases u) (auto simp: starts_with_def)
  from assms(1) have "c \<noteq> CHR ''/''" by (auto simp: clean_def s u starts_with_def)
  with assms(3) show ?thesis by (auto simp: s u block_end_def opens_block_def starts_with_def)
qed

lemma no_space: "starts_with ''--'' s \<or> starts_with ''/*'' s \<Longrightarrow> sqlite_space s = 0"
  by (cases s) (auto simp: starts_with_def split: list.splits)

lemma harmless_comments: "skip_comments s = Inr r \<Longrightarrow> clean s \<Longrightarrow> harmless r \<Longrightarrow> harmless s"
proof (induction s rule: skip_comments.induct)
  case (1 s)
  consider (line) "starts_with ''--'' s" | (block) "\<not> starts_with ''--'' s" "starts_with ''/*'' s"
    | (bare) "\<not> starts_with ''--'' s" "\<not> starts_with ''/*'' s" by blast
  then show ?case
  proof cases
    case line
    with 1 have "harmless (lstrip (after_line s))"
      by (simp add: skip_comments.simps [of s] clean_lstrip clean_after_line)
    then have "harmless (after_line s)" by (rule harmless_lstrip)
    with line show ?thesis
      by (simp add: harmless_def sqlite_word_def sqlite_skip.simps [of s] no_space)
  next
    case block
    with 1 obtain t where t: "after_sep ''*/'' s = Some t" "skip_comments (lstrip t) = Inr r"
      by (auto simp: skip_comments.simps [of s] split: option.splits)
    with 1 block have "harmless (lstrip t)" by (simp add: clean_lstrip clean_after)
    then have "harmless t" by (rule harmless_lstrip)
    with block t 1 show ?thesis using block_end_clean [of s t]
      by (simp add: harmless_def sqlite_word_def sqlite_skip.simps [of s] no_space)
  next
    case bare
    with 1 show ?thesis by (simp add: skip_comments.simps [of s])
  qed
qed

lemma harmless_word:
  assumes "takeWhile is_letter r \<noteq> []" "ascii_upper (takeWhile is_letter r) \<notin> set CONTROL"
  shows "harmless r"
proof -
  from assms(1) obtain c u where r: "r = c # u" and c: "is_letter c"
    by (cases r) (auto split: if_splits)
  then have "sqlite_skip r = r"
    by (subst sqlite_skip.simps) (auto simp: opens_block_def starts_with_def is_letter_def less_eq_char_def split: list.splits)
  with assms(2) show ?thesis
    using upper_CONTROL [of "takeWhile id_char r"] takeWhile_letters [of r]
    by (auto simp: harmless_def sqlite_word_def)
qed

text \<open>
  C36. A statement that \<open>Transaction.sql\<close> accepts cannot end or begin a transaction, nor
  reach a connection setting: if no comment in it opens with \<open>/*/\<close>, the first word that SQLite
  reads is none of the control words, whatever white space, line comments and block comments come
  before it and although Python and SQLite disagree on what is white space.
\<close>

theorem check_sql_keeps_control_out:
  assumes "check_sql uword (PStr s) = Inr ()" and "after_sep ''/*/'' s = None"
  shows "sqlite_word s \<notin> set CONTROL"
proof -
  from assms(1) obtain r where r: "skip_comments (lstrip s) = Inr r" "takeWhile is_letter r \<noteq> []"
    "ascii_upper (takeWhile is_letter r) \<notin> set CONTROL"
    by (auto simp: check_sql_def Let_def ascii_upper_def require_eq_Inr)
  then have "harmless (lstrip s)"
    using harmless_comments harmless_word clean_lstrip assms(2) clean_def by blast
  then show ?thesis using harmless_lstrip harmless_def by blast
qed

theorem check_sql_keeps_control_out_witness:
  "sqlite_word '' /* x */ explain query plan select 1'' \<notin> set CONTROL"
  by (rule check_sql_keeps_control_out [of "\<lambda>_. False"]) code_simp+


end
