(* ===== verification/MigrationOutcome.thy ===== *)
theory MigrationOutcome
  imports System
begin

text \<open>
  A whole migration run on a catalog in which the invariants hold: its transactions commit whenever
  their bodies succeed, and a dry run computes what a real run does.
\<close>

section \<open>The start of a run\<close>

lemma list_all2_exists: "(\<And>x. x \<in> set xs \<Longrightarrow> \<exists>y. P x y) \<Longrightarrow> \<exists>ys. list_all2 P xs ys"
  by (induction xs) (fastforce simp: list_all2_Cons1)+

lemma declarations_succeed:
  assumes "registry_ok d" shows "\<exists>schemas. declarations d n = Inr schemas"
proof -
  let ?f = "\<lambda>r. decode (sr_definition r)"
  have "\<exists>s. ?f r = Inr s" if "r \<in> set (ms_schemas d)" for r
  proof -
    from that assms obtain s where "wf_declared s" "sr_definition r = schema_definition s"
      unfolding registry_ok_def by blast
    then show ?thesis using decode_definition [of s] by auto
  qed
  then show ?thesis
    unfolding declarations_def emapM_eq_Inr by (intro list_all2_exists) auto
qed

text \<open>A change that keeps the invariants and the identities of the blobs keeps the deferred references.\<close>

lemma deferred_kept:
  assumes c: "consistent d'" and q: "deferred_ok d"
    and f: "b_id ` set (ms_blobs d') = b_id ` set (ms_blobs d)" "app_refs d' = app_refs d"
      "ms_encodings d' = ms_encodings d" "ms_prepared d' = ms_prepared d"
  shows "deferred_ok d'"
proof -
  have "data_reference_ok d' m" if m: "m \<in> set (data d')" for m
  proof -
    have "blobs_ok d'" "keys_ok d'" using c by (simp_all add: consistent_def catalog_ok_def)
    from data_row_version [OF this m] show ?thesis
      by (fastforce simp: data_reference_ok_def list_ex_iff data_key_def)
  qed
  then show ?thesis
    using q by (simp add: deferred_ok_def f list_all_iff split: option.split)
qed

lemma initialize_settled:
  assumes i: "initialize app backup plan d = Inr (job, d')" and p: "plan_ok plan" and c: "consistent d" "settled d"
  shows "consistent d'" "settled d'" "registered d' (mg_target plan)"
  using initialize_keeps [OF i p c(1)] deferred_kept [of d' d] c(2) by (simp_all add: settled_def)

section \<open>A dry run and a real run\<close>

lemma batch_frame:
  assumes b: "batch plan n ([], d) = Inr (job, xs, d')" and k: "keys_ok d"
  shows "xs = [] \<and> b_id ` set (ms_blobs d') = b_id ` set (ms_blobs d) \<and> app_refs d' = app_refs d \<and>
    ms_encodings d' = ms_encodings d \<and> ms_prepared d' = ms_prepared d"
proof -
  have "distinct (map data_key (data d))" using k by (simp add: keys_ok_def)
  with b show ?thesis
  proof (cases rule: batch_effect)
    case (rows job0 schemas rs I names d1)
    then show ?thesis by (simp add: update_job_def image_image)
  qed simp
qed

text \<open>In a settled catalog a transaction around a batch commits whenever the batch succeeds.\<close>

definition ready_for :: "migration \<Rightarrow> db \<Rightarrow> bool" where
  "ready_for plan d = (consistent d \<and> settled d \<and> registered d (mg_target plan))"

lemma batch_tx_settled:
  assumes b: "batch plan n ([], d) = Inr (job, xs, d')" and r: "ready_for plan d" and p: "plan_ok plan"
  shows "batch_tx plan n d = (d', Inr job) \<and> xs = [] \<and> ready_for plan d'"
proof -
  have c: "consistent d" "settled d" "registered d (mg_target plan)" using r by (simp_all add: ready_for_def)
  have "keys_ok d" using c(1) by (simp add: consistent_def catalog_ok_def)
  note f = batch_frame [OF b this] and k = batch_keeps [OF b p c(1,3)]
  have "deferred_ok d'" using deferred_kept [of d' d] k f c(2) by (simp add: settled_def)
  then show ?thesis
    using k f c(2) b by (simp add: batch_tx_def transact_def settled_def ready_for_def)
qed

lemma loops_agree:
  assumes "ready_for plan d" and p: "plan_ok plan" and "status (mg_name plan) d = Inr job"
  shows "\<exists>d' r. run_batches plan n None k job d = Some (d', r) \<and>
    dry_batches plan n job ([], d) = Some (ebind r (\<lambda>j. Inr (j, d'))) \<and> ready_for plan d'"
  using assms(1,3)
proof (induction "length (source_rows plan d)" arbitrary: d job k rule: less_induct)
  case less
  have v: "sc_version (mg_target plan) \<noteq> sc_version (mg_source plan)" using p by (simp add: plan_ok_def)
  have kd: "distinct (map data_key (data d))" "registry_ok d"
    using less.prems(1) by (simp_all add: ready_for_def consistent_def catalog_ok_def keys_ok_def rows_ok_def)
  obtain schemas where s: "declarations d (sc_name (mg_source plan)) = Inr schemas"
    using declarations_succeed [OF kd(2)] by blast
  show ?case
  proof (cases "j_running job")
    case False
    then show ?thesis using less.prems(1)
      by (subst run_batches.simps, subst dry_batches.simps) simp
  next
    case running: True
    show ?thesis
    proof (cases "batch plan n ([], d)")
      case (Inl e)
      then have "batch_tx plan n d = (d, Inl e)" by (simp add: batch_tx_def transact_def)
      with Inl running less.prems(1) show ?thesis
        by (subst run_batches.simps, subst dry_batches.simps) simp
    next
      case (Inr x)
      then obtain job1 xs d1 where b: "batch plan n ([], d) = Inr (job1, xs, d1)" by (cases x) auto
      have t: "batch_tx plan n d = (d1, Inr job1)" "xs = []" "ready_for plan d1"
        using batch_tx_settled [OF b less.prems(1) p] by simp_all
      have step: "run_batches plan n None k job d = run_batches plan n None (k + 1) job1 d1"
        "dry_batches plan n job ([], d) = dry_batches plan n job1 ([], d1)"
        by (subst run_batches.simps, simp add: running t(1))
           (subst dry_batches.simps, simp add: running b t(2))
      obtain I where I: "status (mg_name plan) d1 = Inr job1" "j_running job1 = (source_rows plan d1 \<noteq> [])"
        "source_rows plan d1 \<noteq> [] \<longrightarrow> length (source_rows plan d1) < length (source_rows plan d)"
        by (rule batch_progress [OF b kd(1) v less.prems(2) running s]) blast
      show ?thesis
      proof (cases "source_rows plan d1 = []")
        case True
        with I(2) t(3) show ?thesis
          unfolding step by (subst run_batches.simps, subst dry_batches.simps) simp
      next
        case False
        then show ?thesis unfolding step using less.hyps [of d1 job1 "k + 1"] I t(3) by blast
      qed
    qed
  qed
qed

section \<open>The result of a run\<close>

definition labelled :: "bool \<Rightarrow> migration_row res \<Rightarrow> (migration_row \<times> bool) res" where
  "labelled dry r = ebind r (\<lambda>job. Inr (job, dry))"

lemma run_args_plain:
  assumes "1 \<le> n" "n \<le> 1000"
  shows "run_args (Some plan) (PInt n) PNone (PBool dry) = Inr (plan, n, None, dry)"
  using assms by (simp add: run_args_def as_int_def as_bool_def)

section \<open>What a run does to the rows\<close>

text \<open>A row of the source version becomes the normalised result of the transformation.\<close>

definition row_migrated :: "migration \<Rightarrow> db \<Rightarrow> data_row \<Rightarrow> bool" where
  "row_migrated plan d' r =
     (\<exists>v m. new_values plan r = Inr v \<and> data_row_of (mg_table plan) (d_id r) d' = Some m \<and>
        d_schema_version m = sc_version (mg_target plan) \<and> d_version m = d_version r + 1 \<and>
        (\<forall>(n, f) \<in> set (sc_fields (mg_target plan)). col_value (d_cols m) n = col_value v n))"

text \<open>Any other row keeps its versions and the values of its fields.\<close>

definition row_kept :: "db \<Rightarrow> db \<Rightarrow> data_row \<Rightarrow> bool" where
  "row_kept d d' r =
     (\<exists>m. data_row_of (d_table r) (d_id r) d' = Some m \<and>
        d_schema_version m = d_schema_version r \<and> d_version m = d_version r \<and>
        (\<forall>s. registered d s \<and> table_name s = d_table r \<and> sc_version s = d_schema_version r \<longrightarrow>
           (\<forall>(n, f) \<in> set (sc_fields s). col_value (d_cols m) n = col_value (d_cols r) n)))"

lemma source_row_blob:
  assumes c: "consistent d" and r: "r \<in> set (data d)"
  shows "\<exists>b \<in> set (ms_blobs d). data_key r = (data_table_of (b_schema b), b_id b)"
  using data_row_version [OF _ _ r] c by (auto simp: consistent_def catalog_ok_def)

text \<open>A row has the columns of the fields of its own schema version.\<close>

lemma row_field_column:
  assumes c: "consistent d" and r: "r \<in> set (data d)" and s: "registered d s" "table_name s = d_table r"
    and f: "(n, f) \<in> set (sc_fields s)"
  shows "n \<in> fst ` set (d_cols r)"
proof -
  have R: "registry_ok d" and T: "rows_typed d" using c by (simp_all add: consistent_def rows_ok_def)
  obtain def where def: "table_def d (d_table r) = Inr def" "map fst (d_cols r) = map fst (def_columns def)"
    using T r by (auto simp: rows_typed_def row_shaped_def)
  have "(sc_version s, table_cols s) \<in> set (def_versions def)"
    using has_table_lookup [OF registered_table(1) [OF R s(1)]] def(1) s(2) by auto
  then have "n \<in> fst ` set (def_columns def)" using f by (rule def_columns_fields)
  then show ?thesis using def(2) by (metis set_map)
qed

lemma emapM_cong: "(\<And>x. x \<in> set xs \<Longrightarrow> f x = g x) \<Longrightarrow> emapM f xs = emapM g xs"
  by (induction xs) auto

text \<open>The transformation sees the same inputs in the rebuilt table.\<close>

lemma new_values_same:
  assumes "\<And>n f. (n, f) \<in> set (sc_fields (mg_source plan)) \<Longrightarrow>
      n \<in> fst ` set (d_cols r) \<and> n \<in> fst ` set (d_cols m) \<and> col_value (d_cols m) n = col_value (d_cols r) n"
  shows "new_values plan m = new_values plan r"
proof -
  have "map_of (d_cols m) n = map_of (d_cols r) n" if "(n, f) \<in> set (sc_fields (mg_source plan))" for n f
  proof -
    have "map_of (d_cols m) n \<noteq> None" "map_of (d_cols r) n \<noteq> None"
      using assms [OF that] by (simp_all add: map_of_eq_None_iff)
    then show ?thesis using assms [OF that] by (auto simp: col_value_def)
  qed
  then have "row_inputs plan m = row_inputs plan r"
    unfolding row_inputs_def by (intro emapM_cong) (auto split: prod.split)
  then show ?thesis by (simp add: new_values_def)
qed

lemma started_widened:
  assumes s: "started app plan (TableDef (sc_name (mg_target plan))
       (map (\<lambda>s. (sc_version s, table_cols s)) (schemas @ [mg_target plan])) True) old d d'" (is "started app plan ?def old d d'")
    and c: "declarations d (sc_name (mg_source plan)) = Inr schemas" and p: "plan_ok plan" and ok: "consistent d"
    and t: "registered d t" "table_name t = d_table r" and r: "r \<in> set (data d)" and f: "(n, f) \<in> set (sc_fields t)"
  shows "n \<in> fst ` set (d_cols (rewiden (mg_table plan) ?def r)) \<and>
    col_value (d_cols (rewiden (mg_table plan) ?def r)) n = col_value (d_cols r) n"
proof (cases "d_table r = mg_table plan")
  case False
  then show ?thesis using row_field_column [OF ok r t f] by (simp add: rewiden_def)
next
  case True
  have R: "registry_ok d" using ok by (simp add: consistent_def rows_ok_def)
  have "has_table d' t" by (rule started_has_table [OF s c p R t(1) registered_table(1) [OF R t(1)]])
  then have "(sc_version t, table_cols t) \<in> set (def_versions ?def)"
    using s t(2) True by (auto simp: has_table_def started_def)
  then have n: "n \<in> fst ` set (def_columns ?def)" using f by (rule def_columns_fields)
  then have "n \<in> fst ` set (d_cols (widen ?def r))" using widen_names by (metis set_map)
  with widen_col [OF n] True show ?thesis by (simp add: rewiden_def)
qed

text \<open>After the run, by the rows of the started catalog.\<close>

lemma row_after_moved_rows:
  assumes m: "moved plan names (source_ids plan d1) d1 d'" and e: "source_rows plan d' = []"
    and K: "keys_ok d1" and r: "r \<in> set (source_rows plan d1)"
    and n: "\<And>n f. (n, f) \<in> set (sc_fields (mg_target plan)) \<Longrightarrow> n \<in> set names \<and> n \<in> fst ` set (d_cols r)"
  shows "row_migrated plan d' r"
proof -
  let ?I = "source_ids plan d1"
  have r1: "r \<in> set (data d1)" "d_table r = mg_table plan" "d_schema_version r = sc_version (mg_source plan)" "d_id r \<in> ?I"
    using source_rows_D [OF r] r by (simp_all add: source_ids_def)
  have look: "data_row_of (mg_table plan) (d_id r) d1 = Some r"
    using K r1 by (auto simp: data_row_of_def keys_ok_def row_with_Some data_key_def)
  have "data_row_of (mg_table plan) (d_id r) d' = Some (row_after plan names ?I r)"
    using look by (simp add: data_row_of_def moved_frame(4) [OF m] row_with_map)
  moreover have a: "row_after plan names ?I r = migrate_of plan names r" using r1 by (simp add: row_after_def)
  moreover obtain v where v: "new_values plan r = Inr v"
  proof (cases "new_values plan r")
    case (Inl x)
    then have "row_after plan names ?I r = r" using a by (simp add: migrate_of_def)
    then have "r \<in> set (source_rows plan d')"
      using r1 by (force simp: source_rows_def moved_frame(4) [OF m])
    with e show ?thesis by simp
  qed (use that in blast)
  moreover have "migrate_of plan names r = migrated_row (sc_version (mg_target plan)) (field_values names v) r"
    by (simp add: migrate_of_def v)
  moreover have "col_value (set_cols (field_values names v) (d_cols r)) n = col_value v n"
    if "(n, f) \<in> set (sc_fields (mg_target plan))" for n f
    using n [OF that] by (simp add: set_cols_value field_value)
  ultimately show ?thesis by (auto simp: row_migrated_def)
qed

lemma row_after_kept_rows:
  assumes m: "moved plan names (source_ids plan d1) d1 d'" and K: "keys_ok d1"
    and r: "r \<in> set (data d1)" "r \<notin> set (source_rows plan d1)"
  shows "data_row_of (d_table r) (d_id r) d' = Some r"
proof -
  have "data_row_of (d_table r) (d_id r) d1 = Some r"
    using K r(1) by (simp add: data_row_of_def keys_ok_def row_with_Some data_key_def)
  moreover have "row_after plan names (source_ids plan d1) r = r"
  proof -
    have "\<not> (d_table r = mg_table plan \<and> d_id r \<in> source_ids plan d1)"
    proof
      assume t: "d_table r = mg_table plan \<and> d_id r \<in> source_ids plan d1"
      then obtain x where x: "x \<in> set (source_rows plan d1)" "d_id x = d_id r" by (auto simp: source_ids_def)
      with t source_rows_D [OF x(1)] have "x \<in> set (data d1)" "data_key x = data_key r" by (simp_all add: data_key_def)
      then have "x = r" using K r(1) distinct_map_inj [of data_key "data d1" x r] by (simp add: keys_ok_def)
      with x r(2) show False by simp
    qed
    then show ?thesis unfolding row_after_def by (rule if_not_P)
  qed
  ultimately show ?thesis
    by (simp add: data_row_of_def moved_frame(4) [OF m] row_with_map)
qed

text \<open>The start of a new migration, as the run sees it.\<close>

lemma new_run_started:
  assumes i: "initialize app backup plan d = Inr (job, d1)" and p: "plan_ok plan" and c: "consistent d"
    and n: "mg_name plan \<notin> j_name ` set (ms_migrations d)"
  obtains d3 schemas old where
    "started app plan (TableDef (sc_name (mg_target plan))
       (map (\<lambda>s. (sc_version s, table_cols s)) (schemas @ [mg_target plan])) True) old d3 d1"
    "declarations d3 (sc_name (mg_source plan)) = Inr schemas" "consistent d3"
    "data d3 = data d" "\<And>s. registered d s \<Longrightarrow> registered d3 s" "job = new_job plan d1"
  using i p c
proof (cases rule: initialize_split)
  case (new d3)
  have d3: "consistent d3" "data d3 = data d" "set (ms_schemas d) \<subseteq> set (ms_schemas d3)"
    using new(1) by (simp_all add: prelude_keeps_def extends_def)
  show ?thesis
    using new(3) p
  proof (rule start_migration_started)
    fix schemas old newl
    assume 1: "declarations d3 (sc_name (mg_source plan)) = Inr schemas" and st: "status (mg_name plan) d1 = Inr job"
      and 2: "started app plan (TableDef (sc_name (mg_target plan))
       (map (\<lambda>s. (sc_version s, table_cols s)) (schemas @ [mg_target plan])) True) old d3 d1"
    have m: "ms_migrations d1 = ms_migrations d3 @ [new_job plan d1]" "mg_name plan \<notin> j_name ` set (ms_migrations d3)"
      using 2 by (simp_all add: started_def)
    have "row_with j_name (mg_name plan) (xs @ [new_job plan d1]) = Some (new_job plan d1)"
      if "mg_name plan \<notin> j_name ` set xs" for xs
      using that by (induction xs) (auto simp: new_job_def)
    then have "job = new_job plan d1"
      using st m by (auto simp: status_def)
    then show ?thesis
      using that [OF 2 1 d3(1,2)] d3(3) by (auto simp: registered_def)
  qed
next
  case old
  have "ms_migrations d1 = ms_migrations d" using old(1) by (simp add: prelude_keeps_def extends_def)
  then have "mg_name plan \<in> j_name ` set (ms_migrations d)" using row_with_SomeD [of j_name "mg_name plan" _ job] old(3) by force
  then show ?thesis using n by blast
qed

lemma source_rows_started:
  assumes s: "started app plan def old d d'"
  shows "set (source_rows plan d') = rewiden (mg_table plan) def ` set (source_rows plan d)"
    and "length (source_rows plan d') = length (source_rows plan d)"
proof -
  let ?P = "\<lambda>r. d_table r = mg_table plan" and ?v = "sc_version (mg_source plan)"
  show "set (source_rows plan d') = rewiden (mg_table plan) def ` set (source_rows plan d)"
    using started_rows(1) [OF s] by (auto simp: source_rows_def)
  have "data d' = filter (\<lambda>r. \<not> ?P r) (data d) @ map (widen def) (filter ?P (data d))"
    using s by (simp add: started_def)
  then have "source_rows plan d' = map (widen def) (filter (\<lambda>r. ?P r \<and> d_schema_version r = ?v) (data d))"
    by (simp add: source_rows_def filter_map comp_def conj_commute cong: conj_cong) 
  then show "length (source_rows plan d') = length (source_rows plan d)" by (simp add: source_rows_def)
qed

lemma run_of_new:
  assumes c: "consistent d" "settled d" and p: "plan_ok plan" and src: "registered d (mg_source plan)"
    and n: "mg_name plan \<notin> j_name ` set (ms_migrations d)" and b: "1 \<le> n" "n \<le> 1000"
    and run: "run_migration app backup (Some plan) (PInt n) PNone (PBool False) d = Some (d', Inr (job, False))"
  shows "(\<forall>r \<in> set (source_rows plan d). row_migrated plan d' r) \<and>
    (\<forall>r \<in> set (data d) - set (source_rows plan d). row_kept d d' r) \<and>
    \<not> j_running job \<and> j_total job = int (length (source_rows plan d)) \<and> j_migrated job = j_total job"
proof -
  from run obtain job1 d1 where i: "initialize app backup plan d = Inr (job1, d1)"
    and rb: "run_batches plan n None 0 job1 d1 = Some (d', Inr job)"
    by (cases "initialize app backup plan d")
       (auto simp: run_migration_def run_args_plain [OF b] initialize_tx_def transact_def ebind_eq_Inr split: if_splits prod.splits)
  obtain d3 schemas old where 1: "started app plan (TableDef (sc_name (mg_target plan))
       (map (\<lambda>s. (sc_version s, table_cols s)) (schemas @ [mg_target plan])) True) old d3 d1" (is "started app plan ?def old d3 d1")
    and 2: "declarations d3 (sc_name (mg_source plan)) = Inr schemas" "consistent d3" "data d3 = data d"
    and 3: "\<And>s. registered d s \<Longrightarrow> registered d3 s" and j: "job1 = new_job plan d1"
    by (rule new_run_started [OF i p c(1) n]) blast
  note k1 = initialize_settled [OF i p c]
  have v: "sc_version (mg_target plan) \<noteq> sc_version (mg_source plan)" using p by (simp add: plan_ok_def)
  have K: "keys_ok d1" "keys_ok d" and R: "registry_ok d1"
    using k1(1) c(1) by (simp_all add: consistent_def catalog_ok_def rows_ok_def)
  obtain all where all: "declarations d1 (sc_name (mg_source plan)) = Inr all" using declarations_succeed [OF R] by blast
  have st: "status (mg_name plan) d1 = Inr job1" using initialize_keeps [OF i p c(1)] by blast
  have "j_running job1" by (simp add: j new_job_def)
  then have fin: "\<not> j_running job" "source_rows plan d' = []" "moved plan (all_fields all) (source_ids plan d1) d1 d'"
    "j_total job = j_total job1" "j_migrated job = j_migrated job1 + int (length (source_rows plan d1))"
    using run_batches_returns [OF _ v st _ all, of n 0] K(1) rb by (auto simp: keys_ok_def)
  have src3: "registered d3 (mg_source plan)" by (rule 3 [OF src])
  have sn: "table_name (mg_source plan) = mg_table plan" by (simp add: mg_table_def)
  have len: "length (source_rows plan d1) = length (source_rows plan d)"
    using source_rows_started(2) [OF 1] by (simp add: source_rows_def 2(3))
  have migr: "row_migrated plan d' r" if r: "r \<in> set (source_rows plan d)" for r
  proof -
    let ?m = "rewiden (mg_table plan) ?def r"
    have r3: "r \<in> set (data d3)" "d_table r = mg_table plan" using source_rows_D [OF r] by (simp_all add: 2(3))
    have m: "?m \<in> set (source_rows plan d1)"
      using r source_rows_started(1) [OF 1] by (simp add: source_rows_def 2(3))
    have m1: "?m \<in> set (data d1)" "d_table ?m = mg_table plan" using source_rows_D [OF m] by simp_all
    have "new_values plan ?m = new_values plan r"
    proof (rule new_values_same)
      fix n f assume "(n, f) \<in> set (sc_fields (mg_source plan))"
      then show "n \<in> fst ` set (d_cols r) \<and> n \<in> fst ` set (d_cols ?m) \<and> col_value (d_cols ?m) n = col_value (d_cols r) n"
        using row_field_column [OF 2(2) r3(1) src3] started_widened [OF 1 2(1) p 2(2) src3 _ r3(1)] r3(2) sn by simp
    qed
    moreover have "row_migrated plan d' ?m"
    proof (rule row_after_moved_rows [OF fin(3,2) K(1) m])
      fix n f assume f: "(n, f) \<in> set (sc_fields (mg_target plan))"
      have tn: "sc_name (mg_target plan) = sc_name (mg_source plan)" using p by (simp add: plan_ok_def)
      obtain s' where "s' \<in> set all" "sc_fields s' = sc_fields (mg_target plan)"
        using declared(2) [OF all R k1(3) tn] by blast
      then have "n \<in> set (all_fields all)" using f all_fields_mem by metis
      moreover have "n \<in> fst ` set (d_cols ?m)"
        by (rule row_field_column [OF k1(1) m1(1) k1(3) _ f]) (simp add: r3(2) tn mg_table_def table_name_data)
      ultimately show "n \<in> set (all_fields all) \<and> n \<in> fst ` set (d_cols ?m)" by blast
    qed
    ultimately show ?thesis by (simp add: row_migrated_def)
  qed
  have kept: "row_kept d d' r" if r: "r \<in> set (data d)" "r \<notin> set (source_rows plan d)" for r
  proof -
    let ?m = "rewiden (mg_table plan) ?def r"
    have m: "?m \<in> set (data d1)" using started_rows(1) [OF 1] r(1) by (simp add: 2(3))
    have "?m \<notin> set (source_rows plan d1)"
      using r by (auto simp: source_rows_def)
    from row_after_kept_rows [OF fin(3) K(1) m this]
    have "data_row_of (d_table r) (d_id r) d' = Some ?m" by simp
    moreover have "col_value (d_cols ?m) n = col_value (d_cols r) n"
      if "registered d s" "table_name s = d_table r" "(n, f) \<in> set (sc_fields s)" for s n f
      using started_widened [OF 1 2(1) p 2(2) 3 [OF that(1)] that(2) _ that(3)] r(1) by (simp add: 2(3))
    ultimately show ?thesis by (force simp: row_kept_def)
  qed
  show ?thesis using migr kept fin(1,4,5) len by (simp add: j new_job_def)
qed

end
