(* ===== verification/MigrationResume.thy ===== *)
theory MigrationResume
  imports MigrationOutcome
begin

text \<open>
  A migration that was started can be resumed: its first transaction leaves a catalog in which the
  checks of every later run pass and change nothing, and the loop of batches, cut at any transaction
  and continued, computes what it computes without the cut.
\<close>

section \<open>A migration that was started is resumed where it stands\<close>

definition resumable :: "migration \<Rightarrow> db \<Rightarrow> bool" where
  "resumable plan d =
     (let src = mg_source plan; tgt = mg_target plan; n = sc_name src; g = ready_guard src True in
      installed d \<and> own_installed migration_names d \<and>
      map (\<lambda>r. (sr_definition r, sr_table r)) (lookup_schema d n (sc_version src)) = [(schema_definition src, table_name src)] \<and>
      n \<in> set (ms_metadata_layouts d) \<and> verify_layout d n = Inr () \<and>
      (n, sc_version src) \<in> set (ms_payload_schemas d) \<and> map_of (objects d) (fst g) = Some (snd g) \<and>
      map sr_definition (lookup_schema d (sc_name tgt) (sc_version tgt)) = [schema_definition tgt])"

lemma own_verified: "own_installed ns d \<Longrightarrow> verify_objects (own ns) d = Inr ()"
  by (simp add: own_installed_def verify_objects_def own_def list_all_iff trigger_def)

lemma installed_core_ok:
  assumes "installed d" shows "install_core d = Inr d" "payload_format d = Inr d" "table d ''ms_schemas'' = Inr ()"
proof -
  have o: "own_installed core_names d" "own_installed payload_names d"
    using assms by (simp_all add: installed_def own_installed_def)
  have "has_object d ''ms_format''" "has_object d ''ms_payload_format''" "has_object d ''ms_schemas''"
    using installed_trigger(2) [OF assms] by (simp_all add: core_names_def payload_names_def)
  then show "install_core d = Inr d" "payload_format d = Inr d" "table d ''ms_schemas'' = Inr ()"
    using assms own_verified [OF o(1)] own_verified [OF o(2)]
    by (simp_all add: install_core_def payload_format_def table_def verify_format_def installed_def)
qed

lemma initialize_resumes:
  assumes r: "resumable plan d" and p: "plan_ok plan"
    and j: "row_with j_name (mg_name plan) (ms_migrations d) = Some job" "same_job plan job"
  shows "initialize app backup plan d = Inr (job, d)"
proof -
  let ?s = "mg_source plan" and ?t = "mg_target plan"
  have f: "installed d" "own_installed migration_names d"
    "map (\<lambda>r. (sr_definition r, sr_table r)) (lookup_schema d (sc_name ?s) (sc_version ?s)) = [(schema_definition ?s, table_name ?s)]"
    "sc_name ?s \<in> set (ms_metadata_layouts d)" "verify_layout d (sc_name ?s) = Inr ()"
    "(sc_name ?s, sc_version ?s) \<in> set (ms_payload_schemas d)"
    "map_of (objects d) (fst (ready_guard ?s True)) = Some (snd (ready_guard ?s True))"
    "map sr_definition (lookup_schema d (sc_name ?t) (sc_version ?t)) = [schema_definition ?t]"
    using r by (simp_all add: resumable_def Let_def)
  note i = installed_core_ok [OF f(1)]
  have h: "has_object d ''ms_metadata_layouts''"
    using f(2) trigger_has by (simp add: own_installed_def migration_names_def)
  then have ev: "evolved d (sc_name ?s)" using f(4) by (simp add: evolved_def)
  obtain row where row: "lookup_schema d (sc_name ?s) (sc_version ?s) = [row]"
    "sr_definition row = schema_definition ?s" "sr_table row = table_name ?s"
    using f(3) by (auto simp: map_eq_Cons_conv)
  have 1: "install ?s d = Inr d" by (simp add: install_def i row ev f(5))
  have "verify_objects [ready_guard ?s True] d = Inr ()" using f(7) by (simp add: verify_objects_def)
  then have 2: "payload_install ?s d = Inr d" by (simp add: payload_install_def i f(6) ev Let_def)
  have 3: "check_schema False (Some ?s) d = Inr ?s"
    using f(7) by (simp add: check_schema_def i row ev Let_def)
  have tn: "sc_name ?t = sc_name ?s" using p by (simp add: plan_ok_def)
  then have g: "ready_guard ?t b = ready_guard ?s b" for b by (simp add: ready_guard_def table_name_data)
  have 4: "check_schema False (Some ?t) d = Inr ?t"
    using f(7,8) ev by (simp add: check_schema_def i Let_def g) (simp add: tn g)
  show ?thesis
    by (simp add: initialize_def 1 2 3 4 h own_verified [OF f(2)] j resume_job_def f(5))
qed

lemma resumable_frame:
  assumes "resumable plan d" and "objects d' = objects d" "formats d' = formats d" "ms_schemas d' = ms_schemas d"
    "ms_payload_schemas d' = ms_payload_schemas d" "ms_metadata_layouts d' = ms_metadata_layouts d"
  shows "resumable plan d'"
proof -
  have "installed d' = installed d" by (rule installed_cong) (simp_all add: assms)
  moreover have "own_installed ns d' = own_installed ns d" for ns
    by (simp add: own_installed_def trigger_cong [OF assms(2)])
  moreover have "verify_layout d' n = verify_layout d n" for n
    by (simp add: verify_layout_def verify_objects_def declarations_def assms)
  ultimately show ?thesis using assms(1) by (simp add: resumable_def Let_def lookup_schema_def assms)
qed

text \<open>After its first transaction a migration can be resumed.\<close>

lemma install_registered:
  assumes I: "installed d" and K: "keys_ok d" and r: "registered d s" and i: "install s d = Inr d'"
  shows "d' = d \<and> map (\<lambda>r. (sr_definition r, sr_table r)) (lookup_schema d (sc_name s) (sc_version s)) =
    [(schema_definition s, table_name s)] \<and> (\<not> evolved d (sc_name s) \<longrightarrow> verify_objects (schema_objects s) d = Inr ())"
proof -
  obtain x where x: "lookup_schema d (sc_name s) (sc_version s) = [x]"
    using lookup_registered [OF K r] by blast
  with i show ?thesis by (auto simp: install_def installed_core_ok(1) [OF I] split: if_splits)
qed

lemma payload_install_enrolls:
  assumes I: "installed d" and i: "payload_install s d = Inr d'"
  shows "(sc_name s, sc_version s) \<in> set (ms_payload_schemas d')"
  using i by (auto simp: payload_install_def installed_core_ok(2) [OF I] Let_def create_def split: if_splits)

lemma insort_key_last: "\<forall>x \<in> set xs. f x \<le> f y \<Longrightarrow> insort_key f x xs @ [y] = insort_key f x (xs @ [y]) \<or> f y < f x"
  by (induction xs) auto

lemma sort_key_last: "\<forall>x \<in> set xs. f x \<le> f y \<Longrightarrow> sort_key f (xs @ [y]) = sort_key f xs @ [y]"
proof (induction xs)
  case (Cons x xs)
  then have "insort_key f x (sort_key f xs) @ [y] = insort_key f x (sort_key f xs @ [y])"
    using insort_key_last [of "sort_key f xs" f y x] by auto
  with Cons show ?case by simp
qed simp

lemma emapM_append: "emapM f (xs @ ys) = ebind (emapM f xs) (\<lambda>us. ebind (emapM f ys) (\<lambda>vs. Inr (us @ vs)))"
proof (induction xs)
  case Nil
  then show ?case by (cases "emapM f ys") simp_all
next
  case (Cons x xs)
  then show ?case by (cases "f x"; cases "emapM f xs"; cases "emapM f ys") simp_all
qed

lemma layout_validator: "layout (xs @ [s\<lparr> sc_payload_validator := v \<rparr>]) = layout (xs @ [s])"
  by (simp add: layout_def table_name_def immutables_def table_cols_def)

lemma started_layout:
  assumes s: "started app plan def old d d'" and p: "plan_ok plan" and w: "writable (mg_source plan) d = Inr ()"
    and c: "declarations d (sc_name (mg_source plan)) = Inr schemas" and n: "layout (schemas @ [mg_target plan]) = Inr new"
    and v: "verify_objects new d' = Inr ()" and o: "own_installed migration_names d'"
  shows "verify_layout d' (sc_name (mg_source plan)) = Inr ()"
proof -
  let ?n = "sc_name (mg_source plan)" and ?t = "mg_target plan"
  let ?rows = "filter (\<lambda>r. sr_name r = ?n) (ms_schemas d)"
  have t: "wf_declared ?t" "sc_name ?t = ?n" "sc_version ?t = sc_version (mg_source plan) + 1" using p by (simp_all add: plan_ok_def)
  have "\<forall>r \<in> set ?rows. sr_version r \<le> sr_version (schema_row_of ?t)"
    using w t(3) by (force simp: writable_def schema_row_of_def)
  then have "sort_key sr_version (?rows @ [schema_row_of ?t]) = sort_key sr_version ?rows @ [schema_row_of ?t]"
    by (rule sort_key_last)
  moreover have "filter (\<lambda>r. sr_name r = ?n) (ms_schemas d') = ?rows @ [schema_row_of ?t]"
    using s t(2) by (simp add: started_def schema_row_of_def)
  ultimately have "declarations d' ?n =
      Inr (schemas @ [?t\<lparr> sc_payload_validator := map_option (\<lambda>_. unavailable_validator) (sc_validator_id ?t) \<rparr>])"
    using c decode_definition [OF t(1)] by (simp add: declarations_def emapM_append schema_row_of_def)
  then show ?thesis
    using v n own_verified [OF o] by (simp add: verify_layout_def layout_validator)
qed

lemma started_own:
  assumes s: "started app plan def old d d'" and o: "own_installed migration_names d"
  shows "own_installed migration_names d'"
proof -
  have "trigger d' n" if n: "n \<in> set migration_names" for n
  proof -
    have "map_of (objects d) n = Some (Own n)" using o n by (simp add: own_installed_def list_all_iff trigger_def)
    moreover have "n \<noteq> mg_table plan" "n \<noteq> fst (target_guard plan)"
      using own_not_data [of n] n by (auto simp: mg_table_def table_name_data guard_name)
    ultimately show ?thesis using s unfolding started_def trigger_def by simp
  qed
  then show ?thesis by (simp add: own_installed_def list_all_iff)
qed

lemma start_resumable:
  assumes st: "start_migration app backup plan d = Inr (job, d')" and p: "plan_ok plan" and c: "consistent d"
    and o: "own_installed migration_names d" and e: "(sc_name (mg_source plan), sc_version (mg_source plan)) \<in> set (ms_payload_schemas d)"
    and l: "map (\<lambda>r. (sr_definition r, sr_table r)) (lookup_schema d (sc_name (mg_source plan)) (sc_version (mg_source plan))) =
      [(schema_definition (mg_source plan), table_name (mg_source plan))]"
  shows "resumable plan d' \<and> same_job plan job"
proof -
  let ?s = "mg_source plan" and ?t = "mg_target plan"
  have t: "sc_name ?t = sc_name ?s" "sc_version ?t = sc_version ?s + 1" "mg_before plan = None" "mg_after plan = None"
    using p by (simp_all add: plan_ok_def)
  have w: "writable ?s d = Inr ()" using st t(3,4) by (rule start_migration_effect) blast
  show ?thesis
    using st p
  proof (rule start_migration_started)
    fix schemas old new
    assume 1: "declarations d (sc_name ?s) = Inr schemas" and 2: "layout (schemas @ [?t]) = Inr new"
      and 3: "status (mg_name plan) d' = Inr job" and 5: "verify_objects new d' = Inr ()"
      and 4: "started app plan (TableDef (sc_name ?t) (map (\<lambda>s. (sc_version s, table_cols s)) (schemas @ [?t])) True) old d d'"
    have o': "own_installed migration_names d'" by (rule started_own [OF 4 o])
    have c': "consistent d'" by (rule started_consistent [OF 4 1 p c])
    then have k: "installed d'" "keys_ok d'" by (simp_all add: consistent_def catalog_ok_def)
    have g: "ready_guard ?s True = target_guard plan" by (simp add: target_guard_def ready_guard_def table_name_data t(1))
    have f: "ms_schemas d' = ms_schemas d @ [schema_row_of ?t]" "sc_name ?s \<in> set (ms_metadata_layouts d')"
      "(sc_name ?s, sc_version ?s) \<in> set (ms_payload_schemas d')"
      "map_of (objects d') (fst (target_guard plan)) = Some (snd (target_guard plan))"
      "ms_migrations d' = ms_migrations d @ [new_job plan d']" "mg_name plan \<notin> j_name ` set (ms_migrations d)"
      using 4 e by (simp_all add: started_def enrolled_layouts_def)
    have "lookup_schema d' (sc_name ?s) (sc_version ?s) = lookup_schema d (sc_name ?s) (sc_version ?s)"
      using t by (simp add: lookup_schema_def f(1) schema_row_of_def)
    moreover have "registered d' ?t" by (simp add: registered_def f(1) schema_row_of_def)
    then obtain r where "lookup_schema d' (sc_name ?t) (sc_version ?t) = [r]" "sr_definition r = schema_definition ?t"
      using lookup_registered [OF k(2)] by blast
    ultimately have "resumable plan d'"
      using k f l o' started_layout [OF 4 p w 1 2 5 o'] by (simp add: resumable_def Let_def g)
    moreover have "row_with j_name (mg_name plan) (xs @ [new_job plan d']) = Some (new_job plan d')"
      if "mg_name plan \<notin> j_name ` set xs" for xs
      using that by (induction xs) (auto simp: new_job_def)
    then have "job = new_job plan d'" using 3 f(5,6) by (auto simp: status_def)
    ultimately show ?thesis by (simp add: same_job_def new_job_def)
  qed
qed

lemma resume_resumable:
  assumes i: "install (mg_source plan) d = Inr d1" "payload_install (mg_source plan) d1 = Inr d'"
    and q: "check_schema False (Some (mg_source plan)) d' = Inr (mg_source plan)" "own_installed migration_names d'"
    and j: "resume_job plan job d' = Inr (job, d')"
    and p: "plan_ok plan" and c: "consistent d" and r: "registered d (mg_source plan)"
  shows "resumable plan d' \<and> same_job plan job"
proof -
  let ?s = "mg_source plan" and ?t = "mg_target plan"
  have k: "installed d" "keys_ok d" using c by (simp_all add: consistent_def catalog_ok_def)
  note d1 = install_registered [OF k r i(1)]
  have i2: "payload_install ?s d = Inr d'" using i(2) d1 by simp
  note e = payload_install_effect [OF k(1) i2]
  have I': "installed d'" using extends_installed e k(1) by blast
  have same: "same_job plan job" "verify_layout d' (sc_name ?s) = Inr ()" "check_schema False (Some ?t) d' = Inr ?t"
    using j check_schema_Inr unfolding resume_job_def ebind_eq_Inr require_eq_Inr by fastforce+
  have h: "has_object d' ''ms_metadata_layouts''"
    using q(2) trigger_has by (simp add: own_installed_def migration_names_def)
  have "evolved d' (sc_name ?s)"
  proof (rule ccontr)
    assume "\<not> evolved d' (sc_name ?s)"
    moreover have "evolved d (sc_name ?s) \<Longrightarrow> evolved d' (sc_name ?s)"
      using e h by (simp add: evolved_def extends_def)
    ultimately have "verify_objects (schema_objects ?s) d = Inr ()" using d1 by blast
    then have "map_of (objects d) (table_name ?s) = Some (TableDef (sc_name ?s) [(1, table_cols ?s)] False)"
      by (rule verify_objects_D) (simp add: schema_objects_def Let_def)
    then have old: "map_of (objects d') (table_name ?s) = Some (TableDef (sc_name ?s) [(1, table_cols ?s)] False)"
      using e extends_map_of by blast
    obtain schemas new where l: "declarations d' (sc_name ?s) = Inr schemas" "layout schemas = Inr new" "verify_objects new d' = Inr ()"
      using same(2) unfolding verify_layout_def ebind_eq_Inr by auto
    have "registry_ok d'" using payload_install_keeps [OF i2 c] by (simp add: consistent_def rows_ok_def)
    then have "\<forall>x \<in> set schemas. sc_name x = sc_name ?s" using declared(1) [OF l(1)] by fastforce
    then have "table_name (last schemas) = table_name ?s"
      using layout_table [OF l(2)] by (simp add: table_name_data)
    then obtain vs where "map_of new (table_name ?s) = Some (TableDef (sc_name (last schemas)) vs True)"
      using layout_table [OF l(2)] by metis
    then have "map_of (objects d') (table_name ?s) = Some (TableDef (sc_name (last schemas)) vs True)"
      by (intro verify_objects_D [OF l(3)] map_of_SomeD)
    with old show False by simp
  qed
  then have ev: "evolved d' (sc_name ?s)" "sc_name ?s \<in> set (ms_metadata_layouts d')" by (simp_all add: evolved_def)
  have "map_of (objects d') (fst (ready_guard ?s True)) = Some (snd (ready_guard ?s True))"
    using q(1) ev(1) by (simp add: check_schema_def Let_def ebind_eq_Inr)
  moreover have "map sr_definition (lookup_schema d' (sc_name ?t) (sc_version ?t)) = [schema_definition ?t]"
    using same(3) by (simp add: check_schema_def Let_def ebind_eq_Inr)
  ultimately show ?thesis
    using I' q(2) same ev(2) payload_install_enrolls [OF k(1) i2] d1 e
    by (simp add: resumable_def Let_def lookup_schema_def)
qed

lemma initialize_resumable:
  assumes i: "initialize app backup plan d = Inr (job, d')" and p: "plan_ok plan" and c: "consistent d"
    and r: "registered d (mg_source plan)"
  shows "resumable plan d' \<and> same_job plan job"
  using i
proof (cases rule: initialize_cases)
  case (start d1 d2 d3)
  have k: "installed d" "keys_ok d" using c by (simp_all add: consistent_def catalog_ok_def)
  note d1 = install_registered [OF k r start(1)]
  have p2: "payload_install (mg_source plan) d = Inr d2" using start(2) d1 by simp
  have c2: "consistent d2" using payload_install_keeps [OF p2 c] by blast
  have e3: "ms_schemas d3 = ms_schemas d2" "ms_payload_schemas d3 = ms_payload_schemas d2" "consistent d3"
    using start(4) create_all_extends prelude_create [OF _ c2] c2 by (auto simp: prelude_keeps_def)
  show ?thesis
    by (rule start_resumable [OF start(6) p e3(3) start(5)])
       (use e3 payload_install_enrolls [OF k(1) p2] payload_install_effect [OF k(1) p2] d1 in
         \<open>simp_all add: lookup_schema_def\<close>)
next
  case (resume d1)
  then show ?thesis using resume_resumable p c r by blast
qed

section \<open>The loop, cut into runs\<close>

definition goes_on :: "int option \<Rightarrow> int \<Rightarrow> migration_row \<Rightarrow> bool" where
  "goes_on limit a job = (j_running job \<and> (case limit of None \<Rightarrow> True | Some m \<Rightarrow> a < m))"

lemma run_batches_induct [consumes 1, case_names Stop Fail Step]:
  assumes "run_batches plan n limit a job d = Some x"
    and "\<And>a job d. \<not> goes_on limit a job \<Longrightarrow> P a job d (d, Inr job)"
    and "\<And>a job d d' e. goes_on limit a job \<Longrightarrow> batch_tx plan n d = (d', Inl e) \<Longrightarrow> P a job d (d', Inl e)"
    and "\<And>a job d d' job' x. goes_on limit a job \<Longrightarrow> batch_tx plan n d = (d', Inr job') \<Longrightarrow>
       P (a + 1) job' d' x \<Longrightarrow> P a job d x"
  shows "P a job d x"
proof -
  have "(plan0 = plan \<and> n0 = n \<and> limit0 = limit) \<longrightarrow> P a job d x"
    if "run_batches plan0 n0 limit0 a job d = Some x" for plan0 n0 limit0 a job d x
  proof (rule run_batches.raw_induct
      [where P = "\<lambda>plan0 n0 limit0 a job d x. (plan0 = plan \<and> n0 = n \<and> limit0 = limit) \<longrightarrow> P a job d x", OF _ that])
    fix f plan0 n0 limit0 a job d x
    assume IH: "\<And>plan0 n0 limit0 a job d x. f plan0 n0 limit0 a job d = Some x \<Longrightarrow>
        (plan0 = plan \<and> n0 = n \<and> limit0 = limit) \<longrightarrow> P a job d x"
      and eq: "(if j_running job \<and> (case limit0 of None \<Rightarrow> True | Some m \<Rightarrow> a < m)
         then case batch_tx plan0 n0 d of (d', Inl e) \<Rightarrow> Some (d', Inl e)
              | (d', Inr job') \<Rightarrow> f plan0 n0 limit0 (a + 1) job' d'
         else Some (d, Inr job)) = Some x"
    show "(plan0 = plan \<and> n0 = n \<and> limit0 = limit) \<longrightarrow> P a job d x"
    proof
      assume p: "plan0 = plan \<and> n0 = n \<and> limit0 = limit"
      show "P a job d x"
      proof (cases "goes_on limit a job")
        case False
        with eq p have "x = (d, Inr job)" unfolding goes_on_def by (simp split: if_splits)
        with assms(2) [OF False] show ?thesis by simp
      next
        case True
        obtain d' r where b: "batch_tx plan n d = (d', r)" by fastforce
        have e: "(case r of Inl e \<Rightarrow> Some (d', Inl e) | Inr job' \<Rightarrow> f plan n limit (a + 1) job' d') = Some x"
          using eq p b True unfolding goes_on_def by simp
        show ?thesis
        proof (cases r)
          case (Inl e')
          with e assms(3) [OF True, of d d' e'] b show ?thesis by simp
        next
          case (Inr job')
          with e have "P (a + 1) job' d' x" using IH by simp
          with assms(4) [OF True] b Inr show ?thesis by simp
        qed
      qed
    qed
  qed
  with assms(1) show ?thesis by blast
qed

lemma run_batches_step:
  "run_batches plan n limit a job d =
     (if goes_on limit a job
      then (case batch_tx plan n d of
              (d', Inl e) \<Rightarrow> Some (d', Inl e)
            | (d', Inr job') \<Rightarrow> run_batches plan n limit (a + 1) job' d')
      else Some (d, Inr job))"
  unfolding goes_on_def by (rule run_batches.simps)

lemma unlimited_counter:
  "run_batches plan n None a job d = Some x \<Longrightarrow> run_batches plan n None b job d = Some x"
proof (induction arbitrary: b rule: run_batches_induct)
  case (Stop a job d)
  then show ?case by (subst run_batches_step) (simp add: goes_on_def)
next
  case (Fail a job d d' e)
  then show ?case by (subst run_batches_step) (simp add: goes_on_def)
next
  case (Step a job d d' job' x)
  then show ?case by (subst run_batches_step) (simp add: goes_on_def)
qed

lemma unlimited_any: "run_batches plan n None a job d = run_batches plan n None b job d"
proof (cases "run_batches plan n None a job d")
  case (Some x)
  then show ?thesis using unlimited_counter by metis
next
  case None
  then show ?thesis using unlimited_counter [of plan n b job d _ a] by (cases "run_batches plan n None b job d") auto
qed

text \<open>What the batches leave alone.\<close>

definition same_layout :: "db \<Rightarrow> db \<Rightarrow> bool" where
  "same_layout d d' =
     (objects d' = objects d \<and> formats d' = formats d \<and> ms_schemas d' = ms_schemas d \<and>
      ms_payload_schemas d' = ms_payload_schemas d \<and> ms_metadata_layouts d' = ms_metadata_layouts d)"

lemma batch_same_layout:
  assumes b: "batch plan n ([], d) = Inr (job', xs, d')" and k: "distinct (map data_key (data d))"
    and j: "status (mg_name plan) d = Inr job"
  shows "same_layout d d' \<and> status (mg_name plan) d' = Inr job' \<and> same_job plan job' = same_job plan job"
  using b k
proof (cases rule: batch_effect)
  case complete
  then show ?thesis using j by (simp add: same_layout_def)
next
  case (rows job0 schemas rs I names d1)
  have "status (mg_name plan) d1 = Inr job0" using rows(1,9) by simp
  then have "status (mg_name plan) d' = Inr job'" using rows(10,11) status_update_job by simp
  then show ?thesis using rows j by (auto simp: same_layout_def update_job_def same_job_def)
qed

lemma cut_loop:
  "run_batches plan n limit a job d = Some x \<Longrightarrow> snd x = Inr job' \<Longrightarrow> status (mg_name plan) d = Inr job \<Longrightarrow>
   ready_for plan d \<Longrightarrow> plan_ok plan \<Longrightarrow>
   run_batches plan n None b job' (fst x) = run_batches plan n None b job d \<and> same_layout d (fst x) \<and>
   status (mg_name plan) (fst x) = Inr job' \<and> same_job plan job' = same_job plan job \<and> ready_for plan (fst x)"
proof (induction arbitrary: b rule: run_batches_induct)
  case (Stop a job d)
  then show ?case by (simp add: same_layout_def)
next
  case (Fail a job d d' e)
  then show ?case by simp
next
  case (Step a job d d1 job1 x)
  have run: "j_running job" using Step.hyps(1) by (simp add: goes_on_def)
  obtain xs where b: "batch plan n ([], d) = Inr (job1, xs, d1)"
    using Step.hyps(2) by (cases rule: batch_tx_cases [of plan n d]) auto
  have k: "distinct (map data_key (data d))"
    using Step.prems(3) by (simp add: ready_for_def consistent_def catalog_ok_def keys_ok_def)
  note t = batch_tx_settled [OF b Step.prems(3,4)] and l = batch_same_layout [OF b k Step.prems(2)]
  from Step.IH [OF Step.prems(1)] t l Step.prems(4)
  have r: "run_batches plan n None c job' (fst x) = run_batches plan n None c job1 d1 \<and> same_layout d1 (fst x) \<and>
    status (mg_name plan) (fst x) = Inr job' \<and> same_job plan job' = same_job plan job1 \<and> ready_for plan (fst x)" for c
    by blast
  have "run_batches plan n None b job d = run_batches plan n None (b + 1) job1 d1"
    using run Step.hyps(2) by (subst run_batches_step) (simp add: goes_on_def)
  then have "run_batches plan n None b job d = run_batches plan n None b job1 d1"
    using unlimited_any [of plan n "b + 1" job1 d1 b] by simp
  with r [of b] l show ?case by (simp add: same_layout_def)
qed

lemma status_has_row: "status n d = Inr job \<Longrightarrow> row_with j_name n (ms_migrations d) = Some job"
  by (auto simp: status_def)

text \<open>With or without a limit the loop returns.\<close>

lemma run_batches_total:
  assumes "ready_for plan d" and p: "plan_ok plan" and "status (mg_name plan) d = Inr job"
  shows "\<exists>x. run_batches plan n limit a job d = Some x"
  using assms(1,3)
proof (induction "length (source_rows plan d)" arbitrary: d job a rule: less_induct)
  case less
  have v: "sc_version (mg_target plan) \<noteq> sc_version (mg_source plan)" using p by (simp add: plan_ok_def)
  have kd: "distinct (map data_key (data d))" "registry_ok d"
    using less.prems(1) by (simp_all add: ready_for_def consistent_def catalog_ok_def keys_ok_def rows_ok_def)
  obtain schemas where s: "declarations d (sc_name (mg_source plan)) = Inr schemas"
    using declarations_succeed [OF kd(2)] by blast
  show ?case
  proof (cases "goes_on limit a job")
    case False
    then show ?thesis by (subst run_batches_step) simp
  next
    case True
    then have run: "j_running job" by (simp add: goes_on_def)
    show ?thesis
    proof (cases rule: batch_tx_cases [of plan n d])
      case (1 e)
      with True show ?thesis by (subst run_batches_step) simp
    next
      case (2 job1 xs d1)
      have r1: "ready_for plan d1" using batch_tx_settled [OF 2(2) less.prems(1) p] by simp
      obtain I where I: "status (mg_name plan) d1 = Inr job1" "j_running job1 = (source_rows plan d1 \<noteq> [])"
        "source_rows plan d1 \<noteq> [] \<longrightarrow> length (source_rows plan d1) < length (source_rows plan d)"
        by (rule batch_progress [OF 2(2) kd(1) v less.prems(2) run s]) blast
      have "\<exists>x. run_batches plan n limit (a + 1) job1 d1 = Some x"
      proof (cases "source_rows plan d1 = []")
        case True
        with I(2) show ?thesis by (subst run_batches_step) (simp add: goes_on_def)
      next
        case False
        with less.hyps [of d1 job1 "a + 1"] I r1 show ?thesis by blast
      qed
      then show ?thesis using True 2(1) by (subst run_batches_step) simp
    qed
  qed
qed

lemma run_args_plan: "run_args (Some plan) b m dry = Inr (p, n, limit, q) \<Longrightarrow> p = plan \<and> 1 \<le> n \<and> n \<le> 1000"
  unfolding run_args_def ebind_eq_Inr expect_eq_Inr require_eq_Inr by auto

text \<open>The first transaction of a run on a reachable catalog with the source schema.\<close>

lemma reach_migration:
  assumes "reach xxh sid s" and "registered (s_db s) (mg_source plan)"
  shows "consistent (s_db s)" "settled (s_db s)"
  using reach_ok [OF assms(1)] reach_settled [OF assms(1)] registered_consistent assms(2) by (auto simp: system_ok_def)

lemma initialize_tx_fails: "initialize app backup plan d = Inl e \<Longrightarrow> initialize_tx app backup plan d = (d, Inl e)"
  by (simp add: initialize_tx_def transact_def)

lemma initialize_tx_ready:
  assumes "initialize app backup plan d = Inr (job, d1)" "plan_ok plan" "consistent d" "settled d"
  shows "ready_for plan d1" "status (mg_name plan) d1 = Inr job" "initialize_tx app backup plan d = (d1, Inr job)"
proof -
  show r: "ready_for plan d1" "status (mg_name plan) d1 = Inr job"
    using initialize_settled [OF assms] initialize_keeps [OF assms(1-3)] by (simp_all add: ready_for_def)
  show "initialize_tx app backup plan d = (d1, Inr job)"
    using r(1) assms(1) by (simp add: initialize_tx_def transact_def ready_for_def settled_def)
qed

end
