(* ===== verification/SampleMigration.thy ===== *)
theory SampleMigration
  imports MigrationResume SampleRun
begin

text \<open>
  A metadata migration on concrete values: the catalog with one blob of a schema with one field, and
  a second version with another field.
\<close>

definition tiny_target :: blob_schema where
  "tiny_target =
     \<lparr> sc_name = ''d'', sc_fields = [(''n'', Integer True False), (''t'', Text False False)], sc_version = 2,
       sc_indexes = [], sc_handlers = [''file''], sc_validator_id = None, sc_payload_validator = None \<rparr>"

lemma tiny_target_made:
  "mk_schema (PStr ''d'') (PDict [(PStr ''n'', PField (Integer True False)), (PStr ''t'', PField (Text False False))])
     (PInt 2) (PTuple []) (PTuple [PStr ''file'']) PNone PNone = Inr tiny_target"
  by code_simp

definition tiny_plan :: migration where
  "tiny_plan =
     \<lparr> mg_name = ''m'', mg_source = tiny_schema, mg_target = tiny_target, mg_transform_id = ''x'',
       mg_transform = (\<lambda>inputs. Inr (PDict [(PStr ''n'', col_value inputs ''n''), (PStr ''t'', PStr ''new'')])),
       mg_before = None, mg_after = None \<rparr>"

definition no_app :: app_sql where
  "no_app = \<lparr> app_trigger = (\<lambda>_. False), app_on_table = (\<lambda>_ _. False), app_foreign_keys = (\<lambda>_ _. []),
     app_temp_triggers = (\<lambda>_. False) \<rparr>"

definition tiny_job :: migration_row where
  "tiny_job = \<lparr> j_name = ''m'', j_schema = ''d'', j_source = 1, j_target = 2, j_transform = ''x'', j_running = True,
     j_total = 1, j_migrated = 0, j_last_id = None \<rparr>"

definition tiny_layout :: "(string \<times> sqldef) list" where
  "tiny_layout =
     [(''ms_data_64'', TableDef ''d'' [(1, [(''n'', KInt64, True)]), (2, [(''n'', KInt64, True), (''t'', KText, False)])] True),
      (''ms_data_64_update'', LayoutUpdate ''d'' 2 []), (''ms_data_64_insert'', LayoutInsert ''d'' 2),
      (''ms_data_64_delete'', LayoutDelete ''d'' 2)]"

definition mdb1 :: db where "mdb1 = db3\<lparr> objects := objects db3 @ own migration_names \<rparr>"

definition mdb2 :: db where
  "mdb2 = mdb1\<lparr> ms_schemas := ms_schemas mdb1 @ [\<lparr> sr_name = ''d'', sr_version = 2, sr_table = ''ms_data_64'',
     sr_definition = schema_definition tiny_target \<rparr>] \<rparr>"

definition mdb3 :: db where
  "mdb3 = mdb2\<lparr> objects := own core_names @ own payload_names @ [ready_guard tiny_schema False] @
       own encoding_names @ own lifecycle_names @ own migration_names @ tiny_layout @ [retire_guard ''d''],
     data := [\<lparr> d_table = ''ms_data_64'', d_id = ''b1'', d_schema_version = 1, d_version = 1,
                d_cols = [(''n'', PInt 3), (''t'', PNone)] \<rparr>] \<rparr>"

definition mdb4 :: db where
  "mdb4 = mdb3\<lparr> objects := own core_names @ own payload_names @ own encoding_names @ own lifecycle_names @
       own migration_names @ tiny_layout @ [retire_guard ''d'', ready_guard tiny_schema True],
     ms_metadata_layouts := [''d''], ms_payload_schemas := [(''d'', 1), (''d'', 2)], ms_migrations := [tiny_job] \<rparr>"

definition mdb5 :: db where
  "mdb5 = mdb4\<lparr> data := [\<lparr> d_table = ''ms_data_64'', d_id = ''b1'', d_schema_version = 2, d_version = 2,
                d_cols = [(''n'', PInt 3), (''t'', PStr ''new'')] \<rparr>],
     ms_blobs := [\<lparr> b_id = ''b1'', b_schema = ''d'', b_version = 2, b_state = Ready \<rparr>],
     ms_migrations := [tiny_job\<lparr> j_running := False, j_migrated := 1, j_last_id := Some ''b1'' \<rparr>] \<rparr>"

lemma tiny_before: "install tiny_schema db3 = Inr db3" "payload_install tiny_schema db3 = Inr db3"
  "check_schema False (Some tiny_schema) db3 = Inr tiny_schema"
  by code_simp+

lemma tiny_steps:
  "create_all (own migration_names) db3 = Inr mdb1"
  "insert_schema tiny_target mdb1 = Inr mdb2"
  "declarations mdb1 ''d'' = Inr [tiny_schema]"
  "layout [tiny_schema, tiny_target] = Inr tiny_layout"
  "verify_objects (schema_objects tiny_schema) mdb1 = Inr ()"
  "enrol tiny_plan mdb3 = Inr mdb4"
  by code_simp+

lemma tiny_checks:
  "writable tiny_schema mdb1 = Inr ()" "all_ready tiny_plan mdb1" "ms_migrations mdb1 = []"
  "\<not> evolved mdb1 ''d''" "status ''m'' mdb4 = Inr tiny_job"
  "\<not> has_object db3 ''ms_metadata_layouts''" "\<not> list_ex (has_object db3) migration_names"
  "mg_table tiny_plan = ''ms_data_64''"
  by code_simp+

lemma tiny_rebuild:
  "extras_of no_app ''ms_data_64'' (schema_objects tiny_schema) mdb2 = [retire_guard ''d'']"
  "replace_table no_app ''b'' ''ms_data_64'' [retire_guard ''d''] tiny_layout mdb2 = Inr mdb3"
  "incoming no_app ''ms_data_64'' mdb2 = []" "incoming no_app ''ms_data_64'' mdb3 = []"
  "verify_objects tiny_layout mdb3 = Inr ()" "foreign_key_check mdb3 = []"
  by code_simp+

definition done_job :: migration_row where
  "done_job = tiny_job\<lparr> j_running := False, j_migrated := 1, j_last_id := Some ''b1'' \<rparr>"

lemma tiny_batch: "batch tiny_plan 1 ([], mdb4) = Inr (done_job, [], mdb5)"
  by code_simp

lemma tiny_deferred: "deferred_ok mdb4" "deferred_ok mdb5"
  by code_simp+

lemma tiny_plan_simps [simp]:
  "mg_name tiny_plan = ''m''" "mg_source tiny_plan = tiny_schema" "mg_target tiny_plan = tiny_target"
  "mg_before tiny_plan = None" "mg_after tiny_plan = None"
  "sc_name tiny_schema = ''d''" "sc_name tiny_target = ''d''" "sc_version tiny_schema = 1" "sc_version tiny_target = 2"
  by (simp_all add: tiny_plan_def tiny_schema_def tiny_target_def)

lemma tiny_start: "initialize no_app ''b'' tiny_plan db3 = Inr (tiny_job, mdb4)"
proof -
  have "rebuild_table no_app ''b'' tiny_plan (schema_objects tiny_schema) tiny_layout mdb2 = Inr mdb3"
    by (simp add: rebuild_table_def tiny_rebuild tiny_checks(8) run_hook_def Let_def verify_objects_def [of "[]"])
       (simp add: no_app_def)
  then have "start_migration no_app ''b'' tiny_plan mdb1 = Inr (tiny_job, mdb4)"
    by (simp add: start_migration_def tiny_steps tiny_checks)
  then show ?thesis
    by (simp add: initialize_def tiny_before tiny_checks tiny_steps)
qed

lemma tiny_transactions:
  "initialize_tx no_app ''b'' tiny_plan db3 = (mdb4, Inr tiny_job)"
  "batch_tx tiny_plan 1 mdb4 = (mdb5, Inr done_job)"
  by (simp_all add: initialize_tx_def batch_tx_def transact_def tiny_start tiny_batch tiny_deferred)

lemma tiny_run:
  "run_migration no_app ''b'' (Some tiny_plan) (PInt 1) PNone (PBool False) db3 = Some (mdb5, Inr (done_job, False))"
proof -
  have "j_running tiny_job" "\<not> j_running done_job" by (simp_all add: tiny_job_def done_job_def)
  then have "run_batches tiny_plan 1 None 0 tiny_job mdb4 = Some (mdb5, Inr done_job)"
    by (subst run_batches_step, simp add: goes_on_def tiny_transactions)
       (subst run_batches_step, simp add: goes_on_def)
  then show ?thesis
    by (simp add: run_migration_def run_args_plain tiny_transactions)
qed

lemma tiny_cut_run:
  "run_migration no_app ''b'' (Some tiny_plan) (PInt 1) (PInt 0) (PBool False) db3 = Some (mdb4, Inr (tiny_job, False))"
proof -
  have "run_batches tiny_plan 1 (Some 0) 0 tiny_job mdb4 = Some (mdb4, Inr tiny_job)"
    by (subst run_batches_step) (simp add: goes_on_def)
  then show ?thesis
    by (simp add: run_migration_def run_args_def as_int_def as_bool_def tiny_transactions)
qed

lemma tiny_ok: "plan_ok tiny_plan" "registered db3 tiny_schema" "''m'' \<notin> j_name ` set (ms_migrations db3)"
proof -
  have "wf_declared tiny_target"
    using mk_schema_wf [OF tiny_target_made] by (simp add: wf_declared_def tiny_target_def)
  then show "plan_ok tiny_plan" using sample_wf by (simp add: plan_ok_def)
  show "registered db3 tiny_schema" "''m'' \<notin> j_name ` set (ms_migrations db3)"
    by (simp_all add: registered_def db3_value db2_value db1_value empty_db_def)
qed

end
