(* ===== verification/MigrationProperties.thy ===== *)
theory MigrationProperties
  imports SampleMigration
begin

text \<open>
  The properties of metadata migrations: a run returns, it migrates every row of the old version
  exactly once, a dry run predicts it, and an interrupted run can be resumed. The catalog is any
  reachable one, the transformation any function, and the application's SQL objects are arbitrary;
  the plans are those without coordination hooks.
\<close>

text \<open>
  C9. A migration without a limit that reports success has migrated every row of the source version:
  its new values are the normalised result of the transformation of its old ones, under the target
  version and the next metadata version; every other row keeps its versions and the values of its
  fields, and the job counts exactly the migrated rows.
\<close>

theorem migration_transforms_rows:
  assumes "reach xxh sid s" and "plan_ok plan" and "registered (s_db s) (mg_source plan)"
    and "mg_name plan \<notin> j_name ` set (ms_migrations (s_db s))" and "1 \<le> n" "n \<le> 1000"
    and "run_migration app backup (Some plan) (PInt n) PNone (PBool False) (s_db s) = Some (d', Inr (job, False))"
  shows "(\<forall>r \<in> set (source_rows plan (s_db s)). row_migrated plan d' r) \<and>
    (\<forall>r \<in> set (data (s_db s)) - set (source_rows plan (s_db s)). row_kept (s_db s) d' r) \<and>
    \<not> j_running job \<and> j_total job = int (length (source_rows plan (s_db s))) \<and> j_migrated job = j_total job"
  by (rule run_of_new [OF reach_migration [OF assms(1,3)] assms(2-7)])

theorem migration_transforms_rows_witness:
  "map d_id (source_rows tiny_plan db3) = [''b1''] \<and> row_migrated tiny_plan mdb5 (hd (source_rows tiny_plan db3)) \<and>
    j_total done_job = 1 \<and> j_migrated done_job = 1"
proof -
  have rows: "source_rows tiny_plan db3 = data db3" "map d_id (data db3) = [''b1'']"
    by (simp_all add: source_rows_def tiny_checks(8) db3_value)
  have "(\<forall>r \<in> set (source_rows tiny_plan db3). row_migrated tiny_plan mdb5 r) \<and>
      j_total done_job = int (length (source_rows tiny_plan db3)) \<and> j_migrated done_job = j_total done_job"
    using migration_transforms_rows [OF state3_reach, of tiny_plan 1 no_app "''b''" mdb5 done_job] tiny_ok tiny_run
    by (simp add: state3_def)
  then show ?thesis unfolding rows(1) using rows(2) by (cases "data db3") auto
qed



text \<open>
  C14. A dry run leaves the catalog as it is and answers what the real run answers, its failures
  included: a transformation that fails in the second batch is reported although the real run would
  have committed the first.
\<close>

theorem dry_run_predicts:
  assumes "reach xxh sid s" and "plan_ok plan" and "registered (s_db s) (mg_source plan)" and "1 \<le> n" "n \<le> 1000"
  shows "\<exists>d' r.
    run_migration app backup (Some plan) (PInt n) PNone (PBool True) (s_db s) = Some (s_db s, labelled True r) \<and>
    run_migration app backup (Some plan) (PInt n) PNone (PBool False) (s_db s) = Some (d', labelled False r)"
proof (cases "initialize app backup plan (s_db s)")
  case (Inl e)
  then show ?thesis
    by (intro exI [of _ "s_db s"] exI [of _ "Inl e"])
       (simp add: run_migration_def run_args_plain [OF assms(4,5)] dry_body_def initialize_tx_fails labelled_def)
next
  case (Inr x)
  obtain job d1 where i: "initialize app backup plan (s_db s) = Inr (job, d1)" using Inr by (cases x) auto
  note k = initialize_tx_ready [OF i assms(2) reach_migration [OF assms(1,3)]]
  obtain d' r where r: "run_batches plan n None 0 job d1 = Some (d', r)"
    "dry_batches plan n job ([], d1) = Some (ebind r (\<lambda>j. Inr (j, d')))" "ready_for plan d'"
    using loops_agree [OF k(1) assms(2) k(2)] by blast
  have "foreign_key_check d' = []"
    using r(3) foreign_keys_ok by (simp add: ready_for_def settled_def)
  then have "dry_body app backup plan n (s_db s) = Some r"
    using i r(2) by (cases r) (simp_all add: dry_body_def)
  then show ?thesis
    using r(1) by (intro exI [of _ d'] exI [of _ r])
      (simp add: run_migration_def run_args_plain [OF assms(4,5)] k(3) labelled_def)
qed

theorem dry_run_predicts_witness:
  "\<exists>d' r.
    run_migration no_app ''b'' (Some tiny_plan) (PInt 1) PNone (PBool True) db3 = Some (db3, labelled True r) \<and>
    run_migration no_app ''b'' (Some tiny_plan) (PInt 1) PNone (PBool False) db3 = Some (d', labelled False r)"
  using dry_run_predicts [OF state3_reach, of tiny_plan 1 no_app "''b''"] tiny_ok by (simp add: state3_def)

text \<open>
  C10. A run that stopped at its limit of batches can be resumed: the next run on the catalog it left
  ends exactly as one run without the interruption would have, in the catalog and in its answer.
\<close>

theorem interrupted_run_resumes:
  assumes "reach xxh sid s" and "plan_ok plan" and "registered (s_db s) (mg_source plan)" and "1 \<le> n" "n \<le> 1000" "0 \<le> k"
    and "run_migration app backup (Some plan) (PInt n) (PInt k) (PBool False) (s_db s) = Some (d, Inr (job, False))"
  shows "run_migration app backup (Some plan) (PInt n) PNone (PBool False) d =
    run_migration app backup (Some plan) (PInt n) PNone (PBool False) (s_db s)"
proof -
  have args: "run_args (Some plan) (PInt n) (PInt k) (PBool False) = Inr (plan, n, Some k, False)"
    using assms(4-6) by (simp add: run_args_def as_int_def as_bool_def)
  note c = reach_migration [OF assms(1,3)]
  obtain job0 d0 where i: "initialize app backup plan (s_db s) = Inr (job0, d0)"
    using assms(7) by (cases "initialize app backup plan (s_db s)")
      (auto simp: run_migration_def args initialize_tx_fails)
  note r = initialize_tx_ready [OF i assms(2) c]
  have rb: "run_batches plan n (Some k) 0 job0 d0 = Some (d, Inr job)"
    using assms(7) by (auto simp: run_migration_def args r(3) ebind_eq_Inr)
  have cut: "run_batches plan n None 0 job d = run_batches plan n None 0 job0 d0" "same_layout d0 d"
    "status (mg_name plan) d = Inr job" "same_job plan job = same_job plan job0" "ready_for plan d"
    using cut_loop [OF rb _ r(2,1) assms(2), of job 0] by simp_all
  note res = initialize_resumable [OF i assms(2) c(1) assms(3)]
  have "resumable plan d"
    by (rule resumable_frame [OF conjunct1 [OF res]]) (use cut(2) in \<open>simp_all add: same_layout_def\<close>)
  then have "initialize app backup plan d = Inr (job, d)"
    using initialize_resumes assms(2) status_has_row cut(3,4) res by blast
  moreover have "deferred_ok d" using cut(5) by (simp add: ready_for_def settled_def)
  ultimately have "initialize_tx app backup plan d = (d, Inr job)" by (simp add: initialize_tx_def transact_def)
  then show ?thesis
    using cut(1) r(3) by (simp add: run_migration_def run_args_plain [OF assms(4,5)])
qed

theorem interrupted_run_resumes_witness:
  "run_migration no_app ''b'' (Some tiny_plan) (PInt 1) PNone (PBool False) mdb4 = Some (mdb5, Inr (done_job, False))"
  using interrupted_run_resumes [OF state3_reach, of tiny_plan 1 0 no_app "''b''" mdb4 tiny_job] tiny_ok tiny_run tiny_cut_run
  by (simp add: state3_def)

end
