(* ===== verification/Access.thy ===== *)
theory Access
  imports Errors
begin

text \<open>
  The cooperative access leases (\<^verbatim>\<open>access.py\<close>): a gate is an SQLite file in rollback mode
  whose locks are the lease and whose one row is its owner. Opening a lease is a sequence of
  statements, and the participants' statements interleave in any order; a statement that meets
  another's lock fails at once (\<open>timeout=0\<close>).
\<close>

section \<open>A gate\<close>

text \<open>
  The journal mode, the rows of \<open>access_owner\<close> (\<open>None\<close> when there is no such table), and the
  locks that are held: a connection and whether its lock is exclusive.
\<close>

record gate =
  g_delete :: bool
  g_owners :: "string list option"
  g_locks :: "(nat \<times> bool) list"

definition empty_gate :: gate where
  "empty_gate = \<lparr> g_delete = True, g_owners = None, g_locks = [] \<rparr>"

text \<open>A read waits for no exclusive lock of another connection, an exclusive lock for no lock at all.\<close>

definition readable :: "nat \<Rightarrow> gate \<Rightarrow> bool" where
  "readable c g = list_all (\<lambda>(c', ex). c' = c \<or> \<not> ex) (g_locks g)"

definition lockable :: "nat \<Rightarrow> gate \<Rightarrow> bool" where
  "lockable c g = list_all (\<lambda>(c', ex). c' = c) (g_locks g)"

definition lock :: "nat \<Rightarrow> bool \<Rightarrow> gate \<Rightarrow> gate" where
  "lock c ex g = g\<lparr> g_locks := (c, ex) # filter (\<lambda>(c', _). c' \<noteq> c) (g_locks g) \<rparr>"

definition unlock :: "nat \<Rightarrow> gate \<Rightarrow> gate" where
  "unlock c g = g\<lparr> g_locks := filter (\<lambda>(c', _). c' \<noteq> c) (g_locks g) \<rparr>"

section \<open>Opening a lease\<close>

text \<open>The points of \<open>Lease.__init__\<close>, each before its next statement, and its two ends.\<close>

datatype stage = Connected | Probing | Claiming | Creating | Entering | Begun | Held | Refused error

definition busy :: error where
  "busy = Err BusyError ''Exclusive maintenance conflicts with another open participant''"

definition foreign_gate :: error where
  "foreign_gate = Err ValidationError ''Storage root/access gate belongs to another catalog path''"

text \<open>\<open>except BaseException\<close>: the connection is closed, which releases its lock.\<close>

definition refuse :: "nat \<Rightarrow> error \<Rightarrow> gate \<Rightarrow> gate \<times> stage" where
  "refuse c e g = (unlock c g, Refused e)"

text \<open>The rows after \<open>CREATE TABLE IF NOT EXISTS\<close> and the conditional \<open>INSERT\<close>.\<close>

definition claim :: "string \<Rightarrow> gate \<Rightarrow> gate" where
  "claim owner g =
     g\<lparr> g_owners := Some (case g_owners g of Some (o1 # os) \<Rightarrow> o1 # os | _ \<Rightarrow> [owner]) \<rparr>"

text \<open>The next statement of connection \<open>c\<close>.\<close>

fun lease_next :: "nat \<Rightarrow> string \<Rightarrow> bool \<Rightarrow> gate \<times> stage \<Rightarrow> gate \<times> stage" where
  "lease_next c owner ex (g, Connected) =
     (if \<not> readable c g then refuse c busy g
      else if \<not> g_delete g
      then refuse c (Err ValidationError ''Access gate must use rollback DELETE journal mode'') g
      else (g, Probing))"
| "lease_next c owner ex (g, Probing) =
     (if \<not> readable c g then refuse c busy g
      else (g, if g_owners g = None then Claiming else Entering))"
| "lease_next c owner ex (g, Claiming) =
     (if \<not> lockable c g then refuse c busy g else (lock c True g, Creating))"
| "lease_next c owner ex (g, Creating) = (unlock c (claim owner g), Entering)"
| "lease_next c owner ex (g, Entering) =
     (if \<not> ex then (g, Begun)
      else if \<not> lockable c g then refuse c busy g else (lock c True g, Begun))"
| "lease_next c owner ex (g, Begun) =
     (if \<not> readable c g then refuse c busy g
      else if g_owners g \<noteq> Some [owner] then refuse c foreign_gate g
      else (lock c ex g, Held))"
| "lease_next c owner ex (g, Held) = (g, Held)"
| "lease_next c owner ex (g, Refused e) = (g, Refused e)"

text \<open>\<open>Lease(path, owner=owner, exclusive=ex)\<close> without interruptions: at most six statements.\<close>

definition lease :: "nat \<Rightarrow> string \<Rightarrow> bool \<Rightarrow> gate \<Rightarrow> gate \<times> stage" where
  "lease c owner ex g = (lease_next c owner ex ^^ 6) (g, Connected)"

section \<open>Participants\<close>

text \<open>
  The participants of one gate: what each wants and where it is. A participant that closes, or whose
  process ends, gives its lock back; an unfinished claim is rolled back.
\<close>

record participant =
  pt_owner :: string
  pt_exclusive :: bool
  pt_stage :: stage

record gate_state =
  gs_gate :: gate
  gs_parts :: "nat \<Rightarrow> participant option"

inductive gate_step :: "gate_state \<Rightarrow> gate_state \<Rightarrow> bool" where
  Join: "gs_parts s c = None \<Longrightarrow>
     gate_step s (s\<lparr> gs_parts := (gs_parts s)(c \<mapsto> \<lparr> pt_owner = owner, pt_exclusive = ex, pt_stage = Connected \<rparr>) \<rparr>)"
| Statement: "gs_parts s c = Some p \<Longrightarrow> lease_next c (pt_owner p) (pt_exclusive p) (gs_gate s, pt_stage p) = (g, st) \<Longrightarrow>
     gate_step s \<lparr> gs_gate = g, gs_parts = (gs_parts s)(c \<mapsto> p\<lparr> pt_stage := st \<rparr>) \<rparr>"
| Leave: "gs_parts s c = Some p \<Longrightarrow>
     gate_step s \<lparr> gs_gate = unlock c (gs_gate s), gs_parts = (gs_parts s)(c := None) \<rparr>"

definition gate_steps :: "gate_state \<Rightarrow> gate_state \<Rightarrow> bool" where
  "gate_steps = gate_step\<^sup>*\<^sup>*"

text \<open>A gate file that does not exist yet.\<close>

definition new_gate :: gate_state where
  "new_gate = \<lparr> gs_gate = empty_gate, gs_parts = Map.empty \<rparr>"

definition holds_lease :: "gate_state \<Rightarrow> nat \<Rightarrow> string \<Rightarrow> bool \<Rightarrow> bool" where
  "holds_lease s c owner ex = (gs_parts s c = Some \<lparr> pt_owner = owner, pt_exclusive = ex, pt_stage = Held \<rparr>)"

section \<open>The invariant\<close>

text \<open>The locks that a participant holds at a stage.\<close>

fun stage_lock :: "bool \<Rightarrow> stage \<Rightarrow> bool option" where
  "stage_lock ex Creating = Some True"
| "stage_lock ex Begun = (if ex then Some True else None)"
| "stage_lock ex Held = Some ex"
| "stage_lock ex st = None"

definition lock_of :: "gate_state \<Rightarrow> nat \<Rightarrow> bool option" where
  "lock_of s c = (case gs_parts s c of None \<Rightarrow> None | Some p \<Rightarrow> stage_lock (pt_exclusive p) (pt_stage p))"

definition past_claim :: "stage \<Rightarrow> bool" where
  "past_claim st = (st \<in> {Entering, Begun, Held})"

definition gate_ok :: "gate_state \<Rightarrow> bool" where
  "gate_ok s =
     (let g = gs_gate s in
      (\<forall>c ex. (c, ex) \<in> set (g_locks g) \<longleftrightarrow> lock_of s c = Some ex) \<and>
      (\<forall>c c'. lock_of s c = Some True \<longrightarrow> lock_of s c' \<noteq> None \<longrightarrow> c' = c) \<and>
      (\<forall>os. g_owners g = Some os \<longrightarrow> length os = 1) \<and>
      (\<forall>c p. gs_parts s c = Some p \<longrightarrow> past_claim (pt_stage p) \<longrightarrow> g_owners g \<noteq> None) \<and>
      (\<forall>c p. gs_parts s c = Some p \<longrightarrow> pt_stage p = Held \<longrightarrow> g_owners g = Some [pt_owner p]))"

lemma gate_okI:
  assumes "\<And>c ex. (c, ex) \<in> set (g_locks (gs_gate s)) \<longleftrightarrow> lock_of s c = Some ex"
    "\<And>c c'. lock_of s c = Some True \<Longrightarrow> lock_of s c' \<noteq> None \<Longrightarrow> c' = c"
    "\<And>os. g_owners (gs_gate s) = Some os \<Longrightarrow> length os = 1"
    "\<And>c p. gs_parts s c = Some p \<Longrightarrow> past_claim (pt_stage p) \<Longrightarrow> g_owners (gs_gate s) \<noteq> None"
    "\<And>c p. gs_parts s c = Some p \<Longrightarrow> pt_stage p = Held \<Longrightarrow> g_owners (gs_gate s) = Some [pt_owner p]"
  shows "gate_ok s"
  using assms unfolding gate_ok_def Let_def by blast

lemma new_gate_ok: "gate_ok new_gate"
  by (simp add: gate_ok_def new_gate_def empty_gate_def lock_of_def)

lemma gate_locks: "gate_ok s \<Longrightarrow> (c, ex) \<in> set (g_locks (gs_gate s)) \<longleftrightarrow> lock_of s c = Some ex"
  unfolding gate_ok_def Let_def by blast

lemma readable_iff: "readable c g = (\<forall>c'. (c', True) \<in> set (g_locks g) \<longrightarrow> c' = c)"
  by (auto simp: readable_def list_all_iff)

lemma lockable_iff: "lockable c g = (\<forall>c' ex. (c', ex) \<in> set (g_locks g) \<longrightarrow> c' = c)"
  by (auto simp: lockable_def list_all_iff)

lemma readable_locks: "gate_ok s \<Longrightarrow> readable c (gs_gate s) = (\<forall>c'. lock_of s c' = Some True \<longrightarrow> c' = c)"
  by (simp add: readable_iff gate_locks)

lemma lockable_locks: "gate_ok s \<Longrightarrow> lockable c (gs_gate s) = (\<forall>c'. lock_of s c' \<noteq> None \<longrightarrow> c' = c)"
  by (auto simp: lockable_iff gate_locks)

text \<open>One statement, by what it does to the lock of its own connection and to the owner.\<close>

lemma lease_next_locks:
  assumes "lease_next c owner ex (g, st) = (g', st')"
    and "\<And>c' e. c' = c \<Longrightarrow> (c', e) \<in> set (g_locks g) \<longleftrightarrow> stage_lock ex st = Some e"
  shows "(x, e) \<in> set (g_locks g') \<longleftrightarrow> (if x = c then stage_lock ex st' = Some e else (x, e) \<in> set (g_locks g))"
  using assms by (cases st) (auto simp: refuse_def lock_def unlock_def claim_def split: if_splits)

text \<open>
  What one statement needs to take a lock, and what it leaves of the owner: it takes an exclusive lock
  only from a lockable gate, a shared one only from a readable gate, and names an owner only where
  there is none.
\<close>

lemma lease_next_takes:
  assumes "lease_next c owner ex (g, st) = (g', st')" "stage_lock ex st' = Some e" "stage_lock ex st \<noteq> Some e"
  shows "(e \<longrightarrow> lockable c g) \<and> readable c g"
proof -
  have "lockable c g \<Longrightarrow> readable c g" by (auto simp: lockable_iff readable_iff)
  with assms show ?thesis by (cases st) (auto simp: refuse_def split: if_splits)
qed

lemma lease_next_owners:
  assumes "lease_next c owner ex (g, st) = (g', st')"
  shows "g_owners g' = g_owners g \<or> (g_owners g = None \<or> g_owners g = Some []) \<and> g_owners g' = Some [owner]"
  using assms by (cases st) (auto simp: refuse_def lock_def unlock_def claim_def split: if_splits option.splits list.splits)

lemma lease_next_past:
  assumes "lease_next c owner ex (g, st) = (g', st')" "past_claim st'" "past_claim st \<longrightarrow> g_owners g \<noteq> None"
  shows "g_owners g' \<noteq> None"
  using assms by (cases st) (auto simp: refuse_def lock_def unlock_def claim_def past_claim_def split: if_splits)

lemma lease_next_held:
  assumes "lease_next c owner ex (g, st) = (g', Held)" "st \<noteq> Held"
  shows "g_owners g' = Some [owner]"
  using assms by (cases st) (auto simp: refuse_def lock_def split: if_splits)

lemma statement_ok:
  assumes ok: "gate_ok s" and p: "gs_parts s c = Some p"
    and n: "lease_next c (pt_owner p) (pt_exclusive p) (gs_gate s, pt_stage p) = (g, st)"
  shows "gate_ok \<lparr> gs_gate = g, gs_parts = (gs_parts s)(c \<mapsto> p\<lparr> pt_stage := st \<rparr>) \<rparr>" (is "gate_ok ?s")
proof (rule gate_okI)
  have own: "(c, e) \<in> set (g_locks (gs_gate s)) \<longleftrightarrow> stage_lock (pt_exclusive p) (pt_stage p) = Some e" for e
    using gate_locks [OF ok] p by (simp add: lock_of_def)
  have lk: "lock_of ?s x = (if x = c then stage_lock (pt_exclusive p) st else lock_of s x)" for x
    by (simp add: lock_of_def)
  show l: "(x, e) \<in> set (g_locks (gs_gate ?s)) \<longleftrightarrow> lock_of ?s x = Some e" for x e
    using lease_next_locks [OF n, of x e] own gate_locks [OF ok, of x e] by (simp add: lk)
  have one: "lock_of s a = Some True \<Longrightarrow> lock_of s b \<noteq> None \<Longrightarrow> b = a" for a b
    using ok unfolding gate_ok_def Let_def by blast
  have cl: "lock_of s c = stage_lock (pt_exclusive p) (pt_stage p)" using p by (simp add: lock_of_def)
  show "b = a" if ab: "lock_of ?s a = Some True" "lock_of ?s b \<noteq> None" for a b
  proof (cases "a = c")
    case True
    show ?thesis
    proof (cases "lock_of s c = Some True")
      case True
      with one ab(2) \<open>a = c\<close> show ?thesis by (auto simp: lk split: if_splits)
    next
      case False
      have "stage_lock (pt_exclusive p) st = Some True" using ab(1) True by (simp add: lk)
      then have "lockable c (gs_gate s)" using lease_next_takes [OF n] False cl by simp
      then show ?thesis using lockable_locks [OF ok] ab(2) True by (auto simp: lk split: if_splits)
    qed
  next
    case False
    then have a: "lock_of s a = Some True" using ab(1) by (simp add: lk)
    show ?thesis
    proof (cases "b = c")
      case True
      then obtain e where e: "stage_lock (pt_exclusive p) st = Some e" using ab(2) by (auto simp: lk)
      have "lock_of s c \<noteq> Some e" using one [OF a, of c] False by auto
      then have "readable c (gs_gate s)" using lease_next_takes [OF n e] cl by simp
      then show ?thesis using readable_locks [OF ok, of c] a True by auto
    next
      case False
      then show ?thesis using one [OF a, of b] ab(2) by (simp add: lk)
    qed
  qed
  have len: "g_owners (gs_gate s) = Some os \<Longrightarrow> length os = 1" for os
    using ok unfolding gate_ok_def Let_def by blast
  then have ow: "g_owners g = g_owners (gs_gate s) \<or> g_owners (gs_gate s) = None \<and> g_owners g = Some [pt_owner p]"
    using lease_next_owners [OF n] by auto
  show "length os = 1" if "g_owners (gs_gate ?s) = Some os" for os
    using ow that len by auto
  have past: "gs_parts s x = Some q \<Longrightarrow> past_claim (pt_stage q) \<Longrightarrow> g_owners (gs_gate s) \<noteq> None"
    and held: "gs_parts s x = Some q \<Longrightarrow> pt_stage q = Held \<Longrightarrow> g_owners (gs_gate s) = Some [pt_owner q]" for x q
    using ok unfolding gate_ok_def Let_def by blast+
  show "g_owners (gs_gate ?s) \<noteq> None" if q: "gs_parts ?s x = Some q" "past_claim (pt_stage q)" for x q
  proof (cases "x = c")
    case True
    then show ?thesis using lease_next_past [OF n] q past [OF p] by auto
  next
    case False
    then show ?thesis using past [of x q] q ow by auto
  qed
  show "g_owners (gs_gate ?s) = Some [pt_owner q]" if q: "gs_parts ?s x = Some q" "pt_stage q = Held" for x q
  proof (cases "x = c")
    case True
    then have q': "q = p\<lparr> pt_stage := st \<rparr>" "st = Held" using q by auto
    show ?thesis
    proof (cases "pt_stage p = Held")
      case True
      then show ?thesis using held [OF p] n q' by auto
    next
      case False
      then show ?thesis using lease_next_held [of c "pt_owner p" "pt_exclusive p" "gs_gate s" "pt_stage p" g] n q' by simp
    qed
  next
    case False
    then show ?thesis using held [of x q] q ow by auto
  qed
qed

lemma gate_step_ok: "gate_step s s' \<Longrightarrow> gate_ok s \<Longrightarrow> gate_ok s'"
proof (induction rule: gate_step.induct)
  case (Join s c owner ex)
  have "lock_of (s\<lparr> gs_parts := (gs_parts s)(c \<mapsto> \<lparr> pt_owner = owner, pt_exclusive = ex, pt_stage = Connected \<rparr>) \<rparr>) x = lock_of s x" for x
    using Join.hyps by (simp add: lock_of_def)
  with Join.prems show ?case
    unfolding gate_ok_def Let_def by (simp add: past_claim_def)
next
  case (Statement s c p g st)
  then show ?case using statement_ok by blast
next
  case (Leave s c p)
  have l: "lock_of \<lparr> gs_gate = unlock c (gs_gate s), gs_parts = (gs_parts s)(c := None) \<rparr> x = (if x = c then None else lock_of s x)" for x
    by (simp add: lock_of_def)
  have u: "(x, e) \<in> set (g_locks (unlock c g)) \<longleftrightarrow> x \<noteq> c \<and> (x, e) \<in> set (g_locks g)" "g_owners (unlock c g) = g_owners g" for x e g
    by (auto simp: unlock_def)
  show ?case
    using Leave.prems unfolding gate_ok_def Let_def gate_state.simps u l by simp
qed

lemma gate_steps_ok: "gate_steps s s' \<Longrightarrow> gate_ok s \<Longrightarrow> gate_ok s'"
  unfolding gate_steps_def by (induction rule: rtranclp_induct) (auto intro: gate_step_ok)

section \<open>A lease without interruptions\<close>

lemma locks_after_refuse: "x \<noteq> c \<Longrightarrow> (x, e) \<in> set (g_locks (fst (refuse c er g))) \<longleftrightarrow> (x, e) \<in> set (g_locks g)"
  by (auto simp: refuse_def unlock_def)

lemma lease_steps: "lease c owner ex g = lease_next c owner ex (lease_next c owner ex (lease_next c owner ex
    (lease_next c owner ex (lease_next c owner ex (lease_next c owner ex (g, Connected))))))"
  by (simp add: lease_def eval_nat_numeral)

text \<open>The answer of an uninterrupted lease, by the gate that it finds.\<close>

definition lease_answer :: "nat \<Rightarrow> string \<Rightarrow> bool \<Rightarrow> gate \<Rightarrow> stage" where
  "lease_answer c owner ex g =
     (if \<not> readable c g then Refused busy
      else if \<not> g_delete g then Refused (Err ValidationError ''Access gate must use rollback DELETE journal mode'')
      else if (ex \<or> g_owners g = None) \<and> \<not> lockable c g then Refused busy
      else if g_owners g = None \<or> g_owners g = Some [owner] then Held
      else Refused foreign_gate)"

lemma lock_simps [simp]:
  "g_delete (lock c ex g) = g_delete g" "g_owners (lock c ex g) = g_owners g"
  "g_delete (unlock c g) = g_delete g" "g_owners (unlock c g) = g_owners g"
  "g_delete (claim owner g) = g_delete g" "g_locks (claim owner g) = g_locks g"
  "readable c (lock c ex g) = readable c g" "lockable c (lock c ex g) = lockable c g"
  "readable c (unlock c g) = readable c g" "lockable c (unlock c g) = lockable c g"
  "readable c (claim owner g) = readable c g" "lockable c (claim owner g) = lockable c g"
  by (auto simp: lock_def unlock_def claim_def readable_def lockable_def list_all_iff)

lemma claim_owners: "g_owners g = None \<Longrightarrow> g_owners (claim owner g) = Some [owner]"
  by (simp add: claim_def)

lemma lease_answers: "snd (lease c owner ex g) = lease_answer c owner ex g"
proof -
  have "lockable c g \<Longrightarrow> readable c g" by (auto simp: lockable_iff readable_iff)
  then show ?thesis
    unfolding lease_steps by (auto simp: lease_answer_def refuse_def claim_owners)
qed

text \<open>What it leaves at the gate: its own lock when it is held and none otherwise, and the others' locks.\<close>

lemma lease_leaves:
  assumes "lease c owner ex g = (g', st)" and "\<And>e. (c, e) \<notin> set (g_locks g)"
  shows "(x, e) \<in> set (g_locks g') \<longleftrightarrow> (if x = c then st = Held \<and> e = ex else (x, e) \<in> set (g_locks g))"
    and "st = Held \<Longrightarrow> g_owners g' = Some [owner]"
    and "(st = Held \<and> stage_lock ex st = Some ex) \<or> (\<exists>er. st = Refused er)"
proof -
  let ?n = "\<lambda>p. lease_next c owner ex p"
  have inv: "((x, e) \<in> set (g_locks (fst p)) \<longleftrightarrow> (if x = c then stage_lock ex (snd p) = Some e else (x, e) \<in> set (g_locks g)))"
    if "\<And>x e. (x, e) \<in> set (g_locks (fst q)) \<longleftrightarrow> (if x = c then stage_lock ex (snd q) = Some e else (x, e) \<in> set (g_locks g))"
      "p = ?n q" for p q x e
  proof (cases q)
    case (Pair h t)
    then have "lease_next c owner ex (h, t) = (fst p, snd p)" using that(2) by simp
    from lease_next_locks [OF this, of x e] that(1) [of _ e] that(1) Pair show ?thesis by (auto split: if_splits)
  qed
  have base: "(x, e) \<in> set (g_locks (fst (g, Connected))) \<longleftrightarrow>
      (if x = c then stage_lock ex (snd (g, Connected)) = Some e else (x, e) \<in> set (g_locks g))" for x e
    using assms(2) by auto
  define p6 where "p6 = (g', st)"
  have "((x, e) \<in> set (g_locks (fst p6)) \<longleftrightarrow> (if x = c then stage_lock ex (snd p6) = Some e else (x, e) \<in> set (g_locks g)))" for x e
    unfolding p6_def assms(1) [symmetric] lease_steps
    by (intro inv [OF _ refl] base)
  then have l: "(x, e) \<in> set (g_locks g') \<longleftrightarrow> (if x = c then stage_lock ex st = Some e else (x, e) \<in> set (g_locks g))"
    for x e by (simp add: p6_def)
  have st: "st = lease_answer c owner ex g" using lease_answers [of c owner ex g] assms(1) by simp
  then show d: "(st = Held \<and> stage_lock ex st = Some ex) \<or> (\<exists>er. st = Refused er)" by (auto simp: lease_answer_def)
  with l [of x e] show "(x, e) \<in> set (g_locks g') \<longleftrightarrow> (if x = c then st = Held \<and> e = ex else (x, e) \<in> set (g_locks g))"
    by auto
  have keep: "snd (?n q) = Held \<longrightarrow> g_owners (fst (?n q)) = Some [owner]"
    if "snd q = Held \<longrightarrow> g_owners (fst q) = Some [owner]" for q
  proof (cases q)
    case (Pair h t)
    with that lease_next_held [of c owner ex h t] show ?thesis
      by (cases "?n (h, t)"; cases "t = Held") auto
  qed
  have "snd p6 = Held \<longrightarrow> g_owners (fst p6) = Some [owner]"
    unfolding p6_def assms(1) [symmetric] lease_steps by (intro keep) simp
  then show "st = Held \<Longrightarrow> g_owners g' = Some [owner]" by (simp add: p6_def)
qed

lemma lease_next_delete: "g_delete (fst (lease_next c owner ex p)) = g_delete (fst p)"
proof (cases p)
  case (Pair g st)
  then show ?thesis by (cases st) (simp_all add: refuse_def)
qed

lemma lease_delete: "g_delete (fst (lease c owner ex g)) = g_delete g"
  unfolding lease_steps by (simp only: lease_next_delete fst_conv)

end
