(* ===== verification/Opening.thy ===== *)
theory Opening
  imports Access Catalog Schema
begin

text \<open>
  Opening, binding and closing a \<open>Catalog\<close> (\<^verbatim>\<open>catalog.py\<close>): the arguments, the access
  leases, the settings of the connection, and the release of everything on every path. The gates of
  a host are named by their files; \<open>canon\<close> is \<open>canonical\<close> of \<^verbatim>\<open>access.py\<close>. What
  the database backend does during the opening is a parameter.
\<close>

section \<open>The arguments\<close>

text \<open>The releases of SQLite with the WAL-reset fix.\<close>

definition wal_fixed :: "int \<times> int \<times> int \<Rightarrow> bool" where
  "wal_fixed v =
     (v \<ge> (3, 51, 3) \<or> ((3, 50, 7) \<le> v \<and> v < (3, 51, 0)) \<or> ((3, 44, 6) \<le> v \<and> v < (3, 45, 0)))"

record open_args =
  oa_path :: string
  oa_adapter :: string
  oa_maintenance :: pyval
  oa_journal :: pyval

definition in_memory :: "open_args \<Rightarrow> bool" where
  "in_memory a = (oa_path a = '':memory:'')"

text \<open>The checks before anything is touched: whether the lease is exclusive, and the journal mode.\<close>

definition open_request :: "int \<times> int \<times> int \<Rightarrow> open_args \<Rightarrow> (bool \<times> string) res" where
  "open_request v a =
     ebind (require (oa_adapter a \<in> {''sqlite'', ''melddb''}) ValidationError
              ''adapter must be melddb or sqlite'') (\<lambda>_.
     ebind (require (oa_journal a \<in> {PStr ''wal'', PStr ''delete''}) ValidationError
              ''journal_mode must be wal or delete'') (\<lambda>_.
     ebind (require (\<not> (oa_adapter a = ''sqlite'' \<and> \<not> in_memory a \<and> oa_journal a = PStr ''wal'' \<and> \<not> wal_fixed v))
              ValidationError ''WAL requires SQLite with the WAL-reset fix'') (\<lambda>_.
     ebind (expect (as_bool (oa_maintenance a)) ValidationError ''maintenance must be boolean'') (\<lambda>m.
     ebind (require (\<not> (m \<and> in_memory a)) ValidationError ''Maintenance requires a file-backed catalog'') (\<lambda>_.
     Inr (m, if oa_journal a = PStr ''wal'' then ''wal'' else ''delete''))))))"

section \<open>A host\<close>

type_synonym gates = "string \<Rightarrow> gate"

definition take_lease :: "nat \<Rightarrow> string \<Rightarrow> string \<Rightarrow> bool \<Rightarrow> gates \<Rightarrow> gates \<times> unit res" where
  "take_lease c fl owner ex gs =
     (case lease c owner ex (gs fl) of
        (g, Refused e) \<Rightarrow> (gs(fl := g), Inl e)
      | (g, _) \<Rightarrow> (gs(fl := g), Inr ()))"

definition drop_lease :: "nat \<Rightarrow> string \<Rightarrow> gates \<Rightarrow> gates" where
  "drop_lease c fl gs = gs(fl := unlock c (gs fl))"

text \<open>A catalog object; a lease is its gate file and its connection.\<close>

record handle =
  h_path :: "string option"
  h_exclusive :: bool
  h_access :: "(string \<times> nat) option"
  h_leases :: "(string \<times> string \<times> nat) list"
  h_active :: bool
  h_failed :: bool
  h_readers :: nat
  h_closed :: bool
  h_broken :: bool
  h_outcome :: "error option"

definition new_handle :: "string option \<Rightarrow> bool \<Rightarrow> (string \<times> nat) option \<Rightarrow> handle" where
  "new_handle p ex acc =
     \<lparr> h_path = p, h_exclusive = ex, h_access = acc, h_leases = [], h_active = False, h_failed = False,
       h_readers = 0, h_closed = False, h_broken = False, h_outcome = None \<rparr>"

section \<open>Opening\<close>

text \<open>
  The backend: a failure of the control connection, the mode that \<open>PRAGMA journal_mode\<close> reports
  and the one it reports after a change, a failure of \<open>_open\<close>, and the settings of the live
  connection: for the MeldDB adapter its journal mode, \<open>synchronous\<close> and \<open>foreign_keys\<close>,
  for the \<open>sqlite\<close> adapter the answer of the first statement.
\<close>

record backend =
  bk_control :: "failure option"
  bk_mode :: string
  bk_changed :: "string \<Rightarrow> string"
  bk_open :: "failure option"
  bk_runtime :: "failure + string \<times> int \<times> bool"
  bk_live :: "failure + string"

definition set_journal :: "backend \<Rightarrow> string \<Rightarrow> failure + unit" where
  "set_journal bk jm =
     (case bk_control bk of
        Some f \<Rightarrow> Inl f
      | None \<Rightarrow>
          ensure ((if bk_mode bk \<noteq> jm then bk_changed bk jm else bk_mode bk) = jm)
            (Raised (Err ValidationError ''Could not enable journal mode'')))"

definition connect :: "backend \<Rightarrow> string \<Rightarrow> string \<Rightarrow> bool \<Rightarrow> failure + unit" where
  "connect bk adapter jm memory =
     (let expected = if memory then ''memory'' else jm in
      ebind (if \<not> memory \<and> adapter = ''sqlite'' then set_journal bk jm else Inr ()) (\<lambda>_.
      case bk_open bk of
        Some f \<Rightarrow> Inl f
      | None \<Rightarrow>
          if adapter = ''melddb''
          then ebind (bk_runtime bk) (\<lambda>(mode, sync, fk).
               ensure (mode = expected \<and> sync = 2 \<and> fk)
                 (Raised (Err ValidationError ''Live catalog SQLite settings do not match policy'')))
          else ebind (bk_live bk) (\<lambda>mode.
               ensure (mode = expected)
                 (Raised (Err ValidationError ''Live catalog journal mode does not match requested policy'')))))"

definition access_file :: "string \<Rightarrow> string" where
  "access_file p = p @ ''.meldstore-access''"

text \<open>\<open>Catalog.__init__\<close>\<close>

definition open_catalog ::
  "int \<times> int \<times> int \<Rightarrow> (string \<Rightarrow> string) \<Rightarrow> backend \<Rightarrow> nat \<Rightarrow> open_args \<Rightarrow> gates \<Rightarrow> gates \<times> (failure + handle)" where
  "open_catalog v canon bk c a gs =
     (case open_request v a of
        Inl e \<Rightarrow> (gs, Inl (Raised e))
      | Inr (ex, jm) \<Rightarrow>
          if in_memory a
          then (case connect bk (oa_adapter a) jm True of
                  Inl f \<Rightarrow> (gs, Inl (translate f))
                | Inr _ \<Rightarrow> (gs, Inr (new_handle None ex None)))
          else
            let p = canon (oa_path a); fl = access_file p in
            (case take_lease c fl p ex gs of
               (gs1, Inl e) \<Rightarrow> (gs1, Inl (Raised e))
             | (gs1, Inr _) \<Rightarrow>
                 (case connect bk (oa_adapter a) jm False of
                    Inl f \<Rightarrow> (drop_lease c fl gs1, Inl (translate f))
                  | Inr _ \<Rightarrow> (gs1, Inr (new_handle (Some p) ex (Some (fl, c)))))))"

section \<open>Guards\<close>

text \<open>\<open>_check\<close> and \<open>require_idle\<close>: a call during a transaction poisons the transaction.\<close>

definition check_handle :: "bool \<Rightarrow> handle \<Rightarrow> unit res" where
  "check_handle here h =
     ebind (require here TransactionError ''Catalog is confined to its creating thread'') (\<lambda>_.
     ebind (require (\<not> h_closed h) TransactionError ''Catalog is closed'') (\<lambda>_.
     require (\<not> h_broken h) TransactionError ''Catalog needs closing after a failed commit or rollback''))"

definition require_idle :: "bool \<Rightarrow> handle \<Rightarrow> handle \<times> unit res" where
  "require_idle here h =
     (case check_handle here h of
        Inl e \<Rightarrow> (h, Inl e)
      | Inr _ \<Rightarrow>
          if h_active h
          then (h\<lparr> h_failed := True \<rparr>, raise TransactionError ''Storage I/O must occur outside a catalog transaction'')
          else (h, Inr ()))"

text \<open>\<open>bind_storage(root)\<close> with a new connection \<open>c\<close>\<close>

definition root_file :: "string \<Rightarrow> string" where
  "root_file dir = dir @ ''/meldstore-access.sqlite''"

definition bind_storage ::
  "(string \<Rightarrow> string) \<Rightarrow> bool \<Rightarrow> nat \<Rightarrow> string \<Rightarrow> gates \<times> handle \<Rightarrow> (gates \<times> handle) \<times> unit res" where
  "bind_storage canon here c dir s =
     (case s of (gs, h) \<Rightarrow>
       (case require_idle here h of
          (h1, Inl e) \<Rightarrow> ((gs, h1), Inl e)
        | (h1, Inr _) \<Rightarrow>
            (case h_path h1 of
               None \<Rightarrow> ((gs, h1), raise ValidationError ''Blob storage requires a file-backed catalog'')
             | Some p \<Rightarrow>
                 if canon dir \<in> fst ` set (h_leases h1) then ((gs, h1), Inr ())
                 else (case take_lease c (root_file dir) p (h_exclusive h1) gs of
                         (gs1, Inl e) \<Rightarrow> ((gs1, h1), Inl e)
                       | (gs1, Inr _) \<Rightarrow>
                           ((gs1, h1\<lparr> h_leases := h_leases h1 @ [(canon dir, root_file dir, c)] \<rparr>), Inr ())))))"

text \<open>\<open>require_maintenance(root)\<close>\<close>

definition require_maintenance :: "(string \<Rightarrow> string) \<Rightarrow> bool \<Rightarrow> string \<Rightarrow> handle \<Rightarrow> handle \<times> unit res" where
  "require_maintenance canon here dir h =
     (case require_idle here h of
        (h1, Inl e) \<Rightarrow> (h1, Inl e)
      | (h1, Inr _) \<Rightarrow>
          (h1, require (h_exclusive h1 \<and> canon dir \<in> fst ` set (h_leases h1) \<and> h_readers h1 = 0) TransactionError
                 ''Open a separate Catalog(..., maintenance=True) after closing all participants''))"

section \<open>Closing\<close>

text \<open>How \<open>_close\<close> ends, each with the failures of the resources.\<close>

datatype close_result =
    RefusesClose error
  | Closes
  | AttachesTo error "failure list"
  | RaisesOutcome error "failure list"
  | RaisesCleanup "failure list"

text \<open>Each resource may fail before or after it releases its lock.\<close>

fun release_all :: "((string \<times> nat) \<times> (fault \<times> failure)) list \<Rightarrow> gates \<Rightarrow> gates \<times> failure list" where
  "release_all [] gs = (gs, [])"
| "release_all (((fl, c), (f, err)) # rs) gs =
     (case driver_call f (drop_lease c fl) gs of
        (gs1, bad) \<Rightarrow>
          (case release_all rs gs1 of (gs2, errs) \<Rightarrow> (gs2, if bad then err # errs else errs)))"

definition lease_files :: "handle \<Rightarrow> (string \<times> nat) list" where
  "lease_files h = map snd (h_leases h) @ (case h_access h of None \<Rightarrow> [] | Some l \<Rightarrow> [l])"

text \<open>
  \<open>_close(primary)\<close>; \<open>own\<close> is the failure of the connection's own close, \<open>fs\<close> those of the
  leases, and \<open>primary\<close> the exception that leaves a \<open>with\<close> block.
\<close>

definition close_catalog ::
  "bool \<Rightarrow> error option \<Rightarrow> failure list \<Rightarrow> (fault \<times> failure) list \<Rightarrow> gates \<times> handle \<Rightarrow> (gates \<times> handle) \<times> close_result" where
  "close_catalog here primary own fs s =
     (case s of (gs, h) \<Rightarrow>
       if \<not> here \<or> h_closed h
       then ((gs, h), RefusesClose (Err TransactionError ''Catalog is closed or used from another thread''))
       else if h_active h \<or> h_readers h \<noteq> 0
       then ((gs, if h_active h then h\<lparr> h_failed := True \<rparr> else h),
             RefusesClose (Err TransactionError ''Cannot close an active catalog''))
       else
         (case release_all (zip (lease_files h) fs) gs of
            (gs1, errs) \<Rightarrow>
              ((gs1, h\<lparr> h_closed := True \<rparr>),
               if own @ errs = [] then Closes
               else case primary of
                 Some e \<Rightarrow> AttachesTo e (own @ errs)
               | None \<Rightarrow>
                   (case h_outcome h of
                      Some e \<Rightarrow> RaisesOutcome e (own @ errs)
                    | None \<Rightarrow> RaisesCleanup (own @ errs)))))"

section \<open>What an opening leaves\<close>

definition gate_locks_of :: "gates \<Rightarrow> string \<Rightarrow> (nat \<times> bool) set" where
  "gate_locks_of gs fl = set (g_locks (gs fl))"

text \<open>A connection that has no lock yet.\<close>

definition new_connection :: "nat \<Rightarrow> gates \<Rightarrow> bool" where
  "new_connection c gs = (\<forall>fl e. (c, e) \<notin> gate_locks_of gs fl)"

lemma take_lease_cases:
  assumes "take_lease c fl owner ex gs = (gs1, r)" "new_connection c gs"
  obtains (Taken) "r = Inr ()" "\<And>f. gate_locks_of gs1 f = (if f = fl then insert (c, ex) (gate_locks_of gs f) else gate_locks_of gs f)"
      "g_owners (gs1 fl) = Some [owner]" "g_delete (gs1 fl)"
  | (Refused) e where "r = Inl e" "\<And>f. gate_locks_of gs1 f = gate_locks_of gs f"
      "lease_answer c owner ex (gs fl) = Refused e"
proof -
  obtain g st where l: "lease c owner ex (gs fl) = (g, st)" by fastforce
  have n: "(c, e) \<notin> set (g_locks (gs fl))" for e using assms(2) by (simp add: new_connection_def gate_locks_of_def)
  note v = lease_leaves [OF l n]
  have gs1: "gs1 = gs(fl := g)" using assms(1) l by (auto simp: take_lease_def split: stage.splits)
  have a: "lease_answer c owner ex (gs fl) = st" using lease_answers [of c owner ex "gs fl"] l by simp
  from v(3) show ?thesis
  proof
    assume h: "st = Held \<and> stage_lock ex st = Some ex"
    have "set (g_locks g) = insert (c, ex) (set (g_locks (gs fl)))"
    proof (rule set_eqI)
      fix y show "y \<in> set (g_locks g) \<longleftrightarrow> y \<in> insert (c, ex) (set (g_locks (gs fl)))"
        using v(1) [of "fst y" "snd y"] h n by (cases y) auto
    qed
    then have "gate_locks_of gs1 f = (if f = fl then insert (c, ex) (gate_locks_of gs f) else gate_locks_of gs f)" for f
      by (simp add: gate_locks_of_def gs1)
    moreover have "g_delete (gs1 fl)"
      using a h lease_delete [of c owner ex "gs fl"] l by (auto simp: gs1 lease_answer_def split: if_splits)
    moreover have "r = Inr ()" using assms(1) l h by (simp add: take_lease_def)
    ultimately show ?thesis using v(2) h Taken by (simp add: gs1)
  next
    assume "\<exists>er. st = Refused er"
    then obtain e where e: "st = Refused e" by blast
    have "set (g_locks g) = set (g_locks (gs fl))"
    proof (rule set_eqI)
      fix y show "y \<in> set (g_locks g) \<longleftrightarrow> y \<in> set (g_locks (gs fl))"
        using v(1) [of "fst y" "snd y"] e n by (cases y) auto
    qed
    then have "gate_locks_of gs1 f = gate_locks_of gs f" for f by (simp add: gate_locks_of_def gs1)
    moreover have "r = Inl e" using assms(1) l e by (simp add: take_lease_def)
    ultimately show ?thesis using Refused a e by blast
  qed
qed

lemma drop_lease_locks:
  "gate_locks_of (drop_lease c fl gs) f = (if f = fl then {(c', e) \<in> gate_locks_of gs f. c' \<noteq> c} else gate_locks_of gs f)"
  by (auto simp: gate_locks_of_def drop_lease_def unlock_def)

text \<open>An opening that fails gives its lease back; one that succeeds holds it.\<close>

lemma open_catalog_cases:
  assumes "open_catalog v canon bk c a gs = (gs', r)" "new_connection c gs"
  obtains (Fails) f where "r = Inl f" "\<And>fl. gate_locks_of gs' fl = gate_locks_of gs fl"
  | (Memory) ex where "r = Inr (new_handle None ex None)" "gs' = gs"
  | (Opens) p ex jm where "r = Inr (new_handle (Some p) ex (Some (access_file p, c)))" "p = canon (oa_path a)"
      "open_request v a = Inr (ex, jm)"
      "\<And>fl. gate_locks_of gs' fl = (if fl = access_file p then insert (c, ex) (gate_locks_of gs fl) else gate_locks_of gs fl)"
      "g_owners (gs' (access_file p)) = Some [p]" "g_delete (gs' (access_file p))"
proof (cases "open_request v a")
  case (Inl e)
  then have "r = Inl (Raised e)" "gs' = gs" using assms(1) by (simp_all add: open_catalog_def)
  then show ?thesis using Fails by simp
next
  case (Inr x)
  obtain ex jm where q: "open_request v a = Inr (ex, jm)" using Inr by (cases x) auto
  show ?thesis
  proof (cases "in_memory a")
    case True
    with assms(1) q Fails Memory show ?thesis
      by (cases "connect bk (oa_adapter a) jm True") (auto simp: open_catalog_def)
  next
    case False
    let ?p = "canon (oa_path a)" and ?k = "connect bk (oa_adapter a) jm False"
    obtain gs1 r1 where t: "take_lease c (access_file ?p) ?p ex gs = (gs1, r1)" by fastforce
    from t assms(2) show ?thesis
    proof (cases rule: take_lease_cases)
      case (Refused e)
      then have "r = Inl (Raised e)" "gs' = gs1" using assms(1) q False t by (simp_all add: open_catalog_def Let_def)
      then show ?thesis using Fails Refused(2) by simp
    next
      case Taken
      show ?thesis
      proof (cases ?k)
        case (Inl f)
        then have e: "r = Inl (translate f)" "gs' = drop_lease c (access_file ?p) gs1"
          using assms(1) q False t Taken(1) by (simp_all add: open_catalog_def Let_def)
        have "gate_locks_of gs' fl = gate_locks_of gs fl" for fl
          using assms(2) by (auto simp: e(2) drop_lease_locks Taken(2) new_connection_def)
        then show ?thesis using Fails e(1) by blast
      next
        case (Inr u)
        then have "r = Inr (new_handle (Some ?p) ex (Some (access_file ?p, c)))" "gs' = gs1"
          using assms(1) q False t Taken(1) by (simp_all add: open_catalog_def Let_def)
        then show ?thesis using Opens q Taken(2-4) by simp
      qed
    qed
  qed
qed

lemma busy_when_held:
  assumes "(c, ex) \<in> set (g_locks g)" "c' \<noteq> c" "ex \<or> ex'" "g_delete g" "g_owners g \<noteq> None"
  shows "snd (lease c' owner ex' g) = Refused busy"
proof -
  have "\<not> lockable c' g" "ex \<Longrightarrow> \<not> readable c' g"
    using assms(1,2) by (auto simp: lockable_iff readable_iff)
  then show ?thesis using assms(3-5) by (auto simp: lease_answers lease_answer_def)
qed

section \<open>What a closing leaves\<close>

lemma release_all_mono:
  "release_all rs gs = (gs', errs) \<Longrightarrow> x \<notin> gate_locks_of gs f \<Longrightarrow> x \<notin> gate_locks_of gs' f"
proof (induction rs arbitrary: gs errs)
  case (Cons y ys)
  obtain fl c ft er where y: "y = ((fl, c), (ft, er))" by (metis surj_pair)
  obtain gs1 bad where 1: "driver_call ft (drop_lease c fl) gs = (gs1, bad)" by fastforce
  have "x \<notin> gate_locks_of gs1 f"
    using 1 Cons.prems(2) by (cases ft) (auto simp: driver_call_def drop_lease_locks split: if_splits)
  with Cons 1 y show ?case by (auto split: prod.splits)
qed simp

text \<open>Every resource is closed, whatever fails before it.\<close>

lemma release_all_drops:
  assumes "release_all (zip ls fs) gs = (gs', errs)" "length fs = length ls" "i < length ls"
    "fst (fs ! i) \<noteq> FailBefore"
  shows "(snd (ls ! i), e) \<notin> gate_locks_of gs' (fst (ls ! i))"
  using assms
proof (induction ls arbitrary: fs gs errs i)
  case (Cons l ls)
  obtain ft er fs' where fs: "fs = (ft, er) # fs'" using Cons.prems(2) by (cases fs) auto
  obtain fl c where l: "l = (fl, c)" by fastforce
  obtain gs1 bad where 1: "driver_call ft (drop_lease c fl) gs = (gs1, bad)" by fastforce
  obtain gs2 errs2 where 2: "release_all (zip ls fs') gs1 = (gs2, errs2)" by fastforce
  have gs': "gs' = gs2" using Cons.prems(1) by (simp add: fs l 1 2)
  show ?case
  proof (cases i)
    case 0
    then have "ft \<noteq> FailBefore" using Cons.prems(4) by (simp add: fs)
    then have "(c, e) \<notin> gate_locks_of gs1 fl"
      using 1 by (cases ft) (auto simp: driver_call_def drop_lease_locks)
    then show ?thesis using release_all_mono [OF 2] 0 by (simp add: l gs')
  next
    case (Suc j)
    then show ?thesis using Cons.IH [of fs' gs1 errs2 j] 2 Cons.prems by (simp add: fs gs')
  qed
qed simp

lemma release_all_errors:
  "release_all (zip ls fs) gs = (gs', errs) \<Longrightarrow> length fs = length ls \<Longrightarrow> errs = [] \<longleftrightarrow> (\<forall>f \<in> set fs. fst f = NoFault)"
proof (induction ls arbitrary: fs gs errs)
  case (Cons l ls)
  obtain ft er fs' where fs: "fs = (ft, er) # fs'" using Cons.prems(2) by (cases fs) auto
  obtain fl c where l: "l = (fl, c)" by fastforce
  obtain gs1 bad where 1: "driver_call ft (drop_lease c fl) gs = (gs1, bad)" by fastforce
  obtain gs2 errs2 where 2: "release_all (zip ls fs') gs1 = (gs2, errs2)" by fastforce
  have "bad \<longleftrightarrow> ft \<noteq> NoFault" using 1 by (cases ft) (auto simp: driver_call_def)
  moreover have "errs2 = [] \<longleftrightarrow> (\<forall>f \<in> set fs'. fst f = NoFault)"
    using Cons.IH [of fs' gs1 errs2] 2 Cons.prems by (simp add: fs l 1)
  ultimately show ?case using Cons.prems(1) by (auto simp: fs l 1 2)
qed simp

end
