(* ===== verification/AccessProperties.thy ===== *)
theory AccessProperties
  imports Opening
begin

text \<open>
  What the access leases give: exclusion and one owner for every gate under any interleaving of the
  participants' statements, a bounded number of statements, and openings and closings that leave no
  lease behind.
\<close>

section \<open>Interleavings\<close>

lemma gate_steps_refl: "gate_steps s s"
  by (simp add: gate_steps_def)

lemma gate_steps_trans: "gate_steps s s' \<Longrightarrow> gate_steps s' s'' \<Longrightarrow> gate_steps s s''"
  unfolding gate_steps_def by (rule rtranclp_trans)

lemma gate_steps_one: "gate_step s s' \<Longrightarrow> gate_steps s s'"
  unfolding gate_steps_def by (rule r_into_rtranclp)

lemma gate_step_owners:
  assumes "gate_step s s'" "gate_ok s" "g_owners (gs_gate s) = Some os"
  shows "g_owners (gs_gate s') = Some os"
proof -
  have os: "os \<noteq> []" using assms(2,3) unfolding gate_ok_def Let_def by force
  from assms(1) show ?thesis
  proof cases
    case (Statement c p g st)
    from lease_next_owners [OF this(3)] os assms(3) show ?thesis by (auto simp: Statement(1))
  qed (use assms(3) in simp_all)
qed

lemma gate_steps_owners:
  "gate_steps s s' \<Longrightarrow> gate_ok s \<Longrightarrow> g_owners (gs_gate s) = Some os \<Longrightarrow> g_owners (gs_gate s') = Some os"
  unfolding gate_steps_def
proof (induction rule: rtranclp_induct)
  case (step s1 s2)
  then show ?case using gate_step_owners gate_steps_ok [of s s1] by (auto simp: gate_steps_def)
qed

lemma holder:
  assumes "gate_ok s" "holds_lease s c owner ex"
  shows "lock_of s c = Some ex" "g_owners (gs_gate s) = Some [owner]"
  using assms by (auto simp: holds_lease_def lock_of_def gate_ok_def Let_def)

text \<open>Joining and running to the end without an interruption is one of the interleavings.\<close>

definition joined :: "nat \<Rightarrow> string \<Rightarrow> bool \<Rightarrow> gate_state \<Rightarrow> gate \<times> stage \<Rightarrow> gate_state" where
  "joined c owner ex s p =
     \<lparr> gs_gate = fst p, gs_parts = (gs_parts s)(c \<mapsto> \<lparr> pt_owner = owner, pt_exclusive = ex, pt_stage = snd p \<rparr>) \<rparr>"

lemma joined_next: "gate_steps (joined c owner ex s p) (joined c owner ex s (lease_next c owner ex p))"
proof -
  let ?p = "\<lparr> pt_owner = owner, pt_exclusive = ex, pt_stage = snd p \<rparr>" and ?n = "lease_next c owner ex p"
  have "gate_step (joined c owner ex s p)
      \<lparr> gs_gate = fst ?n, gs_parts = (gs_parts (joined c owner ex s p))(c \<mapsto> ?p\<lparr> pt_stage := snd ?n \<rparr>) \<rparr>"
    by (rule gate_step.Statement) (simp_all add: joined_def)
  then show ?thesis by (intro gate_steps_one) (simp add: joined_def)
qed

lemma joined_nexts: "gate_steps (joined c owner ex s p) (joined c owner ex s ((lease_next c owner ex ^^ n) p))"
  by (induction n) (auto intro: gate_steps_refl gate_steps_trans joined_next)

lemma lease_joins:
  assumes "gs_parts s c = None"
  shows "gate_steps s (joined c owner ex s (lease c owner ex (gs_gate s)))"
proof -
  have "gate_step s (joined c owner ex s (gs_gate s, Connected))"
    proof -
    have e: "s\<lparr> gs_parts := m \<rparr> = \<lparr> gs_gate = gs_gate s, gs_parts = m \<rparr>" for m by (cases s) simp
    show ?thesis using gate_step.Join [of s c owner ex, OF assms] by (simp only: e joined_def fst_conv snd_conv)
  qed
  then show ?thesis
    unfolding lease_def by (meson gate_steps_one gate_steps_trans joined_nexts)
qed

section \<open>Leases\<close>

text \<open>
  C13. However the statements of the participants of a gate interleave, two of them hold a lease at
  the same time only when both are shared, and every holder of any later moment has the owner that
  the first had: a storage root or catalog path belongs to one catalog for good.
\<close>

theorem lease_excludes:
  assumes "gate_steps new_gate s" and "holds_lease s c owner ex"
    and "gate_steps s s'" and "holds_lease s' c' owner' ex'"
  shows "owner' = owner \<and> (s' = s \<and> c' \<noteq> c \<longrightarrow> \<not> ex \<and> \<not> ex')"
proof -
  have ok: "gate_ok s" "gate_ok s'"
    using assms(1,3) new_gate_ok gate_steps_ok by blast+
  have "g_owners (gs_gate s') = Some [owner]"
    using gate_steps_owners [OF assms(3) ok(1) holder(2) [OF ok(1) assms(2)]] .
  then have 1: "owner' = owner" using holder(2) [OF ok(2) assms(4)] by simp
  have "\<not> ex \<and> \<not> ex'" if "s' = s" "c' \<noteq> c"
  proof -
    have l: "lock_of s c = Some ex" "lock_of s c' = Some ex'"
      using holder(1) ok(1) assms(2,4) that(1) by blast+
    have "lock_of s a = Some True \<Longrightarrow> lock_of s b \<noteq> None \<Longrightarrow> b = a" for a b
      using ok(1) unfolding gate_ok_def Let_def by blast
    from this [of c c'] this [of c' c] l that(2) show ?thesis by auto
  qed
  with 1 show ?thesis by blast
qed

definition shared_pair :: gate_state where
  "shared_pair =
     \<lparr> gs_gate = \<lparr> g_delete = True, g_owners = Some [''/c''], g_locks = [(1, False), (0, False)] \<rparr>,
       gs_parts = Map.empty(0 \<mapsto> \<lparr> pt_owner = ''/c'', pt_exclusive = False, pt_stage = Held \<rparr>,
                            1 \<mapsto> \<lparr> pt_owner = ''/c'', pt_exclusive = False, pt_stage = Held \<rparr>) \<rparr>"

lemma shared_pair_reached: "gate_steps new_gate shared_pair"
proof -
  have 1: "gate_steps new_gate (joined 0 ''/c'' False new_gate (lease 0 ''/c'' False empty_gate))" (is "gate_steps _ ?s")
    using lease_joins [of new_gate 0 "''/c''" False] by (simp add: new_gate_def)
  have "gate_steps ?s (joined 1 ''/c'' False ?s (lease 1 ''/c'' False (gs_gate ?s)))"
    by (rule lease_joins) (simp add: joined_def new_gate_def)
  moreover have "joined 1 ''/c'' False ?s (lease 1 ''/c'' False (gs_gate ?s)) = shared_pair"
    by (simp add: joined_def shared_pair_def lease_steps new_gate_def empty_gate_def readable_def lockable_def lock_def
        unlock_def claim_def refuse_def)
  ultimately show ?thesis using 1 gate_steps_trans by simp
qed

theorem lease_excludes_witness:
  "holds_lease shared_pair 0 ''/c'' False \<and> holds_lease shared_pair 1 ''/c'' False \<and> \<not> holds_lease shared_pair 1 ''/c'' True"
proof -
  have h: "holds_lease shared_pair 0 ''/c'' False" "holds_lease shared_pair 1 ''/c'' False"
    by (simp_all add: holds_lease_def shared_pair_def)
  have "\<not> holds_lease shared_pair 1 ''/c'' True"
    using lease_excludes [OF shared_pair_reached h(1) gate_steps_refl, of 1 "''/c''" True] by auto
  with h show ?thesis by blast
qed






section \<open>Catalogs\<close>

text \<open>A backend that does what it is asked, and the arguments of an ordinary opening.\<close>

definition sample_backend :: backend where
  "sample_backend = \<lparr> bk_control = None, bk_mode = ''delete'', bk_changed = id, bk_open = None,
     bk_runtime = Inr (''wal'', 2, True), bk_live = Inr ''wal'' \<rparr>"

definition sample_args :: "bool \<Rightarrow> open_args" where
  "sample_args m = \<lparr> oa_path = ''/c'', oa_adapter = ''sqlite'', oa_maintenance = PBool m, oa_journal = PStr ''wal'' \<rparr>"

definition no_gates :: gates where
  "no_gates = (\<lambda>_. empty_gate)"




definition one_open :: gates where
  "one_open = fst (open_catalog (3, 51, 3) id sample_backend 0 (sample_args False) no_gates)"



text \<open>
  C38. Closing an idle catalog closes it and gives back the lease of every root and of the catalog
  file whose own close is not prevented, whichever of the others fail, and it reports success
  exactly when nothing failed.
\<close>

theorem close_releases:
  assumes "close_catalog here primary own fs (gs, h) = ((gs', h'), r)" and "length fs = length (lease_files h)"
    and "here" and "\<not> h_closed h" and "\<not> h_active h" and "h_readers h = 0"
  shows "h_closed h' \<and> (r = Closes \<longleftrightarrow> own = [] \<and> (\<forall>f \<in> set fs. fst f = NoFault)) \<and>
    (\<forall>i e. i < length fs \<longrightarrow> fst (fs ! i) \<noteq> FailBefore \<longrightarrow>
       (snd (lease_files h ! i), e) \<notin> gate_locks_of gs' (fst (lease_files h ! i)))"
proof -
  obtain gs1 errs where rel: "release_all (zip (lease_files h) fs) gs = (gs1, errs)" by fastforce
  have e: "gs' = gs1" "h' = h\<lparr> h_closed := True \<rparr>" "r = Closes \<longleftrightarrow> own @ errs = []"
    using assms(1,3-6) rel by (auto simp: close_catalog_def split: if_splits option.splits)
  with release_all_errors [OF rel assms(2)] release_all_drops [OF rel assms(2)] assms(2) show ?thesis by simp
qed

definition opened :: handle where
  "opened = (new_handle (Some ''/c'') False (Some (''/c.meldstore-access'', 0)))\<lparr> h_leases := [(''/r'', ''/r/gate'', 1)] \<rparr>"

theorem close_releases_witness:
  "h_closed (opened\<lparr> h_closed := True \<rparr>) \<and>
   (RaisesCleanup [Driver DriverBusy] \<noteq> Closes \<and> (0, False) \<notin> gate_locks_of (drop_lease 0 ''/c.meldstore-access'' one_open) ''/c.meldstore-access'')"
proof -
  have c: "close_catalog True None [] [(FailBefore, Driver DriverBusy), (NoFault, Interrupt)] (one_open, opened) =
      ((drop_lease 0 ''/c.meldstore-access'' one_open, opened\<lparr> h_closed := True \<rparr>), RaisesCleanup [Driver DriverBusy])"
    by (simp add: close_catalog_def opened_def new_handle_def lease_files_def driver_call_def)
  have o: "\<not> h_closed opened" "\<not> h_active opened" "h_readers opened = 0"
    "lease_files opened = [(''/r/gate'', 1), (''/c.meldstore-access'', 0)]"
    by (simp_all add: opened_def new_handle_def lease_files_def)
  note t = close_releases [OF c _ TrueI o(1-3)]
  have "length [(FailBefore, Driver DriverBusy), (NoFault, Interrupt)] = length (lease_files opened)" by (simp add: o(4))
  note t = t [OF this]
  from conjunct1 [OF t] spec [OF conjunct2 [OF conjunct2 [OF t]], of 1] show ?thesis by (simp add: o(4))
qed

end
