(* ===== verification/JsonText.thy ===== *)
theory JsonText
  imports Declarations
begin

text \<open>
  JSON as the library writes it: which Python values \<open>json.dumps\<close> accepts and
  \<open>json.loads\<close> gives back, the text with sorted keys, compact separators and ASCII escapes, and
  \<open>descriptor_json\<close> of \<^verbatim>\<open>handlers.py\<close>. The rendering of a finite float
  (\<open>float.__repr__\<close>) is the parameter \<open>frepr\<close>.
\<close>

section \<open>Values\<close>

text \<open>The value that \<open>json.loads(json.dumps(v, allow_nan=False))\<close> returns, where it is equal to \<open>v\<close>.\<close>

definition json_key :: "pyval \<Rightarrow> string option" where
  "json_key v = (case v of PStr s \<Rightarrow> Some s | PSurrogate s \<Rightarrow> Some s | _ \<Rightarrow> None)"

definition all_some :: "'a option list \<Rightarrow> 'a list option" where
  "all_some xs = (if None \<in> set xs then None else Some (map the xs))"

text \<open>Python converts no integer of more than 4300 digits to text.\<close>

definition printable :: "int \<Rightarrow> bool" where
  "printable n = (length (dec (nat \<bar>n\<bar>)) \<le> 4300)"

fun to_json :: "pyval \<Rightarrow> json option" where
  "to_json PNone = Some JNull"
| "to_json (PBool b) = Some (JBool b)"
| "to_json (PInt n) = (if printable n then Some (JInt n) else None)"
| "to_json (PFloat (Finite q)) = Some (JFloat (Finite q))"
| "to_json (PStr s) = Some (JStr s)"
| "to_json (PSurrogate s) = Some (JSurrogate s)"
| "to_json (PList xs) = map_option JArr (all_some (map to_json xs))"
| "to_json (PDict items) =
     map_option JObj (all_some (map (\<lambda>(k, v).
       case (json_key k, to_json v) of (Some s, Some j) \<Rightarrow> Some (s, j) | _ \<Rightarrow> None) items))"
| "to_json v = None"

fun json_depth :: "json \<Rightarrow> nat" where
  "json_depth (JArr xs) = Suc (foldr (\<lambda>x m. max (json_depth x) m) xs 0)"
| "json_depth (JObj items) = Suc (foldr (\<lambda>x m. max (json_depth (snd x)) m) items 0)"
| "json_depth j = 0"

text \<open>\<open>sort_keys=True\<close>\<close>

fun sorted_json :: "json \<Rightarrow> json" where
  "sorted_json (JArr xs) = JArr (map sorted_json xs)"
| "sorted_json (JObj items) = JObj (sort_key fst (map (\<lambda>(k, v). (k, sorted_json v)) items))"
| "sorted_json j = j"

section \<open>Text\<close>

text \<open>The code points of a text, from its UTF-8 bytes.\<close>

fun points :: "nat list \<Rightarrow> nat list" where
  "points [] = []"
| "points (a # bs) =
     (if a < 192 then a # points bs
      else if a < 224
      then (case bs of b # r \<Rightarrow> ((a - 192) * 64 + b mod 64) # points r | _ \<Rightarrow> [])
      else if a < 240
      then (case bs of b # c # r \<Rightarrow> ((a - 224) * 4096 + b mod 64 * 64 + c mod 64) # points r | _ \<Rightarrow> [])
      else (case bs of
              b # c # d # r \<Rightarrow>
                ((a - 240) * 262144 + b mod 64 * 4096 + c mod 64 * 64 + d mod 64) # points r
            | _ \<Rightarrow> []))"

definition hex4 :: "nat \<Rightarrow> string" where
  "hex4 n = map hex_digit [n div 4096 mod 16, n div 256 mod 16, n div 16 mod 16, n mod 16]"

definition escape :: "nat \<Rightarrow> string" where
  "escape p =
     (if p = 34 then [CHR 0x5C, CHR 0x22] else if p = 92 then [CHR 0x5C, CHR 0x5C]
      else if p = 10 then [CHR 0x5C, CHR ''n''] else if p = 13 then [CHR 0x5C, CHR ''r'']
      else if p = 9 then [CHR 0x5C, CHR ''t''] else if p = 12 then [CHR 0x5C, CHR ''f'']
      else if p = 8 then [CHR 0x5C, CHR ''b'']
      else if 32 \<le> p \<and> p \<le> 126 then [char_of p]
      else if p < 65536 then CHR 0x5C # CHR ''u'' # hex4 p
      else CHR 0x5C # CHR ''u'' # hex4 (55296 + (p - 65536) div 1024) @
           CHR 0x5C # CHR ''u'' # hex4 (56320 + (p - 65536) mod 1024))"

definition json_string :: "string \<Rightarrow> string" where
  "json_string s = CHR 0x22 # concat (map escape (points (map of_char s))) @ [CHR 0x22]"

fun joined_by :: "string \<Rightarrow> string list \<Rightarrow> string" where
  "joined_by sep [] = []"
| "joined_by sep [x] = x"
| "joined_by sep (x # y # xs) = x @ sep @ joined_by sep (y # xs)"

definition int_text :: "int \<Rightarrow> string" where
  "int_text n = (if n < 0 then CHR ''-'' # dec (nat (- n)) else dec (nat n))"

fun float_text :: "(rat \<Rightarrow> string) \<Rightarrow> pyfloat \<Rightarrow> string" where
  "float_text frepr (Finite q) = frepr q"
| "float_text frepr (Infinity pos) = (if pos then ''Infinity'' else ''-Infinity'')"
| "float_text frepr NaN = ''NaN''"

text \<open>\<open>json.dumps(j, separators=(",", ":"))\<close>\<close>

fun dumps :: "(rat \<Rightarrow> string) \<Rightarrow> json \<Rightarrow> string" where
  "dumps frepr JNull = ''null''"
| "dumps frepr (JBool b) = (if b then ''true'' else ''false'')"
| "dumps frepr (JInt n) = int_text n"
| "dumps frepr (JFloat x) = float_text frepr x"
| "dumps frepr (JStr s) = json_string s"
| "dumps frepr (JSurrogate s) = json_string s"
| "dumps frepr (JArr xs) = ''['' @ joined_by '','' (map (dumps frepr) xs) @ '']''"
| "dumps frepr (JObj items) =
     ''{'' @ joined_by '','' (map (\<lambda>(k, v). json_string k @ '':'' @ dumps frepr v) items) @ ''}''"

section \<open>Descriptors\<close>

text \<open>What the interpreter contributes: the rendering of floats and the depth that JSON may have.\<close>

record interpreter =
  py_float_repr :: "rat \<Rightarrow> string"
  py_json_depth :: nat

text \<open>
  \<open>descriptor_json(value)\<close>; the text stands for the value that it is read back to, with sorted keys.
\<close>

definition descriptor_json :: "interpreter \<Rightarrow> pyval \<Rightarrow> json res" where
  "descriptor_json py v =
     ebind (expect (as_dict v) ValidationError ''Handler descriptor must be a JSON object'') (\<lambda>_.
     ebind (expect (to_json v) ValidationError ''Invalid handler descriptor'') (\<lambda>j.
     ebind (require (json_depth j \<le> py_json_depth py \<and>
                     length (dumps (py_float_repr py) (sorted_json j)) \<le> 65536)
              ValidationError ''Invalid handler descriptor'') (\<lambda>_.
     Inr (sorted_json j))))"

section \<open>Lengths\<close>

text \<open>A text of \<open>n\<close> bytes takes at most \<open>6 n + 2\<close> characters.\<close>

lemma length_escape: "length (escape p) \<le> (if p < 65536 then 6 else 12)"
  by (simp add: escape_def hex4_def)

lemma length_escape_small: "p < 65536 \<Longrightarrow> length (escape p) \<le> 6"
  using length_escape [of p] by simp

lemma length_escape_two: "a < 224 \<Longrightarrow> length (escape ((a - 192) * 64 + b mod 64)) \<le> 6"
proof (rule length_escape_small)
  assume "a < 224"
  then have "(a - 192) * 64 \<le> 32 * 64" "b mod 64 < 64" by simp_all
  then show "(a - 192) * 64 + b mod 64 < 65536" by linarith
qed

lemma length_escape_three: "a < 240 \<Longrightarrow> length (escape ((a - 224) * 4096 + b mod 64 * 64 + c mod 64)) \<le> 6"
proof (rule length_escape_small)
  assume "a < 240"
  then have "(a - 224) * 4096 \<le> 15 * 4096" "b mod 64 \<le> 63" "c mod 64 \<le> 63" by simp_all
  then show "(a - 224) * 4096 + b mod 64 * 64 + c mod 64 < 65536" by linarith
qed

lemma length_escapes: "length (concat (map escape (points bs))) \<le> 6 * length bs"
proof (induction bs rule: points.induct)
  case (2 a bs)
  consider "a < 192" | "\<not> a < 192" "a < 224" | "\<not> a < 192" "\<not> a < 224" "a < 240" | "\<not> a < 192" "\<not> a < 224" "\<not> a < 240"
    by blast
  then show ?case
  proof cases
    case 1
    then show ?thesis using 2(1) length_escape_small [of a] by simp
  next
    case c: 2
    show ?thesis
    proof (cases bs)
      case (Cons b r)
      show ?thesis using 2(2) [OF c Cons] length_escape_two [OF c(2), of b] c by (simp add: Cons)
    qed (use c in simp)
  next
    case c: 3
    show ?thesis
    proof (cases "\<exists>x y r. bs = x # y # r")
      case True
      then obtain x y r where bs: "bs = x # y # r" by blast
      show ?thesis using 2(3) [OF c bs refl] length_escape_three [OF c(3), of x y] c by (simp add: bs)
    qed (use c in \<open>auto split: list.splits\<close>)
  next
    case c: 4
    show ?thesis
    proof (cases "\<exists>x y z r. bs = x # y # z # r")
      case True
      then obtain x y z r where bs: "bs = x # y # z # r" by blast
      show ?thesis
        using 2(4) [OF c bs refl refl] c
          length_escape [of "(a - 240) * 262144 + x mod 64 * 4096 + y mod 64 * 64 + z mod 64"]
        by (simp add: bs split: if_splits)
    qed (use c in \<open>auto split: list.splits\<close>)
  qed
qed simp

lemma length_json_string: "length (json_string s) \<le> 6 * length s + 2"
  using length_escapes [of "map of_char s"] by (simp add: json_string_def)

lemma length_joined_by: "length (joined_by sep xs) \<le> sum_list (map (\<lambda>x. length x + length sep) xs)"
  by (induction sep xs rule: joined_by.induct) simp_all

lemma length_dec: "n < 10 ^ k \<Longrightarrow> 0 < k \<Longrightarrow> length (dec n) \<le> k"
proof (induction k arbitrary: n)
  case (Suc k)
  show ?case
  proof (cases "n < 10")
    case False
    then have "0 < k" using Suc.prems(1) by (cases k) auto
    moreover have "n div 10 < 10 ^ k" using Suc.prems(1) by (simp add: less_mult_imp_div_less)
    ultimately show ?thesis using Suc.IH False by (simp add: dec.simps [of n])
  qed (simp add: dec.simps [of n])
qed simp

text \<open>A text of plain characters is written as it is.\<close>

definition plain_char :: "char \<Rightarrow> bool" where
  "plain_char c = (let n = of_char c :: nat in 32 \<le> n \<and> n \<le> 126 \<and> n \<noteq> 34 \<and> n \<noteq> 92)"

lemma json_string_plain:
  assumes "list_all plain_char s"
  shows "json_string s = CHR 0x22 # s @ [CHR 0x22]"
proof -
  have "concat (map escape (points (map of_char s))) = s"
    using assms by (induction s) (simp_all add: plain_char_def escape_def Let_def)
  then show ?thesis by (simp add: json_string_def)
qed

end
