(* ===== verification/Actions.thy ===== *)
theory Actions
  imports Catalog
begin

text \<open>
  Code that changes a state outside the database and may fail on the way: an action returns the state
  that it leaves, with a failure or a value. A failure keeps what was done before it.
\<close>

type_synonym ('s, 'a) act = "'s \<Rightarrow> 's \<times> (failure + 'a)"

definition give :: "'a \<Rightarrow> ('s, 'a) act" where
  "give x s = (s, Inr x)"

definition fail :: "failure \<Rightarrow> ('s, 'a) act" where
  "fail f s = (s, Inl f)"

definition abind :: "('s, 'a) act \<Rightarrow> ('a \<Rightarrow> ('s, 'b) act) \<Rightarrow> ('s, 'b) act" where
  "abind m k s = (case m s of (s', Inl f) \<Rightarrow> (s', Inl f) | (s', Inr x) \<Rightarrow> k x s')"

text \<open>A computation that reads only, and an update.\<close>

definition calc :: "'a res \<Rightarrow> ('s, 'a) act" where
  "calc r s = (s, case r of Inl e \<Rightarrow> Inl (Raised e) | Inr x \<Rightarrow> Inr x)"

definition update :: "('s \<Rightarrow> 's) \<Rightarrow> ('s, unit) act" where
  "update u s = (u s, Inr ())"

text \<open>A place where the environment may raise.\<close>

definition mayfail :: "failure option \<Rightarrow> ('s, unit) act" where
  "mayfail f s = (s, case f of None \<Rightarrow> Inr () | Some e \<Rightarrow> Inl e)"

text \<open>\<open>try: m finally: u\<close>\<close>

definition finally_do :: "('s \<Rightarrow> 's) \<Rightarrow> ('s, 'a) act \<Rightarrow> ('s, 'a) act" where
  "finally_do u m s = (case m s of (s', r) \<Rightarrow> (u s', r))"

text \<open>An action on a part of the state.\<close>

definition on_part :: "('s \<Rightarrow> 'p) \<Rightarrow> ('p \<Rightarrow> 's \<Rightarrow> 's) \<Rightarrow> ('p \<Rightarrow> 'p \<times> 'a res) \<Rightarrow> ('s, 'a) act" where
  "on_part get put op s =
     (case op (get s) of (p, r) \<Rightarrow> (put p s, case r of Inl e \<Rightarrow> Inl (Raised e) | Inr x \<Rightarrow> Inr x))"

lemma act_simps [simp]:
  "abind (give x) k = k x" "abind (fail f) k = fail f"
  "(calc r s = (s', Inr x)) = (s' = s \<and> r = Inr x)"
  "(calc r s = (s', Inl f)) = (s' = s \<and> (\<exists>e. r = Inl e \<and> f = Raised e))"
  "(mayfail g s = (s', Inr v)) = (s' = s \<and> g = None)"
  "(mayfail g s = (s', Inl f)) = (s' = s \<and> g = Some f)"
  "(update w s = (s', Inr v)) = (s' = w s)" "(update w s = (s', Inl f)) = False"
  "(give x s = (s', Inr y)) = (s' = s \<and> y = x)" "(give x s = (s', Inl f)) = False"
  "(fail e s = (s', Inr y)) = False" "(fail e s = (s', Inl f)) = (s' = s \<and> f = e)"
  by (auto simp: abind_def give_def fail_def calc_def mayfail_def update_def split: sum.splits option.splits)

lemma abind_Inr:
  "(abind m k s = (s', Inr y)) = (\<exists>s1 x. m s = (s1, Inr x) \<and> k x s1 = (s', Inr y))"
  by (auto simp: abind_def split: prod.splits sum.splits)

lemma abind_Inl:
  "(abind m k s = (s', Inl f)) = (m s = (s', Inl f) \<or> (\<exists>s1 x. m s = (s1, Inr x) \<and> k x s1 = (s', Inl f)))"
  by (auto simp: abind_def split: prod.splits sum.splits)

lemma on_part_Inr:
  "(on_part get put op s = (s', Inr x)) = (\<exists>p. op (get s) = (p, Inr x) \<and> s' = put p s)"
  by (auto simp: on_part_def split: prod.splits sum.splits)

lemma on_part_Inl:
  "(on_part get put op s = (s', Inl f)) = (\<exists>p e. op (get s) = (p, Inl e) \<and> s' = put p s \<and> f = Raised e)"
  by (auto simp: on_part_def split: prod.splits sum.splits)

lemma finally_do_eq:
  "(finally_do u m s = (s', r)) = (\<exists>s1. m s = (s1, r) \<and> s' = u s1)"
  by (auto simp: finally_do_def split: prod.splits)

text \<open>
  Hoare triples: from a state with \<open>P\<close> the action leaves one with \<open>Q x\<close> when it returns \<open>x\<close>
  and one with \<open>E\<close> when it fails.
\<close>

definition triple :: "('s \<Rightarrow> bool) \<Rightarrow> ('s, 'a) act \<Rightarrow> ('a \<Rightarrow> 's \<Rightarrow> bool) \<Rightarrow> ('s \<Rightarrow> bool) \<Rightarrow> bool" where
  "triple P m Q E = (\<forall>s. P s \<longrightarrow> (case m s of (s', Inr x) \<Rightarrow> Q x s' | (s', Inl f) \<Rightarrow> E s'))"

lemma tripleI:
  assumes "\<And>s s' x. P s \<Longrightarrow> m s = (s', Inr x) \<Longrightarrow> Q x s'" "\<And>s s' f. P s \<Longrightarrow> m s = (s', Inl f) \<Longrightarrow> E s'"
  shows "triple P m Q E"
  using assms by (auto simp: triple_def split: prod.splits sum.splits)

lemma tripleD:
  "triple P m Q E \<Longrightarrow> P s \<Longrightarrow> m s = (s', Inr x) \<Longrightarrow> Q x s'"
  "triple P m Q E \<Longrightarrow> P s \<Longrightarrow> m s = (s', Inl f) \<Longrightarrow> E s'"
  unfolding triple_def by fastforce+

lemma triple_state: "triple P m (\<lambda>_. E) E \<Longrightarrow> P s \<Longrightarrow> E (fst (m s))"
  by (cases "m s"; cases "snd (m s)") (auto dest: tripleD)

lemma triple_bind: "triple P m Q E \<Longrightarrow> (\<And>x. triple (Q x) (k x) R E) \<Longrightarrow> triple P (abind m k) R E"
  by (rule tripleI) (auto simp: abind_Inr abind_Inl dest: tripleD)

lemma triple_conseq:
  "triple P m Q E \<Longrightarrow> (\<And>s. P' s \<Longrightarrow> P s) \<Longrightarrow> (\<And>x s. Q x s \<Longrightarrow> Q' x s) \<Longrightarrow> (\<And>s. E s \<Longrightarrow> E' s) \<Longrightarrow> triple P' m Q' E'"
  by (rule tripleI) (blast dest: tripleD)+

lemma triple_calc: "(\<And>s x. P s \<Longrightarrow> r = Inr x \<Longrightarrow> Q x s) \<Longrightarrow> (\<And>s. P s \<Longrightarrow> E s) \<Longrightarrow> triple P (calc r) Q E"
  by (rule tripleI) auto

lemma triple_update: "(\<And>s. P s \<Longrightarrow> Q () (u s)) \<Longrightarrow> triple P (update u) Q E"
  by (rule tripleI) auto

lemma triple_mayfail: "(\<And>s. P s \<Longrightarrow> Q () s) \<Longrightarrow> (\<And>s. P s \<Longrightarrow> E s) \<Longrightarrow> triple P (mayfail f) Q E"
  by (rule tripleI) auto

lemma triple_give: "(\<And>s. P s \<Longrightarrow> Q x s) \<Longrightarrow> triple P (give x) Q E"
  by (rule tripleI) auto

lemma triple_finally:
  "triple P m Q E \<Longrightarrow> (\<And>x s. Q x s \<Longrightarrow> R x (u s)) \<Longrightarrow> (\<And>s. E s \<Longrightarrow> F (u s)) \<Longrightarrow> triple P (finally_do u m) R F"
  by (rule tripleI) (auto simp: finally_do_eq dest: tripleD)

end
