(* ===== verification/LocalRoot.thy ===== *)
theory LocalRoot
  imports JsonText Actions Storage
begin

text \<open>
  The identity of a local root (\<open>LocalStorage\<close> of \<^verbatim>\<open>storage.py\<close>): its marker, the
  offline replicas, and the private copies that are taken of source files. \<open>json.loads\<close> is a
  parameter.
\<close>

section \<open>Markers\<close>

fun distinct_fields :: "json \<Rightarrow> bool" where
  "distinct_fields (JArr xs) = list_all distinct_fields xs"
| "distinct_fields (JObj items) = (distinct (map fst items) \<and> list_all (\<lambda>x. distinct_fields (snd x)) items)"
| "distinct_fields j = True"

definition text_field :: "(string \<times> json) list \<Rightarrow> string \<Rightarrow> string option" where
  "text_field items k = (case map_of items k of Some (JStr s) \<Rightarrow> Some s | _ \<Rightarrow> None)"

definition LOCAL_MARKER :: string where
  "LOCAL_MARKER = ''meldstore-storage.json''"

text \<open>\<open>json.dumps({"version": 1, "id": ...})\<close>\<close>

definition marker_text :: "string \<Rightarrow> bytes" where
  "marker_text sid =
     [CHR ''{'', CHR 0x22] @ ''version'' @ [CHR 0x22] @ '': 1, '' @ [CHR 0x22] @ ''id'' @ [CHR 0x22] @ '': '' @
     [CHR 0x22] @ sid @ [CHR 0x22, CHR ''}'']"

text \<open>\<open>data.get("version") == 1\<close>: Python's equality of numbers\<close>

definition equals_one :: "json option \<Rightarrow> bool" where
  "equals_one j = (j \<in> {Some (JInt 1), Some (JBool True), Some (JFloat (Finite 1))})"

definition local_error :: error where
  "local_error = Err StorageError ''Could not initialize local storage identity''"

text \<open>The marker that a root has, read back: every defect is the same error.\<close>

definition read_marker :: "(bytes \<Rightarrow> json option) \<Rightarrow> bytes \<Rightarrow> string res" where
  "read_marker loads raw =
     (case (if 1024 < length raw then None else loads raw) of
        Some (JObj items) \<Rightarrow>
          (case text_field items ''id'' of
             Some sid \<Rightarrow> if equals_one (map_of items ''version'') \<and> hex32 sid then Inr sid else Inl local_error
           | None \<Rightarrow> Inl local_error)
      | _ \<Rightarrow> Inl local_error)"

text \<open>
  \<open>LocalStorage(root)\<close>: a marker is created where there is none. A creation that fails may have
  stored it; \<open>stop\<close> is a failure before it and \<open>late\<close> one after it.
\<close>

definition open_local ::
  "(bytes \<Rightarrow> json option) \<Rightarrow> failure option \<Rightarrow> failure option \<Rightarrow> string \<Rightarrow> (root, string) act" where
  "open_local loads stop late fresh_id =
     abind (mayfail stop) (\<lambda>_.
     abind (update (\<lambda>r. if r LOCAL_MARKER = None then r(LOCAL_MARKER \<mapsto> marker_text fresh_id) else r)) (\<lambda>_.
     abind (mayfail late) (\<lambda>_ r.
     calc (case r LOCAL_MARKER of None \<Rightarrow> Inl local_error | Some raw \<Rightarrow> read_marker loads raw) r)))"

text \<open>\<open>_replica(root, storage_id)\<close>, on a directory that did not exist\<close>

definition replica :: "(bytes \<Rightarrow> json option) \<Rightarrow> failure option \<Rightarrow> failure option \<Rightarrow> string \<Rightarrow> (root, string) act" where
  "replica loads stop late sid =
     abind (calc (require (hex32 sid) ValidationError ''Invalid replica identity'')) (\<lambda>_.
     abind (mayfail stop) (\<lambda>_.
     abind (update (\<lambda>r. r(LOCAL_MARKER \<mapsto> marker_text sid))) (\<lambda>_.
     open_local loads None late sid)))"

section \<open>Private copies\<close>

text \<open>
  \<open>snapshot(source)\<close>: what \<open>fstat\<close> says before and after the copy (size and the two times), and
  the bytes that the copy read; \<open>None\<close> is a source that cannot be opened.
\<close>

type_synonym stamp = "int \<times> int \<times> int"

record source_file =
  so_regular :: bool
  so_before :: stamp
  so_bytes :: bytes
  so_after :: stamp

definition take_copy :: "source_file \<Rightarrow> bytes res" where
  "take_copy so =
     ebind (require (so_regular so) ValidationError ''Source must be a regular file'') (\<lambda>_.
     ebind (require (so_before so = so_after so) IntegrityError ''Source changed while taking its snapshot'') (\<lambda>_.
     Inr (so_bytes so)))"

section \<open>The contract of an object target\<close>

text \<open>
  What a copy loop needs of the storage it writes to: an upload that returns has stored the bytes, and
  whatever an upload does, everything outside the staging area stays as it is. \<open>put key b r\<close> is an upload with
  whatever failures it meets.
\<close>

locale object_target =
  fixes put :: "string \<Rightarrow> bytes \<Rightarrow> root \<Rightarrow> root \<times> unit res"
  assumes put_stored: "put key b r = (r', Inr u) \<Longrightarrow> r' key = Some b"
    and put_keeps: "put key b r = (r', x) \<Longrightarrow> \<not> starts_with ''staging/'' k \<Longrightarrow> r k = Some v \<Longrightarrow> r' k = Some v"

lemma staging_not_object: "object_key k \<Longrightarrow> \<not> starts_with ''staging/'' k"
  by (auto simp: object_key_def starts_with_iff)

lemma upload_stored: "upload t stage b key r = (r', Inr u) \<Longrightarrow> r' key = Some b"
  by (auto simp: upload_def split: if_splits)

lemma upload_keeps:
  assumes "upload t stage b key r = (r', x)" "starts_with ''staging/'' stage" "\<not> starts_with ''staging/'' k" "r k = Some v"
  shows "r' k = Some v"
  using assms by (auto simp: upload_def split: if_splits)

text \<open>A staging path, with a fresh identifier, for every key.\<close>

definition staged_under :: "(string \<Rightarrow> string) \<Rightarrow> string \<Rightarrow> string" where
  "staged_under fresh key = ''staging/'' @ fresh key"

lemma staged_under_staging [intro]: "starts_with ''staging/'' (staged_under fresh key)"
  unfolding staged_under_def by (rule starts_with_append)

definition local_put :: "(string \<Rightarrow> transfer) \<Rightarrow> (string \<Rightarrow> string) \<Rightarrow> string \<Rightarrow> bytes \<Rightarrow> root \<Rightarrow> root \<times> unit res" where
  "local_put t fresh key b r = upload (t key) (staged_under fresh key) b key r"

interpretation local_target: object_target "local_put t fresh" for t fresh
  by unfold_locales
    (auto simp: local_put_def intro: staged_under_staging dest: upload_stored elim: upload_keeps)

end
