(* ===== verification/S3.thy ===== *)
theory S3
  imports LocalRoot
begin

text \<open>
  S3 payload storage (\<^verbatim>\<open>s3.py\<close>): the checks of the arguments, the identity protocol
  between the coordination directory and the remote prefix, and uploads. The remote prefix is a map
  from object paths to bytes. \<open>urlsplit\<close>, \<open>uuid5\<close>, \<open>json.loads\<close> and the paths of the host
  are parameters.
\<close>

section \<open>Arguments\<close>

definition is_lower :: "char \<Rightarrow> bool" where
  "is_lower c = (CHR ''a'' \<le> c \<and> c \<le> CHR ''z'')"

definition is_upper :: "char \<Rightarrow> bool" where
  "is_upper c = (CHR ''A'' \<le> c \<and> c \<le> CHR ''Z'')"

text \<open>\<open>[a-z0-9][a-z0-9.-]{1,61}[a-z0-9]\<close>, without two dots in a row\<close>

definition bucket_ok :: "string \<Rightarrow> bool" where
  "bucket_ok b =
     (3 \<le> length b \<and> length b \<le> 63 \<and>
      list_all (\<lambda>c. is_lower c \<or> is_digit c \<or> c = CHR ''.'' \<or> c = CHR ''-'') b \<and>
      (is_lower (hd b) \<or> is_digit (hd b)) \<and> (is_lower (last b) \<or> is_digit (last b)) \<and>
      \<not> list_ex (\<lambda>n. starts_with ''..'' (drop n b)) [0..<length b])"

fun split_on :: "char \<Rightarrow> string \<Rightarrow> string list" where
  "split_on q [] = [[]]"
| "split_on q (c # s) =
     (if c = q then [] # split_on q s
      else case split_on q s of [] \<Rightarrow> [[c]] | p # ps \<Rightarrow> (c # p) # ps)"

text \<open>\<open>_SEGMENT\<close> and the segments of a prefix\<close>

definition segment_ok :: "string \<Rightarrow> bool" where
  "segment_ok p =
     (p \<noteq> [] \<and> p \<noteq> ''.'' \<and> p \<noteq> ''..'' \<and>
      list_all (\<lambda>c. is_lower c \<or> is_upper c \<or> is_digit c \<or> c \<in> set ''._-'') p)"

definition prefix_ok :: "string \<Rightarrow> bool" where
  "prefix_ok p = (p \<noteq> [] \<and> list_all segment_ok (split_on (CHR ''/'') p))"

text \<open>What \<open>urlsplit\<close> tells of an endpoint; \<open>None\<close> is its \<open>ValueError\<close>.\<close>

record url =
  u_scheme :: string
  u_host :: "string option"
  u_username :: "string option"
  u_password :: "string option"
  u_port_ok :: bool

definition endpoint_ok :: "(string \<Rightarrow> url option) \<Rightarrow> string \<Rightarrow> bool" where
  "endpoint_ok urlsplit e =
     (case urlsplit e of
        None \<Rightarrow> False
      | Some u \<Rightarrow>
          u_scheme u \<in> {''http'', ''https''} \<and> u_host u \<notin> {None, Some []} \<and>
          u_username u = None \<and> u_password u = None \<and>
          CHR ''?'' \<notin> set e \<and> CHR ''#'' \<notin> set e \<and> CHR 0x5C \<notin> set e \<and> u_port_ok u)"

text \<open>A setting that must have a value, and the check of one name.\<close>

definition dict_get :: "pyval \<Rightarrow> (pyval \<times> pyval) list \<Rightarrow> pyval option" where
  "dict_get k items = map_of items k"

definition dict_set :: "pyval \<Rightarrow> pyval \<Rightarrow> (pyval \<times> pyval) list \<Rightarrow> (pyval \<times> pyval) list" where
  "dict_set k v items =
     (if k \<in> fst ` set items then map (\<lambda>x. if fst x = k then (k, v) else x) items else items @ [(k, v)])"

definition dict_pop :: "pyval \<Rightarrow> (pyval \<times> pyval) list \<Rightarrow> (pyval \<times> pyval) list" where
  "dict_pop k items = filter (\<lambda>x. fst x \<noteq> k) items"

definition pin :: "string \<Rightarrow> string \<Rightarrow> (pyval \<times> pyval) list \<Rightarrow> (pyval \<times> pyval) list res" where
  "pin name needed items =
     ebind (require (dict_get (PStr name) items \<in> {None, Some (PStr needed)}) ValidationError ''S3 requires a setting'') (\<lambda>_.
     Inr (dict_set (PStr name) (PStr needed) items))"

definition config_name_ok :: "(string \<Rightarrow> string) \<Rightarrow> pyval \<Rightarrow> bool" where
  "config_name_ok lower k =
     (case k of
        PStr n \<Rightarrow> n = lower n \<and> \<not> starts_with ''aws_'' n \<and> n \<notin> {''bucket_name'', ''endpoint_url'', ''endpoint_url_s3''}
      | _ \<Rightarrow> False)"

text \<open>The arguments of \<open>S3Storage\<close>, and what of the host they are checked with.\<close>

record s3_args =
  sa_bucket :: pyval
  sa_prefix :: pyval
  sa_config :: pyval
  sa_directory :: "string option"
  sa_storage_id :: "string option"
  sa_fresh :: bool

record s3_host =
  sh_urlsplit :: "string \<Rightarrow> url option"
  sh_lower :: "string \<Rightarrow> string"
  sh_coordinator :: "string \<Rightarrow> string"
  sh_loads :: "bytes \<Rightarrow> json option"

text \<open>The location and the settings of an \<open>S3Store\<close>.\<close>

record s3_location =
  sl_endpoint :: string
  sl_bucket :: string
  sl_prefix :: string

definition as_str :: "pyval \<Rightarrow> string option" where
  "as_str v = (case v of PStr s \<Rightarrow> Some s | _ \<Rightarrow> None)"

definition s3_settings :: "s3_host \<Rightarrow> string \<Rightarrow> pyval \<Rightarrow> (string \<times> (pyval \<times> pyval) list) res" where
  "s3_settings h bucket config =
     ebind (expect (as_dict config) ValidationError ''S3 config must explicitly specify endpoint'') (\<lambda>items.
     ebind (expect (case dict_get (PStr ''endpoint'') items of None \<Rightarrow> None | Some v \<Rightarrow> as_str v)
              ValidationError ''S3 endpoint must be an explicit HTTP(S) URL'') (\<lambda>e.
     ebind (require (list_all (\<lambda>c. 32 < (of_char c :: nat)) e) ValidationError
              ''S3 endpoint must be an explicit HTTP(S) URL'') (\<lambda>_.
     ebind (require (endpoint_ok (sh_urlsplit h) e) ValidationError ''Invalid S3 endpoint URL'') (\<lambda>_.
     ebind (pin ''copy_if_not_exists'' ''multipart'' items) (\<lambda>items.
     ebind (pin ''conditional_put'' ''etag'' items) (\<lambda>items.
     ebind (require (list_all (\<lambda>x. config_name_ok (sh_lower h) (fst x)) items) ValidationError
              ''Use canonical obstore S3 config keys'') (\<lambda>_.
     ebind (require (dict_get (PStr ''bucket'') items \<in> {None, Some (PStr bucket)}) ValidationError
              ''S3 config bucket conflicts with bucket argument'') (\<lambda>_.
     Inr (e, dict_set (PStr ''aws_endpoint_url_s3'') (PStr e) (dict_pop (PStr ''bucket'') items))))))))))"

text \<open>All checks before anything is touched.\<close>

definition s3_request :: "s3_host \<Rightarrow> s3_args \<Rightarrow> (s3_location \<times> string \<times> (pyval \<times> pyval) list) res" where
  "s3_request h a =
     ebind (expect (as_str (sa_bucket a)) ValidationError ''An explicit S3 bucket name is required'') (\<lambda>b.
     ebind (require (bucket_ok b) ValidationError ''An explicit S3 bucket name is required'') (\<lambda>_.
     ebind (expect (as_str (sa_prefix a)) ValidationError ''S3 prefix requires nonempty canonical safe path segments'') (\<lambda>p.
     ebind (require (prefix_ok p) ValidationError ''S3 prefix requires nonempty canonical safe path segments'') (\<lambda>_.
     ebind (s3_settings h b (sa_config a)) (\<lambda>(e, settings).
     ebind (require (case sa_storage_id a of None \<Rightarrow> True | Some i \<Rightarrow> sa_fresh a \<and> hex32 i) ValidationError
              ''Replica identity requires a fresh store and a valid identity'') (\<lambda>_.
     ebind (expect (case sa_directory a of Some [] \<Rightarrow> None | d \<Rightarrow> d) ValidationError
              ''A local coordination directory is required'') (\<lambda>d.
     Inr (\<lparr> sl_endpoint = e, sl_bucket = b, sl_prefix = p \<rparr>, d, settings))))))))"

section \<open>Identity markers\<close>

definition MARKER_LIMIT :: nat where
  "MARKER_LIMIT = 2048"

definition identity_field :: "(string \<times> json) list \<Rightarrow> string \<Rightarrow> string option" where
  "identity_field items k =
     (case text_field items k of None \<Rightarrow> None | Some s \<Rightarrow> if hex32 s then Some s else None)"

text \<open>\<open>_decode(raw, fields)\<close>: the fields of a marker, which must be the named ones\<close>

definition decode_marker :: "(bytes \<Rightarrow> json option) \<Rightarrow> string list \<Rightarrow> bytes \<Rightarrow> (string \<times> json) list res" where
  "decode_marker loads names raw =
     ebind (require (length raw \<le> MARKER_LIMIT) ValidationError ''Storage identity exceeds 2 KiB'') (\<lambda>_.
     ebind (expect (loads raw) PyValueError ''not JSON'') (\<lambda>j.
     ebind (require (distinct_fields j) ValidationError ''Duplicate storage identity field'') (\<lambda>_.
     case j of
       JObj items \<Rightarrow>
         ebind (require (set (map fst items) = set names \<and> map_of items ''version'' = Some (JInt 1) \<and>
                         identity_field items ''coordinator_id'' \<noteq> None) ValidationError ''Invalid storage identity'') (\<lambda>_.
         Inr items)
     | _ \<Rightarrow> raise ValidationError ''Invalid storage identity'')))"

text \<open>\<open>_encode(data)\<close>, of objects whose keys are sorted\<close>

definition encode_marker :: "json \<Rightarrow> bytes res" where
  "encode_marker j =
     (let raw = dumps (\<lambda>_. []) j
      in ebind (require (length raw \<le> MARKER_LIMIT) ValidationError ''Storage identity exceeds 2 KiB'') (\<lambda>_. Inr raw))"

definition location_json :: "s3_location \<Rightarrow> json" where
  "location_json l =
     JObj [(''bucket'', JStr (sl_bucket l)), (''endpoint'', JStr (sl_endpoint l)), (''prefix'', JStr (sl_prefix l))]"

definition local_marker :: "s3_location \<Rightarrow> string \<Rightarrow> string \<Rightarrow> json" where
  "local_marker l cid sid =
     JObj [(''coordinator_id'', JStr cid), (''location'', location_json l), (''storage_id'', JStr sid), (''version'', JInt 1)]"

definition remote_marker :: "string \<Rightarrow> string \<Rightarrow> json" where
  "remote_marker cid sid = JObj [(''coordinator_id'', JStr cid), (''id'', JStr sid), (''version'', JInt 1)]"

definition LOCAL_FIELDS :: "string list" where
  "LOCAL_FIELDS = [''version'', ''location'', ''storage_id'', ''coordinator_id'']"

definition REMOTE_FIELDS :: "string list" where
  "REMOTE_FIELDS = [''version'', ''id'', ''coordinator_id'']"

definition REMOTE_MARKER :: string where
  "REMOTE_MARKER = ''meldstore-storage.json''"

text \<open>Two locations are the same object, whatever the order of their fields.\<close>

definition same_location :: "s3_location \<Rightarrow> json option \<Rightarrow> bool" where
  "same_location l j =
     (case j of
        Some (JObj items) \<Rightarrow>
          set (map fst items) = {''bucket'', ''endpoint'', ''prefix''} \<and> text_field items ''bucket'' = Some (sl_bucket l) \<and>
          text_field items ''endpoint'' = Some (sl_endpoint l) \<and> text_field items ''prefix'' = Some (sl_prefix l)
      | _ \<Rightarrow> False)"

section \<open>Opening\<close>

text \<open>The coordination directory, its marker, and the objects under the remote prefix.\<close>

record s3_state =
  s3_made :: bool
  s3_marker :: "bytes option"
  s3_remote :: root

datatype s3_point = AtStore | AtDirectory | AtGate | AtRead | AtList | AtLocal | AtRemote | AtPublished

definition s3_error :: failure where
  "s3_error = Raised (Err StorageError ''Could not initialize S3 storage; identity artifacts retained'')"

text \<open>Every exception but an interrupt leaves as \<open>StorageError\<close>.\<close>

definition as_storage_error :: "('s, 'a) act \<Rightarrow> ('s, 'a) act" where
  "as_storage_error m s =
     (case m s of
        (s', Inl Interrupt) \<Rightarrow> (s', Inl Interrupt)
      | (s', Inl f) \<Rightarrow> (s', Inl s3_error)
      | (s', Inr x) \<Rightarrow> (s', Inr x))"

definition make_directory :: "bool \<Rightarrow> (s3_state, unit) act" where
  "make_directory fresh s =
     (if fresh \<and> s3_made s then (s, Inl s3_error) else (s\<lparr> s3_made := True \<rparr>, Inr ()))"

text \<open>A local marker that is read: the storage identity, when the location and coordinator are ours.\<close>

definition read_local :: "s3_host \<Rightarrow> s3_location \<Rightarrow> string \<Rightarrow> bytes \<Rightarrow> string res" where
  "read_local h l cid raw =
     ebind (decode_marker (sh_loads h) LOCAL_FIELDS (take (MARKER_LIMIT + 1) raw)) (\<lambda>items.
     ebind (expect (identity_field items ''storage_id'') ValidationError ''S3 coordination identity/location mismatch'') (\<lambda>sid.
     ebind (require (same_location l (map_of items ''location'') \<and> text_field items ''coordinator_id'' = Some cid)
              ValidationError ''S3 coordination identity/location mismatch'') (\<lambda>_. Inr sid)))"

text \<open>\<open>_remote_identity()\<close>\<close>

definition remote_identity :: "s3_host \<Rightarrow> root \<Rightarrow> (string \<times> string) res" where
  "remote_identity h r =
     ebind (expect (r REMOTE_MARKER) PyException ''object not found'') (\<lambda>raw.
     ebind (require (length raw \<le> MARKER_LIMIT) ValidationError ''Remote storage identity exceeds 2 KiB'') (\<lambda>_.
     ebind (decode_marker (sh_loads h) REMOTE_FIELDS raw) (\<lambda>items.
     ebind (expect (identity_field items ''id'') ValidationError ''Invalid remote storage identity'') (\<lambda>sid.
     ebind (expect (text_field items ''coordinator_id'') ValidationError ''Invalid storage identity'') (\<lambda>cid.
     Inr (cid, sid))))))"

text \<open>The remote marker is created, never replaced.\<close>

definition put_create :: "string \<Rightarrow> bytes \<Rightarrow> s3_state \<Rightarrow> s3_state \<times> (failure + unit)" where
  "put_create key raw s =
     (if s3_remote s key \<noteq> None then (s, Inl s3_error)
      else (s\<lparr> s3_remote := (s3_remote s)(key \<mapsto> raw) \<rparr>, Inr ()))"

definition adopt :: "s3_host \<Rightarrow> (s3_point \<Rightarrow> failure option) \<Rightarrow> s3_location \<Rightarrow> string \<Rightarrow> bytes \<Rightarrow> (s3_state, string) act" where
  "adopt h stop l cid raw =
     abind (mayfail (stop AtRead)) (\<lambda>_.
     abind (calc (read_local h l cid raw)) (\<lambda>sid s.
     abind (calc (remote_identity h (s3_remote s))) (\<lambda>remote.
     abind (calc (require (remote = (cid, sid)) ValidationError ''Remote S3 identity does not match local coordinator'')) (\<lambda>_.
     give sid)) s))"

text \<open>
  A new store: an empty prefix, the local marker, then the remote one. A write of the local marker
  that fails leaves the part \<open>part\<close> of it.
\<close>

definition found ::
  "s3_host \<Rightarrow> (s3_point \<Rightarrow> failure option) \<Rightarrow> nat option \<Rightarrow> string \<Rightarrow> bytes \<Rightarrow> (s3_state, string) act" where
  "found h stop part cid raw =
     abind (mayfail (stop AtList)) (\<lambda>_ s.
     abind (calc (require (s3_remote s = Map.empty) ValidationError ''New S3 storage requires an empty prefix'')) (\<lambda>_.
     abind (calc (decode_marker (sh_loads h) LOCAL_FIELDS raw)) (\<lambda>items.
     abind (calc (expect (text_field items ''storage_id'') PyKeyError ''storage_id'')) (\<lambda>sid.
     abind (update (\<lambda>s. s\<lparr> s3_marker := Some (case part of None \<Rightarrow> raw | Some n \<Rightarrow> take n raw) \<rparr>)) (\<lambda>_.
     abind (mayfail (if part = None then stop AtLocal else Some s3_error)) (\<lambda>_.
     abind (mayfail (stop AtRemote)) (\<lambda>_.
     abind (calc (encode_marker (remote_marker cid sid))) (\<lambda>marker.
     abind (put_create REMOTE_MARKER marker) (\<lambda>_.
     abind (mayfail (stop AtPublished)) (\<lambda>_. give sid))))))))) s)"

text \<open>\<open>S3Storage.__init__\<close>; \<open>fresh_id\<close> is \<open>uuid4().hex\<close>.\<close>

definition s3_open ::
  "s3_host \<Rightarrow> (s3_point \<Rightarrow> failure option) \<Rightarrow> nat option \<Rightarrow> string \<Rightarrow> s3_args \<Rightarrow> (s3_state, string) act" where
  "s3_open h stop part fresh_id a =
     abind (calc (s3_request h a)) (\<lambda>(l, dir, settings).
     let cid = sh_coordinator h dir; sid = (case sa_storage_id a of None \<Rightarrow> fresh_id | Some i \<Rightarrow> i) in
     abind (calc (encode_marker (local_marker l cid sid))) (\<lambda>raw.
     as_storage_error
       (abind (mayfail (stop AtStore)) (\<lambda>_.
        abind (make_directory (sa_fresh a)) (\<lambda>_.
        abind (mayfail (stop AtGate)) (\<lambda>_ s.
        (case s3_marker s of
           Some m \<Rightarrow> adopt h stop l cid m s
         | None \<Rightarrow> found h stop part cid raw s)))))))"

section \<open>Objects\<close>

text \<open>
  \<open>upload(path, key)\<close>. How far a transfer comes: everything, nothing, the staging object, or the copy
  with the staging object left behind.
\<close>

datatype s3_transfer = S3Done | S3Nothing | S3Staged | S3Copied

definition s3_upload :: "s3_transfer \<Rightarrow> string \<Rightarrow> bytes \<Rightarrow> string \<Rightarrow> root \<Rightarrow> root \<times> unit res" where
  "s3_upload t stage b key r =
     (if \<not> object_key key then (r, raise ValidationError ''Invalid MeldStore object key'')
      else if b = []
      then (if t \<noteq> S3Nothing \<and> r key = None
            then (r(key \<mapsto> []), if t = S3Done then Inr () else raise StorageError ''S3 upload failed'')
            else (r, raise StorageError ''S3 upload failed''))
      else if t = S3Nothing then (r, raise StorageError ''S3 upload failed'')
      else if t = S3Staged \<or> r key \<noteq> None then (r(stage \<mapsto> b), raise StorageError ''S3 upload failed'')
      else if t = S3Copied then (r(stage \<mapsto> b, key \<mapsto> b), raise StorageError ''S3 upload failed'')
      else ((r(key \<mapsto> b))(stage := None), Inr ()))"

text \<open>\<open>cleanup_key\<close> of S3 storage: there are no links to follow.\<close>

definition s3_cleanup_key :: "pyval \<Rightarrow> string res" where
  "s3_cleanup_key = cleanup_key (\<lambda>_. False)"

section \<open>Laws of the uploads\<close>

lemma s3_upload_stored:
  assumes "s3_upload t stage b key r = (r', Inr u)" "starts_with ''staging/'' stage"
  shows "r' key = Some b"
  using assms staging_not_object [of key] by (auto simp: s3_upload_def split: if_splits)

lemma s3_upload_keeps:
  assumes "s3_upload t stage b key r = (r', x)" "starts_with ''staging/'' stage" "\<not> starts_with ''staging/'' k" "r k = Some v"
  shows "r' k = Some v"
  using assms by (auto simp: s3_upload_def split: if_splits)

definition s3_put :: "(string \<Rightarrow> s3_transfer) \<Rightarrow> (string \<Rightarrow> string) \<Rightarrow> string \<Rightarrow> bytes \<Rightarrow> root \<Rightarrow> root \<times> unit res" where
  "s3_put t fresh key b r = s3_upload (t key) (staged_under fresh key) b key r"

interpretation s3_target: object_target "s3_put t fresh" for t fresh
  by unfold_locales
    (auto simp: s3_put_def intro: staged_under_staging dest: s3_upload_stored elim: s3_upload_keeps)

section \<open>What an opening leaves\<close>

text \<open>Nothing that was there is changed, and a storage that opens has two markers that agree.\<close>

definition extends_s3 :: "s3_state \<Rightarrow> s3_state \<Rightarrow> bool" where
  "extends_s3 s s' =
     ((s3_made s \<longrightarrow> s3_made s') \<and> (\<forall>m. s3_marker s = Some m \<longrightarrow> s3_marker s' = Some m) \<and>
      (\<forall>k v. s3_remote s k = Some v \<longrightarrow> s3_remote s' k = Some v))"

definition identified :: "s3_host \<Rightarrow> s3_location \<Rightarrow> string \<Rightarrow> string \<Rightarrow> s3_state \<Rightarrow> bool" where
  "identified h l cid sid s =
     ((\<exists>m. s3_marker s = Some m \<and> read_local h l cid m = Inr sid) \<and> remote_identity h (s3_remote s) = Inr (cid, sid))"

lemma extends_s3_refl [simp]: "extends_s3 s s"
  by (simp add: extends_s3_def)

lemma as_storage_error_Inr: "(as_storage_error m s = (s', Inr x)) = (m s = (s', Inr x))"
  by (auto simp: as_storage_error_def split: prod.splits sum.splits failure.splits)

lemma as_storage_error_state: "fst (as_storage_error m s) = fst (m s)"
  by (auto simp: as_storage_error_def split: prod.splits sum.splits failure.splits)

lemma adopt_state: "fst (adopt h stop l cid raw s) = s"
  by (simp add: adopt_def abind_def mayfail_def calc_def give_def split: option.splits sum.splits prod.splits)

lemma adopt_Inr:
  "(adopt h stop l cid raw s = (s', Inr sid)) =
     (stop AtRead = None \<and> s' = s \<and> read_local h l cid raw = Inr sid \<and> remote_identity h (s3_remote s) = Inr (cid, sid))"
  by (auto simp: adopt_def abind_Inr)

lemma found_Inr:
  assumes "found h stop part cid raw s = (s', Inr sid)"
  obtains items marker where "s3_remote s = Map.empty" "decode_marker (sh_loads h) LOCAL_FIELDS raw = Inr items"
    "text_field items ''storage_id'' = Some sid" "encode_marker (remote_marker cid sid) = Inr marker"
    "s' = s\<lparr> s3_marker := Some raw, s3_remote := [REMOTE_MARKER \<mapsto> marker] \<rparr>"
  using assms that
  by (auto simp: found_def abind_Inr put_create_def split: if_splits option.splits)

lemma found_extends:
  assumes "s3_marker s = None"
  shows "extends_s3 s (fst (found h stop part cid raw s))"
proof -
  have "triple (\<lambda>t. extends_s3 s t \<and> s3_marker t = None) (found h stop part cid raw) (\<lambda>_. extends_s3 s) (extends_s3 s)"
    by (rule tripleI)
      (auto simp: found_def abind_Inr abind_Inl put_create_def extends_s3_def split: if_splits option.splits)
  from triple_state [OF this] show ?thesis using assms by simp
qed

lemma s3_open_extends: "extends_s3 s (fst (s3_open h stop part fid a s))"
proof -
  have d: "extends_s3 s (s\<lparr> s3_made := True \<rparr>)" by (simp add: extends_s3_def)
  have t: "extends_s3 s s1 \<Longrightarrow> extends_s3 s1 s2 \<Longrightarrow> extends_s3 s s2" for s1 s2 by (auto simp: extends_s3_def)
  have b: "extends_s3 s (fst (case s3_marker s1 of Some m \<Rightarrow> adopt h stop l cid m s1 | None \<Rightarrow> found h stop part cid raw s1))"
    if "extends_s3 s s1" for l cid raw s1
    using that t [OF that found_extends] by (simp add: adopt_state split: option.split)
  have "extends_s3 s (fst (abind (mayfail (stop AtStore)) (\<lambda>_.
        abind (make_directory (sa_fresh a)) (\<lambda>_.
        abind (mayfail (stop AtGate)) (\<lambda>_ s.
        (case s3_marker s of Some m \<Rightarrow> adopt h stop l cid m s | None \<Rightarrow> found h stop part cid raw s)))) s))" for l cid raw
    using b [of s] b [OF d]
    by (simp add: abind_def mayfail_def make_directory_def d split: option.splits)
  then show ?thesis
    by (simp add: s3_open_def Let_def abind_def calc_def as_storage_error_state split: sum.splits prod.splits)
qed

text \<open>The markers that a successful opening leaves.\<close>

definition round_trips :: "s3_host \<Rightarrow> json \<Rightarrow> bool" where
  "round_trips h j = (sh_loads h (dumps (\<lambda>_. []) j) = Some j)"

lemma encode_marker_Inr: "(encode_marker j = Inr raw) = (raw = dumps (\<lambda>_. []) j \<and> length raw \<le> MARKER_LIMIT)"
  by (auto simp: encode_marker_def Let_def)

lemma found_identified:
  assumes f: "found h stop part cid raw s = (s', Inr sid)" and e: "encode_marker (local_marker l cid sid0) = Inr raw"
    and rt: "round_trips h (local_marker l cid sid0)" "round_trips h (remote_marker cid sid0)" and sid0: "hex32 sid0"
  shows "sid = sid0 \<and> identified h l cid sid s'"
proof -
  obtain items marker where i: "decode_marker (sh_loads h) LOCAL_FIELDS raw = Inr items"
    "text_field items ''storage_id'' = Some sid" "encode_marker (remote_marker cid sid) = Inr marker"
    "s' = s\<lparr> s3_marker := Some raw, s3_remote := [REMOTE_MARKER \<mapsto> marker] \<rparr>"
    using found_Inr [OF f] by metis
  have l: "sh_loads h raw = Some (local_marker l cid sid0)" "length raw \<le> MARKER_LIMIT"
    using e rt(1) unfolding encode_marker_Inr round_trips_def by auto
  have items: "JObj items = local_marker l cid sid0" "identity_field items ''coordinator_id'' \<noteq> None"
    using i(1) l by (auto simp: decode_marker_def split: json.splits)
  then have sid: "sid = sid0" using i(2) by (simp add: local_marker_def text_field_def)
  have cid: "hex32 cid" using items by (auto simp: local_marker_def identity_field_def text_field_def split: if_splits)
  have m: "sh_loads h marker = Some (remote_marker cid sid)" "length marker \<le> MARKER_LIMIT"
    using i(3) rt(2) unfolding encode_marker_Inr round_trips_def sid by auto
  have "read_local h l cid raw = Inr sid"
    using i(1) items sid sid0 l(2)
    by (simp add: read_local_def local_marker_def identity_field_def text_field_def same_location_def location_json_def insert_commute)
  moreover have "remote_identity h (s3_remote s') = Inr (cid, sid)"
    using m cid sid sid0
    by (simp add: remote_identity_def i(4) decode_marker_def remote_marker_def REMOTE_FIELDS_def identity_field_def
        text_field_def insert_commute)
  ultimately show ?thesis by (simp add: identified_def sid i(4))
qed

text \<open>An opening, by what it did.\<close>

definition chosen_id :: "s3_args \<Rightarrow> string \<Rightarrow> string" where
  "chosen_id a fid = (case sa_storage_id a of None \<Rightarrow> fid | Some i \<Rightarrow> i)"

lemma s3_open_Inr:
  assumes "s3_open h stop part fid a s = (s', Inr sid)"
  obtains l dir settings raw s1 where "s3_request h a = Inr (l, dir, settings)" "s3_made s1"
    "s1 = s\<lparr> s3_made := True \<rparr>"
    "encode_marker (local_marker l (sh_coordinator h dir) (chosen_id a fid)) = Inr raw"
    "case s3_marker s1 of
       Some m \<Rightarrow> adopt h stop l (sh_coordinator h dir) m s1 = (s', Inr sid)
     | None \<Rightarrow> found h stop part (sh_coordinator h dir) raw s1 = (s', Inr sid)"
proof -
  obtain l dir settings where q: "s3_request h a = Inr (l, dir, settings)"
    using assms by (auto simp: s3_open_def abind_Inr)
  obtain raw s1 where "encode_marker (local_marker l (sh_coordinator h dir) (chosen_id a fid)) = Inr raw"
    "make_directory (sa_fresh a) s = (s1, Inr ())"
    "(case s3_marker s1 of Some m \<Rightarrow> adopt h stop l (sh_coordinator h dir) m s1
      | None \<Rightarrow> found h stop part (sh_coordinator h dir) raw s1) = (s', Inr sid)"
    using assms by (auto simp: s3_open_def abind_Inr q Let_def as_storage_error_Inr chosen_id_def)
  with q that show ?thesis by (auto simp: make_directory_def split: if_splits option.splits)
qed

lemma s3_open_identified:
  assumes o: "s3_open h stop part fid a s = (s', Inr sid)" and q: "s3_request h a = Inr (l, dir, settings)"
    and id: "hex32 (chosen_id a fid)"
    and rt: "round_trips h (local_marker l (sh_coordinator h dir) (chosen_id a fid))"
      "round_trips h (remote_marker (sh_coordinator h dir) (chosen_id a fid))"
  shows "identified h l (sh_coordinator h dir) sid s' \<and> s3_made s'"
proof (rule s3_open_Inr [OF o])
  fix l' dir' settings' raw s1
  assume q': "s3_request h a = Inr (l', dir', settings')"
    and s1': "s3_made s1" "s1 = s\<lparr> s3_made := True \<rparr>"
    "encode_marker (local_marker l' (sh_coordinator h dir') (chosen_id a fid)) = Inr raw"
    "case s3_marker s1 of
       Some m \<Rightarrow> adopt h stop l' (sh_coordinator h dir') m s1 = (s', Inr sid)
     | None \<Rightarrow> found h stop part (sh_coordinator h dir') raw s1 = (s', Inr sid)"
  have "l' = l" "dir' = dir" using q q' by simp_all
  note s1 = s1' [unfolded this]
  show ?thesis
  proof (cases "s3_marker s1")
    case None
    then have f: "found h stop part (sh_coordinator h dir) raw s1 = (s', Inr sid)" using s1(4) by simp
    obtain marker where "s' = s1\<lparr> s3_marker := Some raw, s3_remote := [REMOTE_MARKER \<mapsto> marker] \<rparr>"
      using found_Inr [OF f] by metis
    then show ?thesis using found_identified [OF f s1(3) rt id] s1(1) by auto
  next
    case (Some m)
    then show ?thesis using s1(1,4) by (auto simp: adopt_Inr identified_def)
  qed
qed

lemma hex_text: "hex32 s \<Longrightarrow> json_string s = CHR 0x22 # s @ [CHR 0x22]"
proof (rule json_string_plain)
  have "list_all plain_char ''0123456789abcdef''" by code_simp
  moreover assume "hex32 s"
  ultimately show "list_all plain_char s"
    unfolding hex32_def is_hex_digit_def list_all_iff by blast
qed

lemma length_local_marker:
  "hex32 s \<Longrightarrow> hex32 t \<Longrightarrow> length (dumps (\<lambda>_. []) (local_marker l cid s)) = length (dumps (\<lambda>_. []) (local_marker l cid t))"
  by (simp add: local_marker_def hex_text) (simp add: hex32_def)

lemma s3_request_fresh:
  "s3_request h a = Inr x \<Longrightarrow> s3_request h (a\<lparr> sa_fresh := False, sa_storage_id := None \<rparr>) = Inr x"
  by (auto simp: s3_request_def split: option.splits)

text \<open>Where the markers agree, an opening without failures adopts them and changes nothing.\<close>

lemma identified_opens:
  assumes i: "identified h l (sh_coordinator h dir) sid s" and m: "s3_made s" and q: "s3_request h a = Inr (l, dir, settings)"
    and a: "\<not> sa_fresh a" "encode_marker (local_marker l (sh_coordinator h dir) (chosen_id a fid)) = Inr raw"
  shows "s3_open h (\<lambda>_. None) part fid a s = (s, Inr sid)"
proof -
  obtain b where b: "s3_marker s = Some b" using i by (auto simp: identified_def)
  have "adopt h (\<lambda>_. None) l (sh_coordinator h dir) b s = (s, Inr sid)"
    using i b by (simp add: adopt_Inr identified_def)
  moreover have "s\<lparr> s3_made := True \<rparr> = s" using m by simp
  ultimately show ?thesis
    using q a b by (auto simp: s3_open_def abind_Inr Let_def as_storage_error_Inr make_directory_def chosen_id_def)
qed

end
