(* ===== verification/S3Properties.thy ===== *)
theory S3Properties
  imports S3
begin

text \<open>
  What the identity protocol of S3 storage gives: openings never change what is there, and a storage
  that was opened is found again under its identity.
\<close>














end
