(* ===== verification/BackupChecks.thy ===== *)
theory BackupChecks
  imports JsonText Maintenance
begin

text \<open>
  The checks and the texts of a backup (\<^verbatim>\<open>backup.py\<close>): paths, the application's
  description, the examination of a catalog snapshot (\<open>_entries\<close>) and the portable SQL export.
\<close>

section \<open>Paths\<close>

text \<open>
  An absolute path is its components, as \<open>os.path.abspath\<close> gives them; the file system tells
  which paths exist, are directories, and are symbolic links or junctions.
\<close>

type_synonym path = "string list"

record filesystem =
  fs_linked :: "path \<Rightarrow> bool"
  fs_exists :: "path \<Rightarrow> bool"
  fs_dir :: "path \<Rightarrow> bool"

definition relative_to :: "path \<Rightarrow> path \<Rightarrow> bool" where
  "relative_to p q = (take (length q) p = q)"

definition backup_path :: "filesystem \<Rightarrow> path \<Rightarrow> path res" where
  "backup_path fs p =
     ebind (require (\<not> list_ex (\<lambda>n. fs_linked fs (take n p)) [0..<Suc (length p)]) ValidationError
              ''Backup/restore paths must not traverse symlinks or junctions'') (\<lambda>_. Inr p)"

fun apart :: "filesystem \<Rightarrow> path \<Rightarrow> path list \<Rightarrow> unit res" where
  "apart fs p [] = Inr ()"
| "apart fs p (s # ss) =
     ebind (backup_path fs s) (\<lambda>s.
     ebind (require (\<not> relative_to p s \<and> \<not> relative_to s p) ValidationError
              ''Destination must not overlap source paths'') (\<lambda>_. apart fs p ss))"

text \<open>\<open>_destination(value, *sources)\<close>\<close>

definition destination :: "filesystem \<Rightarrow> path \<Rightarrow> path list \<Rightarrow> path res" where
  "destination fs p sources =
     ebind (backup_path fs p) (\<lambda>p.
     ebind (require (\<not> fs_exists fs p) ConflictError ''Destination must not exist, even if empty'') (\<lambda>_.
     ebind (require (fs_dir fs (butlast p)) ValidationError ''Destination parent must exist'') (\<lambda>_.
     ebind (apart fs p sources) (\<lambda>_. Inr p))))"

section \<open>The application's description\<close>

fun nonempty_text :: "json \<Rightarrow> bool" where
  "nonempty_text (JStr s) = (s \<noteq> [])"
| "nonempty_text (JSurrogate s) = True"
| "nonempty_text j = False"

definition obj_has :: "(json \<Rightarrow> bool) \<Rightarrow> json \<Rightarrow> string \<Rightarrow> bool" where
  "obj_has ok j key =
     (case j of
        JObj items \<Rightarrow> (case map_of items key of None \<Rightarrow> False | Some v \<Rightarrow> ok v)
      | _ \<Rightarrow> False)"

text \<open>\<open>_application(value)\<close>\<close>

definition application :: "interpreter \<Rightarrow> pyval \<Rightarrow> json res" where
  "application py v =
     ebind (descriptor_json py v) (\<lambda>j.
     ebind (require (obj_has nonempty_text j ''id'' \<and> obj_has nonempty_text j ''schema_revision'')
              ValidationError ''application requires nonempty id and schema_revision strings'') (\<lambda>_. Inr j))"

section \<open>The examination of a catalog\<close>

text \<open>The state of the tables: no operation is unfinished.\<close>

definition finished_prepared :: "db \<Rightarrow> prepared_row \<Rightarrow> bool" where
  "finished_prepared d p =
     (p_token p \<in> o_token ` set (ms_objects d) \<or>
      list_ex (\<lambda>g. g_token g = Some (p_token p) \<and> g_state g = Done) (ms_gc d))"

definition finished :: "db \<Rightarrow> bool" where
  "finished d =
     (list_all (\<lambda>b. b_state b = Ready) (ms_blobs d) \<and> list_all (\<lambda>g. g_state g = Done) (ms_gc d) \<and>
      list_all (finished_prepared d) (ms_prepared d))"

definition one_root :: "string \<Rightarrow> db \<Rightarrow> bool" where
  "one_root sid d =
     (list_all (\<lambda>p. p_storage p = sid) (ms_prepared d) \<and> list_all (\<lambda>g. g_storage g = sid) (ms_gc d))"

definition live_unqueued :: "db \<Rightarrow> bool" where
  "live_unqueued d = list_all (\<lambda>ob. Some (o_token ob) \<notin> g_token ` set (ms_gc d)) (ms_objects d)"

definition same_schema :: "db \<Rightarrow> bool" where
  "same_schema d =
     list_all (\<lambda>b. list_all (\<lambda>ob. list_all (\<lambda>p.
         o_blob ob = b_id b \<and> p_token p = o_token ob \<longrightarrow> p_schema p = b_schema b \<and> p_version p \<le> b_version b)
       (ms_prepared d)) (ms_objects d)) (ms_blobs d)"

text \<open>One row of the schema registry, with its enrolments, its objects and its rows.\<close>

definition check_registered :: "db \<Rightarrow> schema_row \<Rightarrow> unit res" where
  "check_registered d r =
     ebind (decode (sr_definition r)) (\<lambda>s.
     ebind (require (sc_name s = sr_name r \<and> sc_version s = sr_version r \<and> table_name s = sr_table r \<and>
                     schema_definition s = sr_definition r) IntegrityError
              ''Invalid schema registry definition'') (\<lambda>_.
     ebind (require ((sc_name s, sc_version s) \<in> set (ms_payload_schemas d) \<and> sc_name s \<in> set (ms_lifecycle_schemas d))
              IntegrityError ''Schema is not fully enrolled for payload/lifecycle operations'') (\<lambda>_.
     ebind (if evolved d (sc_name s) then verify_layout d (sc_name s) else verify_objects (schema_objects s) d) (\<lambda>_.
     ebind (verify_objects [ready_guard s (evolved d (sc_name s))] d) (\<lambda>_.
     require (list_all (\<lambda>b. b_schema b = sc_name s \<longrightarrow>
                (case data_row_of (table_name s) (b_id b) d of
                   None \<Rightarrow> False | Some m \<Rightarrow> d_schema_version m = b_version b)) (ms_blobs d))
       IntegrityError ''Blob metadata is missing or inconsistent'')))))"

record entry =
  n_id :: string
  n_token :: string
  n_storage :: string
  n_key :: string
  n_size :: int
  n_digest :: string

definition entry_of :: "blob_row \<Rightarrow> prepared_row \<Rightarrow> entry" where
  "entry_of b p =
     \<lparr> n_id = b_id b, n_token = p_token p, n_storage = p_storage p, n_key = p_key p, n_size = p_size p,
       n_digest = p_digest p \<rparr>"

text \<open>The two left joins, and the check of the association that they find.\<close>

definition read_entry :: "string \<Rightarrow> db \<Rightarrow> blob_row \<Rightarrow> entry res" where
  "read_entry sid d b =
     (case prepared_of (b_id b) d of
        None \<Rightarrow> raise IntegrityError ''Invalid or missing object association''
      | Some p \<Rightarrow>
          ebind (require (p_storage p = sid \<and> object_key (p_key p)) IntegrityError
                   ''Invalid or missing object association'') (\<lambda>_. Inr (entry_of b p)))"

text \<open>\<open>_entries(connection, storage_id, max_entries)\<close> on a readable snapshot\<close>

definition entries_of :: "db \<Rightarrow> string \<Rightarrow> int \<Rightarrow> entry list res" where
  "entries_of d sid max_entries =
     ebind (require (foreign_key_check d = []) IntegrityError ''Catalog has invalid SQL references'') (\<lambda>_.
     ebind (verify_objects (own core_names) d) (\<lambda>_.
     ebind (verify_objects (own payload_names) d) (\<lambda>_.
     ebind (verify_lifecycle d) (\<lambda>_.
     ebind (if has_object d ''ms_encoding_format'' then verify_encodings d
            else require (\<not> list_ex (has_object d) encoding_names) IntegrityError ''Partial encoding extension'') (\<lambda>_.
     ebind (require (filter (\<lambda>x. fst x = ''ms_format'') (formats d) = [(''ms_format'', 1)] \<and>
                     filter (\<lambda>x. fst x = ''ms_payload_format'') (formats d) = [(''ms_payload_format'', 1)])
              IntegrityError ''Unsupported catalog format'') (\<lambda>_.
     ebind (require (finished d) ConflictError
              ''Resolve prepared/publication operations and finish cleanup before backup'') (\<lambda>_.
     ebind (require (has_object d ''ms_migrations'' \<longrightarrow> list_all (\<lambda>j. \<not> j_running j) (ms_migrations d)) ConflictError
              ''Finish metadata migrations before backup'') (\<lambda>_.
     ebind (require (one_root sid d) ValidationError ''S06 backup supports exactly one logical storage root'') (\<lambda>_.
     ebind (require (live_unqueued d) IntegrityError ''Live object is also queued for cleanup'') (\<lambda>_.
     ebind (require (same_schema d) IntegrityError ''Prepared object belongs to a different schema'') (\<lambda>_.
     ebind (require (int (length (ms_schemas d)) \<le> max_entries) ValidationError ''Schema count exceeds max_entries'') (\<lambda>_.
     ebind (emapM (check_registered d) (ms_schemas d)) (\<lambda>_.
     ebind (require (int (length (ms_blobs d)) \<le> max_entries) ValidationError ''Object count exceeds max_entries'') (\<lambda>_.
     emapM (read_entry sid d) (sort_key b_id (ms_blobs d))))))))))))))))"

section \<open>The portable SQL export\<close>

text \<open>
  What the export reads from the connection: the rows of \<open>sqlite_master\<close> with their SQL,
  \<open>table_list\<close> (an ordinary table, without rowid), \<open>table_xinfo\<close> (name and hidden flag), the
  rows of a table for the named columns, and \<open>sqlite_sequence\<close>.
\<close>

record sql_source =
  ss_objects :: "(string \<times> string \<times> string) list"
  ss_tables :: "string \<Rightarrow> bool \<times> bool"
  ss_columns :: "string \<Rightarrow> (string \<times> int) list"
  ss_rows :: "string \<Rightarrow> string list \<Rightarrow> pyval list list"
  ss_sequence :: "pyval list list"

text \<open>\<open>_sql_name\<close> and \<open>_sql_value\<close>\<close>

definition sql_name :: "string \<Rightarrow> string" where
  "sql_name n = quoted (CHR 0x22) n"

fun sql_value :: "(rat \<Rightarrow> string) \<Rightarrow> pyval \<Rightarrow> string" where
  "sql_value frepr PNone = ''NULL''"
| "sql_value frepr (PStr s) = ''CAST(X'' @ [CHR 0x27] @ hex s @ [CHR 0x27] @ '' AS TEXT)''"
| "sql_value frepr (PBytes s) = ''X'' @ [CHR 0x27] @ hex s @ [CHR 0x27]"
| "sql_value frepr (PFloat (Infinity pos)) = (if pos then ''9e999'' else ''-9e999'')"
| "sql_value frepr (PFloat (Finite q)) = frepr q"
| "sql_value frepr (PFloat NaN) = ''nan''"
| "sql_value frepr (PInt n) = int_text n"
| "sql_value frepr v = []"

text \<open>The columns that are exported, with an unshadowed alias of an implicit rowid in front.\<close>

definition rowid_alias :: "(string \<times> int) list \<Rightarrow> string option" where
  "rowid_alias cols = find (\<lambda>a. a \<notin> (\<lambda>c. ascii_lower (fst c)) ` set cols) [''rowid'', ''_rowid_'', ''oid'']"

definition export_columns :: "sql_source \<Rightarrow> string \<Rightarrow> string list" where
  "export_columns src t =
     (let cols = ss_columns src t; shown = map fst (filter (\<lambda>c. snd c = 0) cols)
      in if snd (ss_tables src t) then shown
         else case rowid_alias cols of Some a \<Rightarrow> a # shown | None \<Rightarrow> shown)"

definition NL :: string where "NL = [CHR 0x0A]"

definition insert_text :: "(rat \<Rightarrow> string) \<Rightarrow> string \<Rightarrow> string \<Rightarrow> pyval list \<Rightarrow> string" where
  "insert_text frepr target names vs =
     ''INSERT INTO '' @ target @ names @ '' VALUES('' @ joined_by '','' (map (sql_value frepr) vs) @ '');'' @ NL"

definition export_table :: "(rat \<Rightarrow> string) \<Rightarrow> sql_source \<Rightarrow> string \<times> string \<Rightarrow> string" where
  "export_table frepr src x =
     (let cols = export_columns src (fst x);
          names = ''('' @ joined_by '','' (map sql_name cols) @ '')''
      in snd x @ '';'' @ NL @ concat (map (insert_text frepr (sql_name (fst x)) names) (ss_rows src (fst x) cols)))"

definition exported_tables :: "sql_source \<Rightarrow> (string \<times> string) list" where
  "exported_tables src =
     map snd (filter (\<lambda>(kind, n, sql). kind = ''table'' \<and> \<not> starts_with ''sqlite_'' n) (ss_objects src))"

text \<open>\<open>_export_sql(connection, path)\<close>: the text of the file\<close>

definition export_sql :: "(rat \<Rightarrow> string) \<Rightarrow> sql_source \<Rightarrow> string res" where
  "export_sql frepr src =
     ebind (require (list_all (\<lambda>x. fst (ss_tables src (fst x))) (exported_tables src)) ValidationError
              ''S06 portable export supports ordinary SQLite tables, not virtual tables'') (\<lambda>_.
     Inr (''PRAGMA foreign_keys=OFF;'' @ NL @ ''BEGIN TRANSACTION;'' @ NL @
          concat (map (export_table frepr src) (exported_tables src)) @
          (if ''sqlite_sequence'' \<in> (\<lambda>(_, n, _). n) ` set (ss_objects src)
           then ''DELETE FROM '' @ sql_name ''sqlite_sequence'' @ '';'' @ NL @
                concat (map (insert_text frepr (sql_name ''sqlite_sequence'') []) (ss_sequence src))
           else []) @
          concat (map (\<lambda>(kind, n, sql). if kind \<in> {''index'', ''view'', ''trigger''} then sql @ '';'' @ NL else [])
            (ss_objects src)) @
          ''COMMIT;'' @ NL @ ''PRAGMA foreign_keys=ON;'' @ NL))"

end
