(* ===== verification/Backup.thy ===== *)
theory Backup
  imports BackupChecks S3 Opening
begin

text \<open>
  Backup, restore and transfer (\<^verbatim>\<open>backup.py\<close>, \<open>Catalog.snapshot\<close>): actions on the
  directory that they fill, step by step, each step with the failures that it may meet. SQLite's file
  format, \<open>json.loads\<close> and what the SQL export reads are parameters.
\<close>

section \<open>What the code relies on\<close>

text \<open>
  \<open>ox_snapshot\<close> is the file that \<open>Connection.backup\<close> writes; \<open>ox_open\<close> reads a standalone
  file, and is \<open>None\<close> when it is no intact database; \<open>ox_tables\<close> is what the SQL export reads from
  the file.
\<close>

record outside =
  ox_hash :: digest
  ox_python :: interpreter
  ox_loads :: "bytes \<Rightarrow> json option"
  ox_snapshot :: "db \<Rightarrow> bytes"
  ox_open :: "bytes \<Rightarrow> db option"
  ox_tables :: "bytes \<Rightarrow> sql_source"

section \<open>The files of a backup\<close>

text \<open>
  The files that a run leaves. A catalog file or an SQL file that is not finished (the check of the
  snapshot or the export raised) counts as absent: a restore verifies both against the manifest, which
  is written after them.
\<close>

record backup_dir =
  bd_made :: bool
  bd_catalog :: "bytes option"
  bd_sql :: "bytes option"
  bd_root :: root
  bd_manifest :: "bytes option"

definition no_backup :: backup_dir where
  "no_backup = \<lparr> bd_made = False, bd_catalog = None, bd_sql = None, bd_root = Map.empty, bd_manifest = None \<rparr>"

datatype point =
    AtMkdir | AtSnapshot | AtSynced | AtSql | AtReplica | AtIdentity | AtObject string | AtManifest
  | AtCatalogGate | AtStorage | AtRootGate | AtCopy | AtLink | AtUnlink

text \<open>
  The failures of one run: at the points, a part of the manifest that a failing write leaves, and what
  the copy of the catalog file holds.
\<close>

record run_faults =
  rf_stop :: "point \<Rightarrow> failure option"
  rf_partial :: "nat option"
  rf_copied :: "bytes \<Rightarrow> bytes"

definition smooth :: run_faults where
  "smooth = \<lparr> rf_stop = (\<lambda>_. None), rf_partial = None, rf_copied = id \<rparr>"

abbreviation stop_at :: "run_faults \<Rightarrow> point \<Rightarrow> ('s, unit) act" where
  "stop_at rf p \<equiv> mayfail (rf_stop rf p)"

section \<open>Catalog snapshots\<close>

text \<open>The guard and the checks of \<open>Catalog.snapshot\<close>; the \<open>melddb\<close> adapter makes none.\<close>

definition snapshot_guard :: "bool \<Rightarrow> handle \<Rightarrow> handle \<times> unit res" where
  "snapshot_guard here h =
     (case require_idle here h of
        (h1, Inl e) \<Rightarrow> (h1, Inl e)
      | (h1, Inr _) \<Rightarrow>
          (h1, require (h_exclusive h1 \<and> h_readers h1 = 0 \<and> h_path h1 \<noteq> None) TransactionError
                 ''Snapshot requires an idle exclusive file-backed catalog''))"

definition snapshot :: "outside \<Rightarrow> bool \<Rightarrow> db \<Rightarrow> bytes res" where
  "snapshot ox direct d =
     ebind (require (direct \<longrightarrow> foreign_key_check d = []) ValidationError ''Catalog snapshot has invalid references'') (\<lambda>_.
     Inr (ox_snapshot ox d))"

text \<open>\<open>with _database(path)\<close> and \<open>_entries\<close>\<close>

definition examine :: "outside \<Rightarrow> bytes \<Rightarrow> string \<Rightarrow> int \<Rightarrow> entry list res" where
  "examine ox b sid n =
     ebind (expect (ox_open ox b) IntegrityError ''Invalid or unsupported backup SQLite catalog'') (\<lambda>d. entries_of d sid n)"

section \<open>Copying payloads\<close>

text \<open>\<open>_copy_payloads\<close>: each object is read, verified, stored, and read back.\<close>

fun copy_payloads ::
  "digest \<Rightarrow> (string \<Rightarrow> bool) \<Rightarrow> (string \<Rightarrow> bytes \<Rightarrow> root \<Rightarrow> root \<times> unit res) \<Rightarrow> run_faults \<Rightarrow> root \<Rightarrow> entry list \<Rightarrow> (root, unit) act"
where
  "copy_payloads xxh linked put rf src [] = give ()"
| "copy_payloads xxh linked put rf src (e # es) =
     abind (calc (cleanup_key linked (PStr (n_key e)))) (\<lambda>_.
     abind (calc (materialize xxh (n_key e) (n_size e) (n_digest e) (get_object (n_key e) src))) (\<lambda>b.
     abind (on_part id (\<lambda>r _. r) (put (n_key e) b)) (\<lambda>_.
     abind (\<lambda>r. calc (materialize xxh (n_key e) (n_size e) (n_digest e) (get_object (n_key e) r)) r) (\<lambda>_.
     abind (stop_at rf (AtObject (n_key e))) (\<lambda>_.
     copy_payloads xxh linked put rf src es)))))"

definition on_root :: "(root, 'a) act \<Rightarrow> (backup_dir, 'a) act" where
  "on_root m s = (case m (bd_root s) of (r, x) \<Rightarrow> (s\<lparr> bd_root := r \<rparr>, x))"

section \<open>The manifest\<close>

definition descriptor :: "digest \<Rightarrow> bytes \<Rightarrow> json" where
  "descriptor xxh b = (case hash_file xxh b of (n, dig) \<Rightarrow> JObj [(''byte_size'', JInt n), (''digest'', JStr dig)])"

definition entry_json :: "entry \<Rightarrow> json" where
  "entry_json e =
     JObj [(''byte_size'', JInt (n_size e)), (''digest'', JStr (n_digest e)), (''id'', JStr (n_id e)),
           (''object_key'', JStr (n_key e)), (''storage_id'', JStr (n_storage e)), (''token'', JStr (n_token e))]"

definition manifest_json :: "json \<Rightarrow> string \<Rightarrow> string \<Rightarrow> json \<Rightarrow> json \<Rightarrow> json \<Rightarrow> entry list \<Rightarrow> json" where
  "manifest_json app created sid cat sql ident es =
     JObj [(''application'', app), (''catalog'', cat), (''created_at'', JStr created), (''format'', JStr ''meldstore-backup''),
           (''hash_algorithm'', JStr ''xxh3_128''), (''identity'', ident), (''objects'', JArr (map entry_json es)),
           (''sql'', sql), (''storage_id'', JStr sid), (''version'', JInt 1)]"

definition manifest_text :: "outside \<Rightarrow> json \<Rightarrow> bytes" where
  "manifest_text ox j = dumps (py_float_repr (ox_python ox)) j"

text \<open>\<open>_write_json\<close>: a failing write leaves a part of the text.\<close>

definition write_manifest :: "outside \<Rightarrow> run_faults \<Rightarrow> json \<Rightarrow> (backup_dir, unit) act" where
  "write_manifest ox rf j =
     abind (update (\<lambda>s. s\<lparr> bd_manifest := Some (case rf_partial rf of None \<Rightarrow> manifest_text ox j
                                                     | Some n \<Rightarrow> take n (manifest_text ox j)) \<rparr>)) (\<lambda>_.
     mayfail (if rf_partial rf = None then None else Some (Raised (Err PyException ''write failed''))))"

section \<open>Backup\<close>

text \<open>The arguments of a backup.\<close>

record backup_args =
  ba_application :: pyval
  ba_max_entries :: pyval
  ba_destination :: path
  ba_root :: path
  ba_catalog :: path

definition backup_request :: "outside \<Rightarrow> filesystem \<Rightarrow> backup_args \<Rightarrow> (int \<times> json \<times> path) res" where
  "backup_request ox fs a =
     ebind (bound 1000000 (ba_max_entries a)) (\<lambda>n.
     ebind (application (ox_python ox) (ba_application a)) (\<lambda>app.
     ebind (destination fs (ba_destination a) [ba_root a, ba_catalog a]) (\<lambda>dest.
     Inr (n, app, dest))))"

text \<open>
  What follows the checks, for the catalog \<open>d\<close> and the objects \<open>src\<close> of the root with identity
  \<open>sid\<close>, at the time \<open>now\<close>; \<open>guard\<close> is what \<open>Catalog.snapshot\<close> says of the handle. The
  manifest is the last file.
\<close>

definition backup_catalog ::
  "outside \<Rightarrow> run_faults \<Rightarrow> bool \<Rightarrow> unit res \<Rightarrow> string \<Rightarrow> int \<Rightarrow> db \<Rightarrow> (backup_dir, bytes \<times> entry list \<times> bytes) act" where
  "backup_catalog ox rf direct guard sid n d =
     abind (stop_at rf AtSnapshot) (\<lambda>_.
     abind (calc (ebind guard (\<lambda>_. snapshot ox direct d))) (\<lambda>cat.
     abind (update (\<lambda>s. s\<lparr> bd_catalog := Some cat \<rparr>)) (\<lambda>_.
     abind (stop_at rf AtSynced) (\<lambda>_.
     abind (calc (examine ox cat sid n)) (\<lambda>es.
     abind (calc (export_sql (py_float_repr (ox_python ox)) (ox_tables ox cat))) (\<lambda>sql.
     abind (update (\<lambda>s. s\<lparr> bd_sql := Some sql \<rparr>)) (\<lambda>_.
     abind (stop_at rf AtSql) (\<lambda>_. give (cat, es, sql)))))))))"

definition backup_manifest :: "outside \<Rightarrow> json \<Rightarrow> datetime \<Rightarrow> string \<Rightarrow> bytes \<Rightarrow> bytes \<Rightarrow> root \<Rightarrow> entry list \<Rightarrow> json" where
  "backup_manifest ox app now sid cat sql r es =
     manifest_json app (isoformat_utc now) sid (descriptor (ox_hash ox) cat) (descriptor (ox_hash ox) sql)
       (descriptor (ox_hash ox) (case r LOCAL_MARKER of None \<Rightarrow> [] | Some m \<Rightarrow> m)) es"

text \<open>\<open>backup(store, destination)\<close>\<close>

definition backup ::
  "outside \<Rightarrow> filesystem \<Rightarrow> (string \<Rightarrow> bool) \<Rightarrow> (string \<Rightarrow> bytes \<Rightarrow> root \<Rightarrow> root \<times> unit res) \<Rightarrow> run_faults \<Rightarrow> bool \<Rightarrow>
   unit res \<Rightarrow> string \<Rightarrow> datetime \<Rightarrow> backup_args \<Rightarrow> db \<Rightarrow> root \<Rightarrow> (backup_dir, json) act" where
  "backup ox fs linked put rf direct guard sid now a d src =
     abind (calc (backup_request ox fs a)) (\<lambda>(n, app, dest).
     abind (stop_at rf AtMkdir) (\<lambda>_.
     abind (update (\<lambda>s. s\<lparr> bd_made := True \<rparr>)) (\<lambda>_.
     abind (backup_catalog ox rf direct guard sid n d) (\<lambda>(cat, es, sql).
     abind (on_root (replica (ox_loads ox) (rf_stop rf AtReplica) (rf_stop rf AtIdentity) sid)) (\<lambda>_.
     abind (on_root (copy_payloads (ox_hash ox) linked put rf src es)) (\<lambda>_ s.
     let j = backup_manifest ox app now sid cat sql (bd_root s) es
     in abind (stop_at rf AtManifest) (\<lambda>_.
        abind (write_manifest ox rf j) (\<lambda>_. give j)) s))))))"

text \<open>With the maintenance guard in front and the catalog handle beside the directory.\<close>

definition store_backup ::
  "(string \<Rightarrow> string) \<Rightarrow> bool \<Rightarrow> string \<Rightarrow> (unit res \<Rightarrow> (backup_dir, json) act) \<Rightarrow> handle \<times> backup_dir \<Rightarrow>
   (handle \<times> backup_dir) \<times> (failure + json)" where
  "store_backup canon here dir m s =
     (case s of (h, b) \<Rightarrow>
       (case require_maintenance canon here dir h of
          (h1, Inl e) \<Rightarrow> ((h1, b), Inl (Raised e))
        | (h1, Inr _) \<Rightarrow>
            (case snapshot_guard here h1 of
               (h2, g) \<Rightarrow> (case m g b of (b1, r) \<Rightarrow> ((h2, b1), r)))))"

section \<open>Reading a manifest\<close>

definition size_field :: "(string \<times> json) list \<Rightarrow> string \<Rightarrow> int option" where
  "size_field items k = (case map_of items k of Some (JInt n) \<Rightarrow> if 0 \<le> n then Some n else None | _ \<Rightarrow> None)"

definition as_obj :: "json \<Rightarrow> (string \<times> json) list option" where
  "as_obj j = (case j of JObj items \<Rightarrow> Some items | _ \<Rightarrow> None)"

definition entry_of_json :: "json \<Rightarrow> entry option" where
  "entry_of_json j =
     (case as_obj j of
        None \<Rightarrow> None
      | Some items \<Rightarrow>
          if set (map fst items) = {''id'', ''token'', ''storage_id'', ''object_key'', ''byte_size'', ''digest''}
          then (case (text_field items ''id'', text_field items ''token'', text_field items ''storage_id'',
                      text_field items ''object_key'', size_field items ''byte_size'', text_field items ''digest'') of
                  (Some i, Some t, Some st, Some k, Some n, Some g) \<Rightarrow>
                    if object_key k \<and> hex32 g
                    then Some \<lparr> n_id = i, n_token = t, n_storage = st, n_key = k, n_size = n, n_digest = g \<rparr> else None
                | _ \<Rightarrow> None)
          else None)"

definition descriptor_of_json :: "json \<Rightarrow> (int \<times> string) option" where
  "descriptor_of_json j =
     (case as_obj j of
        None \<Rightarrow> None
      | Some items \<Rightarrow>
          if set (map fst items) = {''byte_size'', ''digest''}
          then (case (size_field items ''byte_size'', text_field items ''digest'') of
                  (Some n, Some g) \<Rightarrow> if hex32 g then Some (n, g) else None
                | _ \<Rightarrow> None)
          else None)"

record manifest =
  mf_application :: json
  mf_storage :: string
  mf_catalog :: "int \<times> string"
  mf_sql :: "int \<times> string"
  mf_identity :: "int \<times> string"
  mf_objects :: "entry list"

definition MANIFEST_FIELDS :: "string list" where
  "MANIFEST_FIELDS = [''format'', ''version'', ''hash_algorithm'', ''created_at'', ''application'', ''storage_id'',
     ''catalog'', ''sql'', ''identity'', ''objects'']"

definition entries_field :: "(string \<times> json) list \<Rightarrow> string \<Rightarrow> entry list option" where
  "entries_field items k =
     (case map_of items k of Some (JArr xs) \<Rightarrow> all_some (map entry_of_json xs) | _ \<Rightarrow> None)"

definition descriptor_field :: "(string \<times> json) list \<Rightarrow> string \<Rightarrow> (int \<times> string) option" where
  "descriptor_field items k = (case map_of items k of Some j \<Rightarrow> descriptor_of_json j | None \<Rightarrow> None)"

text \<open>The fields of a manifest, or nothing where any of its checks fails.\<close>

definition manifest_of_json :: "interpreter \<Rightarrow> int \<Rightarrow> json \<Rightarrow> manifest option" where
  "manifest_of_json py n j =
     (case as_obj j of
        None \<Rightarrow> None
      | Some items \<Rightarrow>
          if set (map fst items) = set MANIFEST_FIELDS \<and> text_field items ''format'' = Some ''meldstore-backup'' \<and>
             map_of items ''version'' = Some (JInt 1) \<and> text_field items ''hash_algorithm'' = Some ''xxh3_128''
          then (case (text_field items ''storage_id'',
                      application py (case map_of items ''application'' of Some a \<Rightarrow> to_py a | None \<Rightarrow> PNone),
                      text_field items ''created_at'', entries_field items ''objects'', descriptor_field items ''catalog'',
                      descriptor_field items ''sql'', descriptor_field items ''identity'') of
                  (Some sid, Inr app, Some t, Some es, Some c, Some q, Some i) \<Rightarrow>
                    if hex32 sid \<and> fromisoformat t \<noteq> None \<and> int (length es) \<le> n
                    then Some \<lparr> mf_application = app, mf_storage = sid, mf_catalog = c, mf_sql = q, mf_identity = i, mf_objects = es \<rparr>
                    else None
                | _ \<Rightarrow> None)
          else None)"

definition manifest_limit :: "int \<Rightarrow> int" where
  "manifest_limit n = 65536 + n * 2048"

text \<open>\<open>_manifest(source, max_entries)\<close>\<close>

definition read_manifest :: "outside \<Rightarrow> int \<Rightarrow> backup_dir \<Rightarrow> manifest res" where
  "read_manifest ox n b =
     ebind (expect (bd_manifest b) IntegrityError ''Missing, incomplete, or oversized backup manifest'') (\<lambda>raw.
     ebind (require (int (length raw) \<le> manifest_limit n) IntegrityError ''Missing, incomplete, or oversized backup manifest'') (\<lambda>_.
     ebind (expect (ox_loads ox raw) IntegrityError ''Invalid backup manifest'') (\<lambda>j.
     ebind (require (distinct_fields j) IntegrityError ''Duplicate manifest key'') (\<lambda>_.
     expect (manifest_of_json (ox_python ox) n j) IntegrityError ''Invalid backup manifest''))))"

text \<open>\<open>_verify_file(path, descriptor)\<close>\<close>

definition verify_file :: "digest \<Rightarrow> bytes option \<Rightarrow> int \<times> string \<Rightarrow> bytes res" where
  "verify_file xxh f dsc =
     ebind (expect f IntegrityError ''Backup file fails size/hash verification'') (\<lambda>b.
     ebind (require (hash_file xxh b = dsc) IntegrityError ''Backup file fails size/hash verification'') (\<lambda>_. Inr b))"

section \<open>Restore\<close>

text \<open>Everything that is checked before the destination is made: the manifest, the catalog and the entries.\<close>

definition restore_request ::
  "outside \<Rightarrow> filesystem \<Rightarrow> pyval \<Rightarrow> path \<Rightarrow> path \<Rightarrow> backup_dir \<Rightarrow> (manifest \<times> bytes \<times> entry list) res" where
  "restore_request ox fs max_entries source dest b =
     ebind (bound 1000000 max_entries) (\<lambda>n.
     ebind (backup_path fs source) (\<lambda>source.
     ebind (destination fs dest [source]) (\<lambda>_.
     ebind (backup_path fs (source @ [''manifest.json''])) (\<lambda>_.
     ebind (read_manifest ox n b) (\<lambda>m.
     ebind (backup_path fs (source @ [''catalog.sqlite''])) (\<lambda>_.
     ebind (verify_file (ox_hash ox) (bd_catalog b) (mf_catalog m)) (\<lambda>cat.
     ebind (backup_path fs (source @ [''catalog.sql''])) (\<lambda>_.
     ebind (verify_file (ox_hash ox) (bd_sql b) (mf_sql m)) (\<lambda>_.
     ebind (backup_path fs (source @ [''storage'', LOCAL_MARKER])) (\<lambda>_.
     ebind (verify_file (ox_hash ox) (bd_root b LOCAL_MARKER) (mf_identity m)) (\<lambda>ident.
     ebind (examine ox cat (mf_storage m) n) (\<lambda>es.
     ebind (require (es = mf_objects m) IntegrityError ''Manifest objects differ from the catalog snapshot'') (\<lambda>_.
     ebind (read_marker (ox_loads ox) ident) (\<lambda>sid.
     ebind (require (sid = mf_storage m) IntegrityError ''Backup storage identity differs'') (\<lambda>_.
     Inr (m, cat, es))))))))))))))))"

record restored =
  rs_made :: bool
  rs_catalog :: "bytes option"
  rs_partial :: "bytes option"
  rs_root :: root

definition nothing_restored :: restored where
  "nothing_restored = \<lparr> rs_made = False, rs_catalog = None, rs_partial = None, rs_root = Map.empty \<rparr>"

definition into_root :: "(root, 'a) act \<Rightarrow> (restored, 'a) act" where
  "into_root m s = (case m (rs_root s) of (r, x) \<Rightarrow> (s\<lparr> rs_root := r \<rparr>, x))"

text \<open>
  What follows the checks; \<open>mk_store sid\<close> creates the storage of the destination, \<open>put\<close> uploads to
  it. The gates of the destination are new files of this call; their failures are \<open>AtCatalogGate\<close>
  and \<open>AtRootGate\<close>. The catalog file is linked last. The result is the application's description.
\<close>

definition restore_files ::
  "outside \<Rightarrow> (string \<Rightarrow> bool) \<Rightarrow> (string \<Rightarrow> (root, string) act) \<Rightarrow> (string \<Rightarrow> bytes \<Rightarrow> root \<Rightarrow> root \<times> unit res) \<Rightarrow>
   run_faults \<Rightarrow> root \<Rightarrow> manifest \<Rightarrow> bytes \<Rightarrow> entry list \<Rightarrow> (restored, json) act" where
  "restore_files ox linked mk_store put rf src m cat es =
     abind (stop_at rf AtMkdir) (\<lambda>_.
     abind (update (\<lambda>s. s\<lparr> rs_made := True \<rparr>)) (\<lambda>_.
     abind (stop_at rf AtCatalogGate) (\<lambda>_.
     abind (into_root (mk_store (mf_storage m))) (\<lambda>_.
     abind (stop_at rf AtRootGate) (\<lambda>_.
     abind (into_root (copy_payloads (ox_hash ox) linked put rf src es)) (\<lambda>_.
     abind (update (\<lambda>s. s\<lparr> rs_partial := Some (rf_copied rf cat) \<rparr>)) (\<lambda>_.
     abind (stop_at rf AtCopy) (\<lambda>_.
     abind (calc (verify_file (ox_hash ox) (Some (rf_copied rf cat)) (mf_catalog m))) (\<lambda>file.
     abind (stop_at rf AtLink) (\<lambda>_.
     abind (update (\<lambda>s. s\<lparr> rs_catalog := Some file \<rparr>)) (\<lambda>_.
     abind (stop_at rf AtUnlink) (\<lambda>_.
     abind (update (\<lambda>s. s\<lparr> rs_partial := None \<rparr>)) (\<lambda>_.
     give (mf_application m))))))))))))))"

text \<open>\<open>_restore_backup\<close>\<close>

definition restore ::
  "outside \<Rightarrow> filesystem \<Rightarrow> (string \<Rightarrow> bool) \<Rightarrow> (string \<Rightarrow> (root, string) act) \<Rightarrow>
   (string \<Rightarrow> bytes \<Rightarrow> root \<Rightarrow> root \<times> unit res) \<Rightarrow> run_faults \<Rightarrow> pyval \<Rightarrow> path \<Rightarrow> path \<Rightarrow> backup_dir \<Rightarrow> (restored, json) act" where
  "restore ox fs linked mk_store put rf max_entries source dest b =
     abind (calc (restore_request ox fs max_entries source dest b)) (\<lambda>(m, cat, es).
     restore_files ox linked mk_store put rf (bd_root b) m cat es)"

definition local_root :: "outside \<Rightarrow> run_faults \<Rightarrow> string \<Rightarrow> (root, string) act" where
  "local_root ox rf = replica (ox_loads ox) (rf_stop rf AtStorage) (rf_stop rf AtIdentity)"

text \<open>\<open>restore_backup\<close> and \<open>restore_backup_to_s3\<close>\<close>

definition restore_backup ::
  "outside \<Rightarrow> filesystem \<Rightarrow> (string \<Rightarrow> bool) \<Rightarrow> (string \<Rightarrow> transfer) \<Rightarrow> (string \<Rightarrow> string) \<Rightarrow> run_faults \<Rightarrow>
   pyval \<Rightarrow> path \<Rightarrow> path \<Rightarrow> backup_dir \<Rightarrow> (restored, json) act" where
  "restore_backup ox fs linked t fresh rf max_entries source dest b =
     restore ox fs linked (local_root ox rf) (local_put t fresh) rf max_entries source dest b"

definition FORBIDDEN_OPTIONS :: "string list" where
  "FORBIDDEN_OPTIONS = [''coordination_directory'', ''_storage_id'', ''_fresh'']"

definition restore_backup_to_s3 ::
  "outside \<Rightarrow> filesystem \<Rightarrow> (string \<Rightarrow> bool) \<Rightarrow> (string \<Rightarrow> s3_transfer) \<Rightarrow> (string \<Rightarrow> string) \<Rightarrow> run_faults \<Rightarrow>
   string list \<Rightarrow> (string \<Rightarrow> (root, string) act) \<Rightarrow> pyval \<Rightarrow> path \<Rightarrow> path \<Rightarrow> backup_dir \<Rightarrow> (restored, json) act" where
  "restore_backup_to_s3 ox fs linked t fresh rf options mk_store max_entries source dest b =
     abind (calc (require (list_all (\<lambda>o'. o' \<notin> set FORBIDDEN_OPTIONS) options) ValidationError
              ''Restore owns the destination coordination directory and identity'')) (\<lambda>_.
     restore ox fs linked mk_store (s3_put t fresh) rf max_entries source dest b)"

text \<open>
  \<open>transfer\<close> and \<open>transfer_to_s3\<close>: a backup into the temporary directory \<open>temp\<close> and its restore;
  \<open>maintenance\<close> is the answer of \<open>require_maintenance\<close>. The temporary directory is removed in every case.
\<close>

definition transfer_through ::
  "outside \<Rightarrow> filesystem \<Rightarrow> (string \<Rightarrow> bool) \<Rightarrow> (string \<Rightarrow> transfer) \<Rightarrow> (string \<Rightarrow> string) \<Rightarrow> run_faults \<Rightarrow> bool \<Rightarrow>
   unit res \<Rightarrow> unit res \<Rightarrow> string \<Rightarrow> datetime \<Rightarrow> path \<Rightarrow> backup_args \<Rightarrow> db \<Rightarrow> root \<Rightarrow>
   (backup_dir \<Rightarrow> (restored, json) act) \<Rightarrow> (restored, json) act" where
  "transfer_through ox fs linked t fresh rf direct maintenance guard sid now temp a d src restoring =
     abind (calc maintenance) (\<lambda>_.
     abind (calc (destination fs (ba_destination a) [ba_root a, ba_catalog a])) (\<lambda>_ s.
     (case backup ox fs linked (local_put t fresh) rf direct guard sid now (a\<lparr> ba_destination := temp \<rparr>) d src no_backup of
        (b, Inl f) \<Rightarrow> (s, Inl f)
      | (b, Inr _) \<Rightarrow> restoring b s)))"

definition transfer_store ::
  "outside \<Rightarrow> filesystem \<Rightarrow> (string \<Rightarrow> bool) \<Rightarrow> (string \<Rightarrow> transfer) \<Rightarrow> (string \<Rightarrow> string) \<Rightarrow> run_faults \<Rightarrow> bool \<Rightarrow>
   unit res \<Rightarrow> unit res \<Rightarrow> string \<Rightarrow> datetime \<Rightarrow> path \<Rightarrow> backup_args \<Rightarrow> db \<Rightarrow> root \<Rightarrow> (restored, json) act" where
  "transfer_store ox fs linked t fresh rf direct maintenance guard sid now temp a d src =
     transfer_through ox fs linked t fresh rf direct maintenance guard sid now temp a d src
       (restore_backup ox fs linked t fresh rf (ba_max_entries a) temp (ba_destination a))"

definition transfer_to_s3 ::
  "outside \<Rightarrow> filesystem \<Rightarrow> (string \<Rightarrow> bool) \<Rightarrow> (string \<Rightarrow> transfer) \<Rightarrow> (string \<Rightarrow> string) \<Rightarrow> run_faults \<Rightarrow> bool \<Rightarrow>
   unit res \<Rightarrow> unit res \<Rightarrow> string \<Rightarrow> datetime \<Rightarrow> path \<Rightarrow> backup_args \<Rightarrow> db \<Rightarrow> root \<Rightarrow>
   (string \<Rightarrow> s3_transfer) \<Rightarrow> string list \<Rightarrow> (string \<Rightarrow> (root, string) act) \<Rightarrow> (restored, json) act" where
  "transfer_to_s3 ox fs linked t fresh rf direct maintenance guard sid now temp a d src t3 options mk_store =
     transfer_through ox fs linked t fresh rf direct maintenance guard sid now temp a d src
       (restore_backup_to_s3 ox fs linked t3 fresh rf options mk_store (ba_max_entries a) temp (ba_destination a))"

end
