(* ===== verification/JsonFacts.thy ===== *)
theory JsonFacts
  imports JsonText
begin

text \<open>
  JSON values that were accepted once are accepted again: reading a description back and checking it
  gives the same value.
\<close>

section \<open>Acceptable values\<close>

lemma all_some_eq: "(all_some xs = Some ys) = (xs = map Some ys)"
proof
  assume a: "all_some xs = Some ys"
  then have "None \<notin> set xs" "ys = map the xs" by (auto simp: all_some_def split: if_splits)
  moreover from this(1) have "map (Some \<circ> the) xs = xs" by (intro map_idI) (metis comp_apply option.exhaust_sel)
  ultimately show "xs = map Some ys" by simp
qed (auto simp: all_some_def comp_def)

fun acceptable :: "json \<Rightarrow> bool" where
  "acceptable (JInt n) = printable n"
| "acceptable (JFloat x) = (\<exists>q. x = Finite q)"
| "acceptable (JArr xs) = list_all acceptable xs"
| "acceptable (JObj items) = list_all (\<lambda>x. acceptable (snd x)) items"
| "acceptable j = True"

lemma to_json_to_py: "acceptable j \<Longrightarrow> to_json (to_py j) = Some j"
proof (induction j rule: acceptable.induct)
  case (3 xs)
  then have "map (\<lambda>x. to_json (to_py x)) xs = map Some xs" by (auto simp: list_all_iff)
  then show ?case by (simp add: all_some_eq comp_def)
next
  case (4 items)
  then have "to_json (to_py (snd x)) = Some (snd x)" if "x \<in> set items" for x
    using that by (auto simp: list_all_iff)
  then have "map (\<lambda>x. case to_json (to_py (snd x)) of None \<Rightarrow> None | Some j \<Rightarrow> Some (fst x, j)) items = map Some items"
    by auto
  then show ?case by (simp add: all_some_eq comp_def json_key_def case_prod_unfold)
qed auto

lemma to_json_acceptable: "to_json v = Some j \<Longrightarrow> acceptable j"
proof (induction v arbitrary: j rule: to_json.induct)
  case (7 xs)
  then obtain ys where "j = JArr ys" "map to_json xs = map Some ys" by (auto simp: all_some_eq)
  moreover have "acceptable y" if "y \<in> set ys" for y
  proof -
    have "Some y \<in> set (map to_json xs)" using that calculation(2) by simp
    then show ?thesis using 7(1) by auto
  qed
  ultimately show ?case by (simp add: list_all_iff)
next
  case (8 items)
  let ?f = "\<lambda>(k, v). case (json_key k, to_json v) of (Some s, Some j) \<Rightarrow> Some (s, j) | _ \<Rightarrow> None"
  from 8(2) obtain ys where j: "j = JObj ys" "map ?f items = map Some ys"
    unfolding to_json.simps by (auto simp only: map_option_eq_Some all_some_eq)
  moreover have "acceptable (snd y)" if "y \<in> set ys" for y
  proof -
    have "Some y \<in> set (map ?f items)" using that j(2) by simp
    then obtain k v where "(k, v) \<in> set items" "to_json v = Some (snd y)" by (auto split: option.splits)
    then show ?thesis using 8(1) [of "(k, v)" k v] by simp
  qed
  ultimately show ?case by (simp add: list_all_iff)
qed (auto split: if_splits)

section \<open>Sorted keys\<close>

lemma acceptable_sorted: "acceptable (sorted_json j) = acceptable j"
  by (induction j rule: sorted_json.induct) (auto simp: list_all_iff)

lemma sorted_json_twice: "sorted_json (sorted_json j) = sorted_json j"
proof (induction j rule: sorted_json.induct)
  case (2 items)
  let ?xs = "map (\<lambda>(k, v). (k, sorted_json v)) items"
  have "map (\<lambda>(k, v). (k, sorted_json v)) (sort_key fst ?xs) = sort_key fst ?xs"
    by (rule map_idI) (use 2 in auto)
  moreover have "sort_key fst (sort_key fst ?xs) = sort_key fst ?xs" by (rule sort_key_id_if_sorted) simp
  ultimately show ?case by simp
qed auto

lemma foldr_max: "foldr (\<lambda>x m. max (g x) m) xs (0 :: nat) = Max (insert 0 (g ` set xs))"
proof (induction xs)
  case (Cons a xs)
  have "Max (insert (g a) (insert 0 (g ` set xs))) = max (g a) (Max (insert 0 (g ` set xs)))"
    by (rule Max_insert) auto
  then show ?case by (simp only: foldr.simps comp_apply Cons.IH list.set image_insert insert_commute)
qed simp

lemma json_depth_sorted: "json_depth (sorted_json j) = json_depth j"
proof (induction j rule: sorted_json.induct)
  case (1 xs)
  then have "(\<lambda>x. json_depth (sorted_json x)) ` set xs = json_depth ` set xs" by simp
  then show ?case by (simp add: foldr_max image_image)
next
  case (2 items)
  have "(\<lambda>x. json_depth (sorted_json (snd x))) ` set items = (\<lambda>x. json_depth (snd x)) ` set items"
    by (rule image_cong) (use 2 in auto)
  then show ?case by (simp add: foldr_max image_image case_prod_unfold)
qed auto

lemma descriptor_json_twice:
  assumes "descriptor_json py v = Inr j"
  shows "descriptor_json py (to_py j) = Inr j" "length (dumps (py_float_repr py) j) \<le> 65536"
proof -
  obtain items k where v: "as_dict v = Some items" "to_json v = Some k" "json_depth k \<le> py_json_depth py"
    "length (dumps (py_float_repr py) (sorted_json k)) \<le> 65536" "j = sorted_json k"
    using assms unfolding descriptor_json_def ebind_eq_Inr expect_eq_Inr require_eq_Inr by blast
  have "\<exists>ks. j = JObj ks"
  proof -
    obtain its where "v = PDict its" using v(1) by (auto simp: as_dict_def split: pyval.splits)
    then show ?thesis using v(2,5) by auto
  qed
  then have d: "\<exists>x. as_dict (to_py j) = Some x" by (auto simp: as_dict_def)
  have "acceptable j" using to_json_acceptable [OF v(2)] by (simp add: v(5) acceptable_sorted)
  then have "to_json (to_py j) = Some j" by (rule to_json_to_py)
  with d show "descriptor_json py (to_py j) = Inr j"
    using v by (auto simp: descriptor_json_def json_depth_sorted sorted_json_twice)
  show "length (dumps (py_float_repr py) j) \<le> 65536" using v by simp
qed

end
