(* ===== verification/BackupFacts.thy ===== *)
theory BackupFacts
  imports Backup JsonFacts
begin

text \<open>
  The copy loop over any target that keeps its contract, and what the steps of a backup and of a
  restore leave.
\<close>

section \<open>The copy loop\<close>

definition verified :: "digest \<Rightarrow> entry \<Rightarrow> bytes \<Rightarrow> bool" where
  "verified xxh e b = (object_key (n_key e) \<and> int (length b) = n_size e \<and> xxh b = n_digest e)"

lemma materialize_entry:
  "(materialize xxh (n_key e) (n_size e) (n_digest e) (get_object (n_key e) r) = Inr b) =
     (r (n_key e) = Some b \<and> verified xxh e b)"
  by (auto simp: materialize_object verified_def)

context object_target
begin

lemma copy_keeps:
  "copy_payloads xxh linked put rf src es r = (r', x) \<Longrightarrow> \<not> starts_with ''staging/'' k \<Longrightarrow> r k = Some v \<Longrightarrow> r' k = Some v"
proof (induction es arbitrary: r x)
  case (Cons e es)
  show ?case
  proof (cases x)
    case (Inl f)
    then show ?thesis
      using Cons put_keeps by (auto simp: abind_Inl on_part_Inl on_part_Inr)
  next
    case (Inr y)
    then show ?thesis
      using Cons put_keeps by (auto simp: abind_Inr on_part_Inr)
  qed
qed (simp add: give_def)

lemma copy_stores:
  assumes "copy_payloads xxh linked put rf src es r = (r', Inr u)" "e \<in> set es"
  shows "\<exists>b. src (n_key e) = Some b \<and> r' (n_key e) = Some b \<and> verified xxh e b"
  using assms
proof (induction es arbitrary: r)
  case (Cons e' es)
  from Cons.prems(1) obtain b r1 where b: "materialize xxh (n_key e') (n_size e') (n_digest e') (get_object (n_key e') src) = Inr b"
    and p: "put (n_key e') b r = (r1, Inr ())" and c: "copy_payloads xxh linked put rf src es r1 = (r', Inr u)"
    by (auto simp: abind_Inr on_part_Inr)
  have "\<not> starts_with ''staging/'' (n_key e')" using b staging_not_object by (simp add: materialize_entry verified_def)
  then have "r' (n_key e') = Some b" using copy_keeps [OF c] put_stored [OF p] by simp
  then show ?case using Cons.IH [OF c] Cons.prems(2) b by (auto simp: materialize_entry)
qed simp

end

text \<open>A local target accepts every key once.\<close>

lemma local_copy_distinct:
  "copy_payloads xxh linked (local_put t fresh) rf src es r = (r', Inr u) \<Longrightarrow>
   distinct (map n_key es) \<and> (\<forall>e \<in> set es. r (n_key e) = None)"
proof (induction es arbitrary: r)
  case (Cons e es)
  from Cons.prems obtain b r1 where p: "local_put t fresh (n_key e) b r = (r1, Inr ())"
    and c: "copy_payloads xxh linked (local_put t fresh) rf src es r1 = (r', Inr u)"
    by (auto simp: abind_Inr on_part_Inr)
  have r1: "r1 = r(n_key e \<mapsto> b)" "r (n_key e) = None"
    using p by (auto simp: local_put_def upload_def split: if_splits)
  from Cons.IH [OF c] have d: "distinct (map n_key es)" "\<forall>x \<in> set es. r1 (n_key x) = None" by blast+
  then have "\<forall>x \<in> set es. n_key x \<noteq> n_key e \<and> r (n_key x) = None"
    by (metis map_upd_Some_unfold fun_upd_apply option.distinct(1) r1(1))
  with d r1 show ?case by auto
qed simp

lemma smooth_simps [simp]: "rf_stop smooth p = None" "rf_partial smooth = None" "rf_copied smooth = id"
  by (simp_all add: smooth_def)

definition plain_put :: "(string \<Rightarrow> string) \<Rightarrow> string \<Rightarrow> bytes \<Rightarrow> root \<Rightarrow> root \<times> unit res" where
  "plain_put fresh = local_put (\<lambda>_. Transferred) fresh"

text \<open>Without failures the loop copies what the source holds.\<close>

lemma local_copy_succeeds:
  assumes "\<And>e. e \<in> set es \<Longrightarrow> \<exists>b. src (n_key e) = Some b \<and> verified xxh e b"
    "distinct (map n_key es)" "\<And>e. e \<in> set es \<Longrightarrow> r (n_key e) = None"
  shows "\<exists>r'. copy_payloads xxh (\<lambda>_. False) (plain_put fresh) smooth src es r = (r', Inr ())"
  using assms
proof (induction es arbitrary: r)
  case (Cons e es)
  obtain b where b: "src (n_key e) = Some b" "verified xxh e b" using Cons.prems(1) by (meson list.set_intros(1))
  have k: "object_key (n_key e)" "r (n_key e) = None" using b Cons.prems(3) by (simp_all add: verified_def)
  let ?r = "r(n_key e \<mapsto> b)"
  have p: "plain_put fresh (n_key e) b r = (?r, Inr ())"
    using k by (simp add: plain_put_def local_put_def upload_def)
  obtain r' where r': "copy_payloads xxh (\<lambda>_. False) (plain_put fresh) smooth src es ?r = (r', Inr ())"
  proof -
    have "?r (n_key x) = None" if "x \<in> set es" for x
      using Cons.prems(2) Cons.prems(3) [of x] that by (auto simp: image_iff)
    moreover have "distinct (map n_key es)" using Cons.prems(2) by simp
    moreover have "\<exists>b. src (n_key x) = Some b \<and> verified xxh x b" if "x \<in> set es" for x
      using Cons.prems(1) that by simp
    ultimately have "\<exists>r'. copy_payloads xxh (\<lambda>_. False) (plain_put fresh) smooth src es ?r = (r', Inr ())"
      by (intro Cons.IH)
    then show ?thesis using that by blast
  qed
  have m: "materialize xxh (n_key e) (n_size e) (n_digest e) (get_object (n_key e) src) = Inr b"
    "materialize xxh (n_key e) (n_size e) (n_digest e) (get_object (n_key e) ?r) = Inr b"
    using b by (simp_all add: materialize_entry)
  have "cleanup_key (\<lambda>_. False) (PStr (n_key e)) = Inr (n_key e)"
    using k by (simp add: cleanup_key_def cleanup_pattern_def)
  with m p r' show ?case
    by (auto simp: abind_Inr on_part_Inr no_faults_def)
qed simp

section \<open>A restore\<close>

text \<open>What a destination holds once its catalog is there: the catalog of the manifest and every object.\<close>

definition complete_restore :: "outside \<Rightarrow> manifest \<Rightarrow> bytes \<Rightarrow> entry list \<Rightarrow> restored \<Rightarrow> bool" where
  "complete_restore ox m c es s =
     (rs_catalog s = Some c \<and> hash_file (ox_hash ox) c = mf_catalog m \<and>
      (\<forall>e \<in> set es. \<exists>b. rs_root s (n_key e) = Some b \<and> verified (ox_hash ox) e b))"

definition unpublished :: "restored \<Rightarrow> bool" where
  "unpublished s = (rs_catalog s = None)"

lemma triple_into_root:
  "(\<And>s r r' x. P s \<Longrightarrow> m (rs_root s) = (r', Inr x) \<Longrightarrow> Q x (s\<lparr> rs_root := r' \<rparr>)) \<Longrightarrow>
   (\<And>s r r' f. P s \<Longrightarrow> m (rs_root s) = (r', Inl f) \<Longrightarrow> E (s\<lparr> rs_root := r' \<rparr>)) \<Longrightarrow> triple P (into_root m) Q E"
  by (rule tripleI) (auto simp: into_root_def split: prod.splits)

lemma into_root_Inr: "(into_root m s = (s', Inr x)) = (\<exists>r. m (rs_root s) = (r, Inr x) \<and> s' = s\<lparr> rs_root := r \<rparr>)"
  by (auto simp: into_root_def split: prod.splits)

lemma into_root_Inl: "(into_root m s = (s', Inl f)) = (\<exists>r. m (rs_root s) = (r, Inl f) \<and> s' = s\<lparr> rs_root := r \<rparr>)"
  by (auto simp: into_root_def split: prod.splits)

lemma verify_file_Inr: "(verify_file xxh f dsc = Inr b) = (f = Some b \<and> hash_file xxh b = dsc)"
  by (auto simp: verify_file_def)

context object_target
begin

lemma restore_files_publishes:
  assumes "restore_files ox linked mk_store put rf src m cat es s = (s', r)" "unpublished s"
  shows "unpublished s' \<or> complete_restore ox m (rf_copied rf cat) es s'"
proof (cases r)
  case (Inl f)
  then show ?thesis
    using assms
    by (auto simp: restore_files_def abind_Inl abind_Inr into_root_Inr into_root_Inl unpublished_def complete_restore_def
        verify_file_Inr dest: copy_stores)
next
  case (Inr x)
  then show ?thesis
    using assms
    by (auto simp: restore_files_def abind_Inr into_root_Inr unpublished_def complete_restore_def
        verify_file_Inr dest: copy_stores)
qed

end

section \<open>The examination\<close>

lemma emapM_lookup:
  assumes "emapM f xs = Inr ys" "x \<in> set xs"
  shows "\<exists>y. f x = Inr y \<and> y \<in> set ys"
proof -
  obtain i where i: "i < length xs" "x = xs ! i" using assms(2) by (auto simp: in_set_conv_nth)
  then have "i < length ys" "f x = Inr (ys ! i)"
    using assms(1) by (auto simp: emapM_eq_Inr list_all2_conv_all_nth)
  then show ?thesis using nth_mem by blast
qed

lemma emapM_source:
  assumes "emapM f xs = Inr ys" "y \<in> set ys"
  shows "\<exists>x. x \<in> set xs \<and> f x = Inr y"
proof -
  obtain i where i: "i < length ys" "y = ys ! i" using assms(2) by (auto simp: in_set_conv_nth)
  then have "i < length xs" "f (xs ! i) = Inr y"
    using assms(1) by (auto simp: emapM_eq_Inr list_all2_conv_all_nth)
  then show ?thesis using nth_mem by blast
qed

lemma entries_of_rows:
  assumes "entries_of d sid n = Inr es"
  shows "emapM (read_entry sid d) (sort_key b_id (ms_blobs d)) = Inr es" "int (length (ms_blobs d)) \<le> n"
  using assms unfolding entries_of_def ebind_eq_Inr require_eq_Inr by blast+

lemma read_entry_Inr:
  "(read_entry sid d b = Inr e) =
     (\<exists>p. prepared_of (b_id b) d = Some p \<and> p_storage p = sid \<and> object_key (p_key p) \<and> e = entry_of b p)"
  by (auto simp: read_entry_def split: option.splits)

lemma entries_of_blob:
  assumes "entries_of d sid n = Inr es" "b \<in> set (ms_blobs d)"
  obtains p where "prepared_of (b_id b) d = Some p" "entry_of b p \<in> set es" "p_storage p = sid" "object_key (p_key p)"
  using emapM_lookup [OF entries_of_rows(1) [OF assms(1)], of b] assms(2) that by (auto simp: read_entry_Inr)

lemma entries_of_keys:
  assumes "entries_of d sid n = Inr es"
  shows "int (length es) \<le> n" "e \<in> set es \<Longrightarrow> \<exists>b p. b \<in> set (ms_blobs d) \<and> prepared_of (b_id b) d = Some p \<and>
      p_storage p = sid \<and> object_key (p_key p) \<and> e = entry_of b p"
proof -
  show "int (length es) \<le> n" using emapM_length [OF entries_of_rows(1) [OF assms]] entries_of_rows(2) [OF assms] by simp
  show "e \<in> set es \<Longrightarrow> \<exists>b p. b \<in> set (ms_blobs d) \<and> prepared_of (b_id b) d = Some p \<and>
      p_storage p = sid \<and> object_key (p_key p) \<and> e = entry_of b p"
    using emapM_source [OF entries_of_rows(1) [OF assms], of e] by (auto simp: read_entry_Inr)
qed

end
