(* ===== verification/ManifestFacts.thy ===== *)
theory ManifestFacts
  imports BackupFacts
begin

text \<open>
  The manifest that a backup writes: its fields are read back as they were, and its text stays within
  the size that a restore accepts.
\<close>

section \<open>Reading back\<close>

lemma digest_hex: "is_digest xxh \<Longrightarrow> hex32 (xxh b)"
  by (simp add: is_digest_def digest_form_def hex32_def)

lemma entry_read_back:
  assumes "object_key (n_key e)" "hex32 (n_digest e)" "0 \<le> n_size e"
  shows "entry_of_json (entry_json e) = Some e"
  using assms
  by (simp add: entry_of_json_def as_obj_def entry_json_def text_field_def size_field_def insert_commute)

lemma descriptor_read_back: "is_digest xxh \<Longrightarrow> descriptor_of_json (descriptor xxh b) = Some (hash_file xxh b)"
  by (simp add: descriptor_of_json_def as_obj_def descriptor_def hash_file_eq text_field_def size_field_def digest_hex)

definition entry_fit :: "entry \<Rightarrow> bool" where
  "entry_fit e = (object_key (n_key e) \<and> hex32 (n_digest e) \<and> 0 \<le> n_size e \<and> n_size e < 10 ^ 19 \<and> hex32 (n_storage e) \<and>
     length (n_id e) \<le> 128 \<and> length (n_token e) \<le> 32)"

lemma manifest_read_back:
  assumes "is_digest xxh" "application py (to_py app) = Inr app" "fromisoformat t \<noteq> None" "hex32 sid"
    "\<forall>e \<in> set es. entry_fit e" "int (length es) \<le> n"
  shows "manifest_of_json py n (manifest_json app t sid (descriptor xxh c) (descriptor xxh q) (descriptor xxh i) es) =
    Some \<lparr> mf_application = app, mf_storage = sid, mf_catalog = hash_file xxh c, mf_sql = hash_file xxh q,
           mf_identity = hash_file xxh i, mf_objects = es \<rparr>"
proof -
  have "map entry_of_json (map entry_json es) = map Some es"
    using assms(5) by (auto simp: entry_fit_def entry_read_back)
  then have "all_some (map entry_of_json (map entry_json es)) = Some es" by (simp add: all_some_eq)
  then show ?thesis
    using assms descriptor_read_back [OF assms(1)]
    by (simp add: manifest_of_json_def manifest_json_def as_obj_def text_field_def entries_field_def descriptor_field_def
        MANIFEST_FIELDS_def insert_commute)
qed

lemma manifest_distinct: "distinct_fields app \<Longrightarrow> distinct_fields (manifest_json app t sid (descriptor xxh c) (descriptor xxh q) (descriptor xxh i) es)"
  by (simp add: manifest_json_def descriptor_def hash_file_eq entry_json_def list_all_iff)

section \<open>Size\<close>

definition word_chars :: string where
  "word_chars = ''abcdefghijklmnopqrstuvwxyz_-0123456789/''"

lemma word_plain: "set s \<subseteq> set word_chars \<Longrightarrow> json_string s = CHR 0x22 # s @ [CHR 0x22]"
proof (rule json_string_plain)
  have "list_all plain_char word_chars" by code_simp
  moreover assume "set s \<subseteq> set word_chars"
  ultimately show "list_all plain_char s" by (auto simp: list_all_iff)
qed

lemma word_length: "set s \<subseteq> set word_chars \<Longrightarrow> length (json_string s) = length s + 2"
  by (simp add: word_plain)

lemma key_lengths:
  "length (json_string ''application'') = 13"
  "length (json_string ''catalog'') = 9"
  "length (json_string ''created_at'') = 12"
  "length (json_string ''format'') = 8"
  "length (json_string ''hash_algorithm'') = 16"
  "length (json_string ''identity'') = 10"
  "length (json_string ''objects'') = 9"
  "length (json_string ''sql'') = 5"
  "length (json_string ''storage_id'') = 12"
  "length (json_string ''version'') = 9"
  "length (json_string ''byte_size'') = 11"
  "length (json_string ''digest'') = 8"
  "length (json_string ''id'') = 4"
  "length (json_string ''object_key'') = 12"
  "length (json_string ''token'') = 7"
  "length (json_string ''meldstore-backup'') = 18"
  "length (json_string ''xxh3_128'') = 10"
  by (subst word_length; simp add: word_chars_def)+

lemma hex_length: "hex32 s \<Longrightarrow> length (json_string s) = 34"
  by (simp add: hex_text) (simp add: hex32_def)

lemma key_plain:
  assumes "object_key k"
  shows "length (json_string k) = 42"
proof -
  obtain t where t: "k = ''objects/'' @ t" using assms unfolding object_key_def starts_with_iff by blast
  have "drop 8 k = t" unfolding t by simp
  then have h: "hex32 t" using assms by (simp add: object_key_def)
  then have "set t \<subseteq> set ''0123456789abcdef''" unfolding hex32_def is_hex_digit_def list_all_iff by blast
  also have "\<dots> \<subseteq> set word_chars" by (simp add: word_chars_def)
  finally have "set t \<subseteq> set word_chars" .
  then have "set k \<subseteq> set word_chars" unfolding t set_append by (simp add: word_chars_def)
  moreover have "length k = 40" using h unfolding t by (simp add: hex32_def)
  ultimately show ?thesis by (simp add: word_length)
qed

lemma int_text_length: "0 \<le> n \<Longrightarrow> n < 10 ^ 19 \<Longrightarrow> length (int_text n) \<le> 19"
  using length_dec [of "nat n" 19] by (simp add: int_text_def nat_less_iff)

lemma length_entry:
  assumes "entry_fit e"
  shows "length (dumps frepr (entry_json e)) \<le> 1160"
proof -
  have "length (json_string (n_id e)) \<le> 770" "length (json_string (n_token e)) \<le> 194"
    using length_json_string [of "n_id e"] length_json_string [of "n_token e"] assms by (simp_all add: entry_fit_def)
  moreover have "length (int_text (n_size e)) \<le> 19" using assms by (intro int_text_length) (simp_all add: entry_fit_def)
  ultimately show ?thesis
    using assms hex_length key_plain by (simp add: entry_json_def key_lengths entry_fit_def)
qed

lemma length_entries:
  assumes "\<forall>e \<in> set es. entry_fit e"
  shows "length (joined_by '','' (map (dumps frepr) (map entry_json es))) \<le> 1161 * length es"
proof -
  have "length (joined_by '','' (map (dumps frepr) (map entry_json es))) \<le>
      sum_list (map (\<lambda>x. length x + length '','') (map (dumps frepr) (map entry_json es)))"
    by (rule length_joined_by)
  also have "\<dots> \<le> 1161 * length es"
    using assms
  proof (induction es)
    case (Cons e es)
    then show ?case using length_entry [of e frepr] by simp
  qed simp
  finally show ?thesis .
qed

lemma length_descriptor:
  assumes "is_digest xxh" "length b < 10 ^ 19"
  shows "length (dumps frepr (descriptor xxh b)) \<le> 77"
proof -
  have "length (int_text (int (length b))) \<le> 19" using assms(2) by (intro int_text_length) simp_all
  then show ?thesis
    using hex_length [OF digest_hex [OF assms(1)], of b]
    by (simp add: descriptor_def hash_file_eq key_lengths)
qed

lemma isoformat_length: "length (json_string (isoformat_utc t)) = 29"
proof -
  have d: "list_all plain_char (padded k n)" for k n
  proof -
    have "plain_char c" if "is_digit c" for c
      using that unfolding is_digit_def plain_char_def Let_def less_eq_char_def by auto
    then show ?thesis using padded_digits [of _ k n] by (auto simp: list_all_iff)
  qed
  have "list_all plain_char (isoformat_utc t)"
    unfolding isoformat_utc_def list_all_append using d by (auto simp: plain_char_def)
  then show ?thesis by (simp add: json_string_plain isoformat_utc_def)
qed

text \<open>The text of a manifest is at most what \<open>_manifest\<close> reads for the same bound.\<close>

lemma manifest_fits:
  assumes "is_digest xxh" "length (dumps frepr app) \<le> 65536" "hex32 sid" "\<forall>e \<in> set es. entry_fit e"
    "int (length es) \<le> n" "1 \<le> n" "length c < 10 ^ 19" "length q < 10 ^ 19" "length i < 10 ^ 19"
  shows "int (length (dumps frepr (manifest_json app (isoformat_utc t) sid (descriptor xxh c) (descriptor xxh q) (descriptor xxh i) es)))
    \<le> manifest_limit n"
proof -
  let ?es = "length (joined_by '','' (map (dumps frepr) (map entry_json es)))"
  have "length (dumps frepr (descriptor xxh b)) \<le> 77" if "b \<in> {c, q, i}" for b
    using that assms(7-9) length_descriptor [OF assms(1)] by blast
  then have d: "length (dumps frepr (descriptor xxh c)) \<le> 77" "length (dumps frepr (descriptor xxh q)) \<le> 77"
    "length (dumps frepr (descriptor xxh i)) \<le> 77" by simp_all
  have "length (dumps frepr (manifest_json app (isoformat_utc t) sid (descriptor xxh c) (descriptor xxh q) (descriptor xxh i) es))
      \<le> 65536 + 231 + 220 + ?es"
    using assms(2) d hex_length [OF assms(3)]
    by (simp add: manifest_json_def key_lengths isoformat_length int_text_def dec.simps)
  moreover have "int ?es \<le> 1161 * n" using length_entries [OF assms(4), of frepr] assms(5) by linarith
  ultimately show ?thesis using assms(6) unfolding manifest_limit_def by linarith
qed

end
