(* ===== verification/BackupRuns.thy ===== *)
theory BackupRuns
  imports ManifestFacts
begin

text \<open>
  Whole runs: what a successful backup has written, what an unfinished one has, and that a restore of
  a backup goes through.
\<close>

section \<open>Local replicas\<close>

lemma replica_Inr:
  "(replica loads stop late sid r = (r', Inr x)) =
     (hex32 sid \<and> stop = None \<and> late = None \<and> r' = r(LOCAL_MARKER \<mapsto> marker_text sid) \<and> read_marker loads (marker_text sid) = Inr x)"
  by (auto simp: replica_def open_local_def abind_Inr)

lemma object_not_marker: "object_key k \<Longrightarrow> k \<noteq> LOCAL_MARKER"
  by (auto simp: object_key_def LOCAL_MARKER_def starts_with_def)

lemma marker_not_staging: "\<not> starts_with ''staging/'' LOCAL_MARKER"
  by (simp add: LOCAL_MARKER_def starts_with_def)

lemma marker_reads:
  "hex32 sid \<Longrightarrow> loads (marker_text sid) = Some (JObj [(''version'', JInt 1), (''id'', JStr sid)]) \<Longrightarrow>
   read_marker loads (marker_text sid) = Inr sid"
proof -
  assume "hex32 sid"
  then have "length (marker_text sid) \<le> 1024" by (simp add: marker_text_def hex32_def)
  moreover assume "loads (marker_text sid) = Some (JObj [(''version'', JInt 1), (''id'', JStr sid)])" "hex32 sid"
  ultimately show ?thesis by (simp add: read_marker_def text_field_def equals_one_def)
qed

section \<open>A successful backup\<close>

lemma on_root_Inr: "(on_root m s = (s', Inr x)) = (\<exists>r. m (bd_root s) = (r, Inr x) \<and> s' = s\<lparr> bd_root := r \<rparr>)"
  by (auto simp: on_root_def split: prod.splits)

lemma on_root_Inl: "(on_root m s = (s', Inl f)) = (\<exists>r. m (bd_root s) = (r, Inl f) \<and> s' = s\<lparr> bd_root := r \<rparr>)"
  by (auto simp: on_root_def split: prod.splits)

lemma write_manifest_Inr:
  "(write_manifest ox rf j s = (s', Inr u)) = (rf_partial rf = None \<and> s' = s\<lparr> bd_manifest := Some (manifest_text ox j) \<rparr>)"
  by (auto simp: write_manifest_def abind_Inr split: option.splits if_splits)

lemma backup_catalog_Inr:
  assumes "backup_catalog ox rf direct guard sid n d s = (s', Inr (cat, es, sql))"
  shows "cat = ox_snapshot ox d \<and> examine ox cat sid n = Inr es \<and> s' = s\<lparr> bd_catalog := Some cat, bd_sql := Some sql \<rparr>"
  using assms by (auto simp: backup_catalog_def abind_Inr snapshot_def)

lemma backup_Inr:
  assumes "backup ox fs linked put rf direct guard sid now a d src no_backup = (B, Inr j)"
  obtains n app dest es sql r0 root x where "backup_request ox fs a = Inr (n, app, dest)"
    "examine ox (ox_snapshot ox d) sid n = Inr es"
    "replica (ox_loads ox) None None sid Map.empty = (r0, Inr x)"
    "copy_payloads (ox_hash ox) linked put rf src es r0 = (root, Inr ())"
    "B = \<lparr> bd_made = True, bd_catalog = Some (ox_snapshot ox d), bd_sql = Some sql, bd_root = root, bd_manifest = Some (manifest_text ox j) \<rparr>"
    "j = backup_manifest ox app now sid (ox_snapshot ox d) sql root es"
proof -
  from assms obtain n app dest cat es sql s1 s2 s3 s4 x where
    1: "backup_request ox fs a = Inr (n, app, dest)"
    "backup_catalog ox rf direct guard sid n d (no_backup\<lparr> bd_made := True \<rparr>) = (s1, Inr (cat, es, sql))"
    "on_root (replica (ox_loads ox) (rf_stop rf AtReplica) (rf_stop rf AtIdentity) sid) s1 = (s2, Inr x)"
    "on_root (copy_payloads (ox_hash ox) linked put rf src es) s2 = (s3, Inr ())"
    "write_manifest ox rf (backup_manifest ox app now sid cat sql (bd_root s3) es) s3 = (s4, Inr ())"
    "B = s4" "j = backup_manifest ox app now sid cat sql (bd_root s3) es"
    unfolding backup_def by (auto simp: abind_Inr Let_def)
  from backup_catalog_Inr [OF 1(2)] have c: "cat = ox_snapshot ox d" "examine ox cat sid n = Inr es"
    "s1 = no_backup\<lparr> bd_made := True, bd_catalog := Some cat, bd_sql := Some sql \<rparr>" by auto
  from 1(3) obtain r0 where r0: "replica (ox_loads ox) (rf_stop rf AtReplica) (rf_stop rf AtIdentity) sid Map.empty = (r0, Inr x)"
    "s2 = s1\<lparr> bd_root := r0 \<rparr>" by (auto simp: on_root_Inr c no_backup_def)
  from 1(4) obtain root where root: "copy_payloads (ox_hash ox) linked put rf src es r0 = (root, Inr ())"
    "s3 = s1\<lparr> bd_root := root \<rparr>" by (auto simp: on_root_Inr r0)
  have "replica (ox_loads ox) None None sid Map.empty = (r0, Inr x)" using r0(1) by (simp add: replica_Inr)
  with 1 c r0 root that show ?thesis
    by (auto simp: write_manifest_Inr no_backup_def)
qed

text \<open>Conversely: when nothing stops it and its parts succeed, a backup gets to the manifest.\<close>

lemma backup_reaches_manifest:
  assumes "backup_request ox fs a = Inr (n, app, dest)" "examine ox (ox_snapshot ox d) sid n = Inr es"
    "snapshot ox direct d = Inr (ox_snapshot ox d)" "export_sql (py_float_repr (ox_python ox)) (ox_tables ox (ox_snapshot ox d)) = Inr sql"
    "replica (ox_loads ox) None None sid Map.empty = (r0, Inr x)" "rf_stop rf = (\<lambda>_. None)"
    "copy_payloads (ox_hash ox) linked put rf src es r0 = (r1, Inr ())" "rf_partial rf = c"
    "j = backup_manifest ox app now sid (ox_snapshot ox d) sql r1 es"
  shows "backup ox fs linked put rf direct (Inr ()) sid now a d src no_backup =
    (\<lparr> bd_made = True, bd_catalog = Some (ox_snapshot ox d), bd_sql = Some sql, bd_root = r1,
        bd_manifest = Some (case c of None \<Rightarrow> manifest_text ox j | Some k \<Rightarrow> take k (manifest_text ox j)) \<rparr>,
     case c of None \<Rightarrow> Inr j | Some k \<Rightarrow> Inl (Raised (Err PyException ''write failed'')))"
proof -
  let ?s = "no_backup\<lparr> bd_made := True, bd_catalog := Some (ox_snapshot ox d), bd_sql := Some sql \<rparr>"
  have m: "backup_catalog ox rf direct (Inr ()) sid n d (no_backup\<lparr> bd_made := True \<rparr>) = (?s, Inr (ox_snapshot ox d, es, sql))"
    using assms(2-4,6) by (simp add: backup_catalog_def abind_Inr)
  have r: "on_root (replica (ox_loads ox) None None sid) ?s = (?s\<lparr> bd_root := r0 \<rparr>, Inr x)"
    using assms(5) by (simp add: on_root_Inr no_backup_def)
  have p: "on_root (copy_payloads (ox_hash ox) linked put rf src es) (?s\<lparr> bd_root := r0 \<rparr>) = (?s\<lparr> bd_root := r1 \<rparr>, Inr ())"
    using assms(7) by (simp add: on_root_Inr)
  show ?thesis
    using assms(1,6,8,9) m r p
    by (cases c) (simp_all add: backup_def abind_Inr abind_Inl write_manifest_Inr write_manifest_def Let_def no_backup_def)
qed

section \<open>An unfinished backup\<close>

lemma backup_Inl:
  assumes "backup ox fs linked put rf direct guard sid now a d src no_backup = (B, Inl f)"
  shows "bd_manifest B = None \<or> (\<exists>j n. bd_manifest B = Some (take n (manifest_text ox j)))"
proof -
  have k: "bd_manifest s' = bd_manifest s" if "backup_catalog ox rf direct guard sid n d s = (s', r)" for n s s' r
    using that by (cases r) (auto simp: backup_catalog_def abind_Inr abind_Inl)
  have w: "\<exists>j n. bd_manifest s' = Some (take n (manifest_text ox j))" if "write_manifest ox rf j s = (s', Inl f)" for j s s'
    using that by (auto simp: write_manifest_def abind_Inr abind_Inl split: option.splits if_splits)
  have n: "bd_manifest (no_backup\<lparr> bd_made := True \<rparr>) = None" "bd_manifest no_backup = None" by (simp_all add: no_backup_def)
  from assms show ?thesis
    unfolding backup_def
    by (auto simp: abind_Inr abind_Inl on_root_Inr on_root_Inl Let_def n dest!: k w)
qed

section \<open>A restore that goes through\<close>

definition linkless :: "filesystem \<Rightarrow> bool" where
  "linkless fs = (\<forall>p. \<not> fs_linked fs p)"

lemma linkless_path: "linkless fs \<Longrightarrow> backup_path fs p = Inr p"
  by (simp add: backup_path_def linkless_def list_ex_iff)

text \<open>The names and sizes of a catalog: identifiers of at most 128 bytes, tokens of at most 32, sizes below \<open>10^19\<close>.\<close>

definition named :: "db \<Rightarrow> bool" where
  "named d =
     (list_all (\<lambda>b. length (b_id b) \<le> 128) (ms_blobs d) \<and>
      list_all (\<lambda>p. length (p_token p) \<le> 32 \<and> p_size p < 10 ^ 19) (ms_prepared d))"

lemma prepared_of_row: "prepared_of i d = Some p \<Longrightarrow> p \<in> set (ms_prepared d)"
  by (auto simp: prepared_of_def split: option.splits dest: row_with_SomeD)

lemma entry_fits:
  assumes "entries_of d sid n = Inr es" "e \<in> set es" "named d" "hex32 sid" "is_digest xxh" "verified xxh e b"
  shows "entry_fit e"
proof -
  obtain bl p where bp: "bl \<in> set (ms_blobs d)" "prepared_of (b_id bl) d = Some p" "p_storage p = sid" "e = entry_of bl p"
    using entries_of_keys(2) [OF assms(1,2)] by blast
  have "p \<in> set (ms_prepared d)" by (rule prepared_of_row [OF bp(2)])
  then have "length (b_id bl) \<le> 128" "length (p_token p) \<le> 32" "p_size p < 10 ^ 19"
    using assms(3) bp(1) by (simp_all add: named_def list_all_iff)
  moreover have "object_key (n_key e)" "0 \<le> n_size e" "hex32 (n_digest e)"
    using assms(6) digest_hex [OF assms(5), of b] by (auto simp: verified_def)
  ultimately show ?thesis using bp assms(4) by (simp add: entry_fit_def entry_of_def)
qed

lemma restore_request_succeeds:
  assumes "bound 1000000 max_entries = Inr n" "linkless fs" "destination fs dest [source] = Inr x"
    "read_manifest ox n b = Inr m" "verify_file (ox_hash ox) (bd_catalog b) (mf_catalog m) = Inr cat"
    "verify_file (ox_hash ox) (bd_sql b) (mf_sql m) = Inr sql"
    "verify_file (ox_hash ox) (bd_root b LOCAL_MARKER) (mf_identity m) = Inr ident"
    "examine ox cat (mf_storage m) n = Inr (mf_objects m)" "read_marker (ox_loads ox) ident = Inr (mf_storage m)"
  shows "restore_request ox fs max_entries source dest b = Inr (m, cat, mf_objects m)"
  using assms by (simp add: restore_request_def linkless_path)

text \<open>Without failures, everything after the checks goes through.\<close>

lemma restore_files_succeeds:
  assumes "hex32 (mf_storage m)" "read_marker (ox_loads ox) (marker_text (mf_storage m)) = Inr (mf_storage m)"
    "\<And>e. e \<in> set es \<Longrightarrow> \<exists>b. src (n_key e) = Some b \<and> verified (ox_hash ox) e b" "distinct (map n_key es)"
    "hash_file (ox_hash ox) cat = mf_catalog m"
  shows "\<exists>s'. restore_files ox (\<lambda>_. False) (local_root ox smooth) (plain_put fresh) smooth src m cat es nothing_restored =
      (s', Inr (mf_application m)) \<and> rs_catalog s' = Some cat \<and>
      (\<forall>e \<in> set es. rs_root s' (n_key e) = src (n_key e))"
proof -
  let ?r0 = "[LOCAL_MARKER \<mapsto> marker_text (mf_storage m)]"
  have r0: "local_root ox smooth (mf_storage m) Map.empty = (?r0, Inr (mf_storage m))"
    using assms(1,2) by (simp add: local_root_def replica_Inr)
  have "?r0 (n_key e) = None" if "e \<in> set es" for e
    using assms(3) [OF that] object_not_marker by (auto simp: verified_def)
  then obtain r where r: "copy_payloads (ox_hash ox) (\<lambda>_. False) (plain_put fresh) smooth src es ?r0 = (r, Inr ())"
    using local_copy_succeeds [of es src "ox_hash ox" ?r0 fresh] assms(3,4) by blast
  have "r (n_key e) = src (n_key e)" if "e \<in> set es" for e
    using local_target.copy_stores [OF r [unfolded plain_put_def] that] by auto
  then show ?thesis
    using r0 r assms(5)
    by (auto simp: restore_files_def abind_Inr into_root_Inr nothing_restored_def verify_file_Inr)
qed

lemma restore_succeeds:
  assumes "restore_request ox fs max_entries source dest b = Inr (m, cat, es)" "hex32 (mf_storage m)"
    "read_marker (ox_loads ox) (marker_text (mf_storage m)) = Inr (mf_storage m)" "distinct (map n_key es)"
    "\<And>e. e \<in> set es \<Longrightarrow> \<exists>bs. bd_root b (n_key e) = Some bs \<and> verified (ox_hash ox) e bs"
    "hash_file (ox_hash ox) cat = mf_catalog m"
  shows "\<exists>s'. restore_backup ox fs (\<lambda>_. False) (\<lambda>_. Transferred) fresh smooth max_entries source dest b nothing_restored =
      (s', Inr (mf_application m)) \<and> rs_catalog s' = Some cat \<and> (\<forall>e \<in> set es. rs_root s' (n_key e) = bd_root b (n_key e))"
proof -
  obtain s' where "restore_files ox (\<lambda>_. False) (local_root ox smooth) (plain_put fresh) smooth (bd_root b) m cat es nothing_restored =
      (s', Inr (mf_application m))" "rs_catalog s' = Some cat" "\<forall>e \<in> set es. rs_root s' (n_key e) = bd_root b (n_key e)"
    using restore_files_succeeds [OF assms(2,3,5,4,6)] by blast
  with assms(1) show ?thesis by (auto simp: restore_backup_def restore_def abind_Inr plain_put_def)
qed

section \<open>A backup, read back\<close>

lemma backup_request_Inr:
  "backup_request ox fs a = Inr (n, app, dest) \<Longrightarrow> bound 1000000 (ba_max_entries a) = Inr n \<and> application (ox_python ox) (ba_application a) = Inr app"
  by (auto simp: backup_request_def)

lemma bound_Inr: "bound m v = Inr n \<Longrightarrow> 1 \<le> n"
  by (auto simp: bound_def)

lemma application_twice:
  assumes "application py v = Inr app"
  shows "application py (to_py app) = Inr app" "length (dumps (py_float_repr py) app) \<le> 65536"
proof -
  have d: "descriptor_json py v = Inr app" and o: "obj_has nonempty_text app ''id'' \<and> obj_has nonempty_text app ''schema_revision''"
    using assms unfolding application_def ebind_eq_Inr require_eq_Inr sum.inject by blast+
  from o descriptor_json_twice(1) [OF d] show "application py (to_py app) = Inr app" by (simp add: application_def)
  show "length (dumps (py_float_repr py) app) \<le> 65536" by (rule descriptor_json_twice(2) [OF d])
qed

text \<open>The manifest of a backup, as a restore reads it.\<close>

lemma backup_manifest_reads:
  assumes hash: "is_digest (ox_hash ox)" and app: "application (ox_python ox) v = Inr app" and n: "bound 1000000 mx = Inr n"
    and now: "valid_datetime now" "dt_utcoffset now = Some 0" and sid: "hex32 sid" and es: "\<forall>e \<in> set es. entry_fit e" "int (length es) \<le> n"
    and mark: "rt LOCAL_MARKER = Some (marker_text sid)"
    and j: "j = backup_manifest ox app now sid c q rt es" and loads: "ox_loads ox (manifest_text ox j) = Some j" "distinct_fields j"
    and len: "length c < 10 ^ 19" "length q < 10 ^ 19" and B: "bd_manifest B = Some (manifest_text ox j)"
  shows "read_manifest ox n B = Inr \<lparr> mf_application = app, mf_storage = sid, mf_catalog = hash_file (ox_hash ox) c,
    mf_sql = hash_file (ox_hash ox) q, mf_identity = hash_file (ox_hash ox) (marker_text sid), mf_objects = es \<rparr>"
proof -
  have "1 \<le> n" by (rule bound_Inr [OF n])
  have "length (marker_text sid) < 10 ^ 19" using sid by (simp add: marker_text_def hex32_def)
  then have "int (length (manifest_text ox j)) \<le> manifest_limit n"
    using manifest_fits [OF hash application_twice(2) [OF app] sid es \<open>1 \<le> n\<close> len] j mark
    by (simp add: manifest_text_def backup_manifest_def)
  moreover have "fromisoformat (isoformat_utc now) \<noteq> None" using fromisoformat_isoformat [OF now] by simp
  then have "manifest_of_json (ox_python ox) n j = Some \<lparr> mf_application = app, mf_storage = sid, mf_catalog = hash_file (ox_hash ox) c,
      mf_sql = hash_file (ox_hash ox) q, mf_identity = hash_file (ox_hash ox) (marker_text sid), mf_objects = es \<rparr>"
    using manifest_read_back [OF hash application_twice(1) [OF app] _ sid es] j mark by (simp add: backup_manifest_def)
  ultimately show ?thesis using loads B by (simp add: read_manifest_def)
qed

end
