(* ===== verification/SampleBackup.thy ===== *)
theory SampleBackup
  imports BackupRuns SampleRun
begin

text \<open>
  One backup, computed: the catalog of the sample run with one ready blob, its object, the manifest
  that is written and the directory that is left.
\<close>

section \<open>A sample backup\<close>

definition bsid :: string where "bsid = replicate 32 CHR ''a''"

definition bdb :: db where
  "bdb = db3\<lparr> ms_prepared := [sample_token\<lparr> p_storage := bsid \<rparr>] \<rparr>"

definition bentry :: entry where
  "bentry = \<lparr> n_id = ''b1'', n_token = ''t1'', n_storage = bsid, n_key = sample_key, n_size = 5, n_digest = sample_xxh ''hello'' \<rparr>"

definition bapp :: json where
  "bapp = JObj [(''id'', JStr ''x''), (''schema_revision'', JStr ''1'')]"

definition bnow :: datetime where
  "bnow = \<lparr> dt_year = 2024, dt_month = 1, dt_day = 2, dt_hour = 3, dt_minute = 4, dt_second = 5, dt_microsecond = 6, dt_utcoffset = Some 0 \<rparr>"

definition bargs :: backup_args where
  "bargs = \<lparr> ba_application = to_py bapp, ba_max_entries = PInt 10, ba_destination = [''b''], ba_root = [''r''], ba_catalog = [''c''] \<rparr>"

definition bfs :: filesystem where
  "bfs = \<lparr> fs_linked = (\<lambda>_. False), fs_exists = (\<lambda>_. False), fs_dir = (\<lambda>_. True) \<rparr>"

definition box0 :: outside where
  "box0 = \<lparr> ox_hash = sample_xxh, ox_python = \<lparr> py_float_repr = (\<lambda>_. ''0.0''), py_json_depth = 100 \<rparr>, ox_loads = (\<lambda>_. None),
            ox_snapshot = (\<lambda>_. ''db''), ox_open = (\<lambda>b. if b = ''db'' then Some bdb else None),
            ox_tables = (\<lambda>_. \<lparr> ss_objects = [], ss_tables = (\<lambda>_. (True, False)), ss_columns = (\<lambda>_. []), ss_rows = (\<lambda>_ _. []), ss_sequence = [] \<rparr>) \<rparr>"

definition broot :: root where
  "broot = [LOCAL_MARKER \<mapsto> marker_text bsid, sample_key \<mapsto> ''hello'']"

definition bsql :: string where
  "bsql = (case export_sql (\<lambda>_. ''0.0'') (ox_tables box0 ''db'') of Inr s \<Rightarrow> s | Inl _ \<Rightarrow> [])"

definition bmanifest :: json where
  "bmanifest = backup_manifest box0 bapp bnow bsid ''db'' bsql broot [bentry]"

definition box1 :: outside where
  "box1 = box0\<lparr> ox_loads := (\<lambda>b. if b = manifest_text box0 bmanifest then Some bmanifest
                               else if b = marker_text bsid then Some (JObj [(''version'', JInt 1), (''id'', JStr bsid)]) else None) \<rparr>"

lemma bdb_references: "foreign_key_check bdb = []"
  by code_simp

lemma bdb_layouts:
  "verify_objects (own core_names) bdb = Inr ()" "verify_objects (own payload_names) bdb = Inr ()" "verify_lifecycle bdb = Inr ()"
  by code_simp+

lemma bdb_encodings: "has_object bdb ''ms_encoding_format''" "verify_encodings bdb = Inr ()"
  by code_simp+

lemma bdb_finished: "finished bdb" "one_root bsid bdb" "live_unqueued bdb" "same_schema bdb"
  by code_simp+

lemma bdb_formats:
  "filter (\<lambda>x. fst x = ''ms_format'') (formats bdb) = [(''ms_format'', 1)]"
  "filter (\<lambda>x. fst x = ''ms_payload_format'') (formats bdb) = [(''ms_payload_format'', 1)]"
  by code_simp+

lemma bdb_counts:
  "length (ms_schemas bdb) \<le> 9" "length (ms_blobs bdb) \<le> 9" "emapM (check_registered bdb) (ms_schemas bdb) = Inr [()]"
  "ms_migrations bdb = []"
  by code_simp+

lemma bdb_rows:
  "ms_blobs bdb = [\<lparr> b_id = ''b1'', b_schema = ''d'', b_version = 1, b_state = Ready \<rparr>]"
  "prepared_of ''b1'' bdb = Some (sample_token\<lparr> p_storage := bsid \<rparr>)"
  by (simp_all add: bdb_def db3_value prepared_of_def row_with_def sample_token_def)

lemma sample_key_object: "object_key sample_key"
  by code_simp

lemma bread: "emapM (read_entry bsid bdb) (sort_key b_id (ms_blobs bdb)) = Inr [bentry]"
  using sample_key_object by (simp add: bdb_rows read_entry_def entry_of_def bentry_def sample_token_def)

lemma bentries: "entries_of bdb bsid 10 = Inr [bentry]"
  using bdb_counts(1,2) bdb_encodings(1)
  unfolding entries_of_def bdb_layouts bdb_encodings(2) bdb_formats bdb_references bread bdb_counts(3)
  by (simp add: bdb_finished bdb_counts(4))

lemma box1_simps [simp]:
  "ox_hash box1 = sample_xxh" "ox_python box1 = ox_python box0" "ox_snapshot box1 d = ''db''" "ox_open box1 ''db'' = Some bdb"
  "ox_tables box1 = ox_tables box0" "ox_hash box0 = sample_xxh" "manifest_text box1 = manifest_text box0"
  "backup_manifest box1 = backup_manifest box0"
  by (simp_all add: box1_def box0_def manifest_text_def backup_manifest_def fun_eq_iff)

lemma bapplication: "application (ox_python box0) (to_py bapp) = Inr bapp"
proof -
  have "length (dumps (py_float_repr (ox_python box0)) bapp) \<le> 65536"
    using length_json_string [of "''id''"] length_json_string [of "''x''"] length_json_string [of "''schema_revision''"]
      length_json_string [of "''1''"] by (simp add: bapp_def)
  moreover have "to_json (to_py bapp) = Some bapp" "sorted_json bapp = bapp" "json_depth bapp \<le> 100"
    by (simp_all add: bapp_def all_some_eq json_key_def)
  moreover have "as_dict (to_py bapp) \<noteq> None" by (simp add: bapp_def as_dict_def)
  moreover have "obj_has nonempty_text bapp ''id''" "obj_has nonempty_text bapp ''schema_revision''"
    by (simp_all add: bapp_def obj_has_def)
  moreover have "py_json_depth (ox_python box0) = 100" by (simp add: box0_def)
  ultimately show ?thesis by (simp add: application_def descriptor_json_def expect_def require_def split: option.splits)
qed

lemma bkey: "object_key sample_key" "hex32 bsid" "sample_key \<noteq> LOCAL_MARKER"
  "fst (hash_file sample_xxh ''hello'') = 5"
proof -
  show "object_key sample_key" "hex32 bsid" by code_simp+
  then show "sample_key \<noteq> LOCAL_MARKER" by (intro object_not_marker)
  show "fst (hash_file sample_xxh ''hello'') = 5" by (simp add: hash_file_eq)
qed

lemma bverified: "verified sample_xxh bentry ''hello''"
  using bkey by (simp add: verified_def bentry_def)

lemma bmarker_text: "\<exists>r. marker_text bsid = ''{'' @ [CHR 0x22] @ ''v'' @ r"
  by (simp add: marker_text_def json_string_plain plain_char_def)

lemma dumps_first: "\<exists>r. dumps f (JObj ((k, v) # ms)) = CHR ''{'' # json_string k @ r"
  by (cases ms) simp_all

lemma float_nonempty: "(\<forall>q. f q \<noteq> []) \<Longrightarrow> float_text f x \<noteq> []"
  by (cases x) simp_all

lemma dumps_nonempty: "(\<forall>q. f q \<noteq> []) \<Longrightarrow> dumps f j \<noteq> []"
  by (cases "(f, j)" rule: dumps.cases) (auto simp: int_text_def json_string_def dec.simps float_nonempty)

lemma manifest_text_nonempty: "manifest_text box0 j \<noteq> []"
  unfolding manifest_text_def by (rule dumps_nonempty) (simp add: box0_def)

lemma bmanifest_text: "\<exists>r. manifest_text box0 bmanifest = ''{'' @ [CHR 0x22] @ ''a'' @ r"
proof -
  obtain ms where "bmanifest = JObj ((''application'', bapp) # ms)"
    by (simp add: bmanifest_def backup_manifest_def manifest_json_def)
  then have "manifest_text box0 bmanifest = dumps (py_float_repr (ox_python box0)) (JObj ((''application'', bapp) # ms))"
    by (simp only: manifest_text_def)
  then obtain r where "manifest_text box0 bmanifest = CHR ''{'' # json_string ''application'' @ r"
    using dumps_first [of "py_float_repr (ox_python box0)" "''application''" bapp ms] by auto
  then show ?thesis by (simp add: json_string_plain plain_char_def)
qed

lemma bmarker: "ox_loads box1 (marker_text bsid) = Some (JObj [(''version'', JInt 1), (''id'', JStr bsid)])"
  "ox_loads box1 (manifest_text box0 bmanifest) = Some bmanifest"
proof -
  have "marker_text bsid \<noteq> manifest_text box0 bmanifest" using bmarker_text bmanifest_text by auto
  then show "ox_loads box1 (marker_text bsid) = Some (JObj [(''version'', JInt 1), (''id'', JStr bsid)])"
    "ox_loads box1 (manifest_text box0 bmanifest) = Some bmanifest"
    by (simp_all add: box1_def)
qed

lemma bexport: "export_sql (py_float_repr (ox_python box0)) (ox_tables box0 ''db'') = Inr bsql"
  by (simp add: bsql_def export_sql_def box0_def exported_tables_def)

definition bfresh :: "string \<Rightarrow> string" where "bfresh k = ''0''"

lemma bcopy:
  assumes "rf_stop rf = (\<lambda>_. None)" "rf_copied rf = id"
  shows "copy_payloads sample_xxh (\<lambda>_. False) (local_put (\<lambda>_. Transferred) bfresh) rf [sample_key \<mapsto> ''hello''] [bentry]
    [LOCAL_MARKER \<mapsto> marker_text bsid] = (broot, Inr ())"
proof -
  have k: "n_key bentry = sample_key" by (simp add: bentry_def)
  have m: "materialize sample_xxh sample_key (n_size bentry) (n_digest bentry) (get_object sample_key r) = Inr ''hello''"
    if "r sample_key = Some ''hello''" for r
    using materialize_entry [of sample_xxh bentry r "''hello''"] bverified that by (simp add: k)
  have "cleanup_key (\<lambda>_. False) (PStr sample_key) = Inr sample_key" using bkey by (simp add: cleanup_key_def cleanup_pattern_def)
  moreover have "local_put (\<lambda>_. Transferred) bfresh sample_key ''hello'' [LOCAL_MARKER \<mapsto> marker_text bsid] = (broot, Inr ())"
    using bkey by (simp add: local_put_def upload_def broot_def)
  ultimately show ?thesis
    using m [of "[sample_key \<mapsto> ''hello'']"] m [of broot] bkey assms
    by (auto simp: abind_Inr on_part_Inr k broot_def)
qed

definition bdir :: backup_dir where
  "bdir = \<lparr> bd_made = True, bd_catalog = Some ''db'', bd_sql = Some bsql, bd_root = broot, bd_manifest = Some (manifest_text box0 bmanifest) \<rparr>"

lemma bruns:
  assumes "rf_stop rf = (\<lambda>_. None)" "rf_copied rf = id"
  shows "backup box1 bfs (\<lambda>_. False) (local_put (\<lambda>_. Transferred) bfresh) rf True (Inr ()) bsid bnow bargs bdb [sample_key \<mapsto> ''hello''] no_backup
    = (bdir\<lparr> bd_manifest := Some (case rf_partial rf of None \<Rightarrow> manifest_text box0 bmanifest | Some k \<Rightarrow> take k (manifest_text box0 bmanifest)) \<rparr>,
       case rf_partial rf of None \<Rightarrow> Inr bmanifest | Some k \<Rightarrow> Inl (Raised (Err PyException ''write failed'')))"
proof -
  have 1: "backup_request box1 bfs bargs = Inr (10, bapp, [''b''])"
    using bapplication by (simp add: backup_request_def bargs_def bound_def as_int_def destination_def backup_path_def bfs_def
        relative_to_def list_ex_iff)
  have 2: "examine box1 (ox_snapshot box1 bdb) bsid 10 = Inr [bentry]" using bentries by (simp add: examine_def)
  have 3: "snapshot box1 True bdb = Inr (ox_snapshot box1 bdb)" using bdb_references by (simp add: snapshot_def)
  have 4: "export_sql (py_float_repr (ox_python box1)) (ox_tables box1 (ox_snapshot box1 bdb)) = Inr bsql" using bexport by simp
  have 5: "replica (ox_loads box1) None None bsid Map.empty = ([LOCAL_MARKER \<mapsto> marker_text bsid], Inr bsid)"
    using bkey marker_reads [where loads = "ox_loads box1", OF bkey(2) bmarker(1)] by (simp add: replica_Inr)
  have 6: "copy_payloads (ox_hash box1) (\<lambda>_. False) (local_put (\<lambda>_. Transferred) bfresh) rf [sample_key \<mapsto> ''hello''] [bentry]
      [LOCAL_MARKER \<mapsto> marker_text bsid] = (broot, Inr ())"
    using bcopy [OF assms] by (simp only: box1_simps)
  have 7: "bmanifest = backup_manifest box1 bapp bnow bsid (ox_snapshot box1 bdb) bsql broot [bentry]"
    by (simp add: bmanifest_def)
  show ?thesis using backup_reaches_manifest [OF 1 2 3 4 5 assms(1) 6 refl 7] by (simp add: bdir_def split: option.split)
qed

lemma bbackup:
  "backup box1 bfs (\<lambda>_. False) (local_put (\<lambda>_. Transferred) bfresh) smooth True (Inr ()) bsid bnow bargs bdb [sample_key \<mapsto> ''hello''] no_backup
    = (bdir, Inr bmanifest)"
  using bruns [of smooth] by (simp add: smooth_def bdir_def)

lemma sample_digest: "is_digest sample_xxh"
proof -
  have "set (replicate 32 (CHR ''0'')) \<subseteq> {c. is_hex_digit c}" by (simp add: is_hex_digit_def)
  then have "is_hex_digit c" if "c \<in> set (sample_xxh b)" for b c
    using that hex_chars [of c b] set_take_subset [of 32 "hex b @ replicate 32 (CHR ''0'')"] unfolding sample_xxh_def set_append by blast
  moreover have "length (sample_xxh b) = 32" for b by (simp add: sample_xxh_def)
  ultimately show ?thesis by (simp only: is_digest_def digest_form_def list_all_iff) blast
qed

lemma bfacts: "linkless bfs" "destination bfs [''n''] [[''b'']] = Inr [''n'']" "distinct_fields bmanifest"
  "valid_datetime bnow" "dt_utcoffset bnow = Some 0"
proof -
  show "linkless bfs" by (simp add: linkless_def bfs_def)
  show "destination bfs [''n''] [[''b'']] = Inr [''n'']"
    by (simp add: destination_def backup_path_def bfs_def relative_to_def list_ex_iff)
  have "distinct_fields bapp" by (simp add: bapp_def)
  then show "distinct_fields bmanifest" unfolding bmanifest_def backup_manifest_def by (intro manifest_distinct)
  show "valid_datetime bnow" "dt_utcoffset bnow = Some 0" by code_simp+
qed

lemma bsql_length: "length bsql < 200"
  by (simp add: bsql_def export_sql_def box0_def exported_tables_def NL_def)

lemma bnamed: "named bdb"
  using bdb_rows(1) by (simp add: named_def bdb_def sample_token_def)

text \<open>The restore of the sample backup.\<close>

definition bread_back :: manifest where
  "bread_back = \<lparr> mf_application = bapp, mf_storage = bsid, mf_catalog = hash_file sample_xxh ''db'',
    mf_sql = hash_file sample_xxh bsql, mf_identity = hash_file sample_xxh (marker_text bsid), mf_objects = [bentry] \<rparr>"

lemma bread_manifest: "read_manifest box1 10 bdir = Inr bread_back"
proof -
  have e: "\<forall>e \<in> set [bentry]. entry_fit e"
    using entry_fits [OF bentries _ bnamed bkey(2) sample_digest bverified] by simp
  have "is_digest (ox_hash box1)" "application (ox_python box1) (to_py bapp) = Inr bapp" "bound 1000000 (PInt 10) = Inr 10"
    "broot LOCAL_MARKER = Some (marker_text bsid)" "length ''db'' < 10 ^ 19" "length bsql < 10 ^ 19"
    "bmanifest = backup_manifest box1 bapp bnow bsid ''db'' bsql broot [bentry]"
    "bd_manifest bdir = Some (manifest_text box1 bmanifest)" "ox_loads box1 (manifest_text box1 bmanifest) = Some bmanifest"
    using sample_digest bapplication bsql_length bmarker(2) bkey(3)
    by (simp_all add: bound_def as_int_def broot_def bmanifest_def bdir_def)
  from backup_manifest_reads [OF this(1,2,3) bfacts(4,5) bkey(2) e _ this(4,7,9) bfacts(3) this(5,6,8)]
  show ?thesis by (simp add: bread_back_def)
qed

lemma brestored:
  "\<exists>s'. restore_backup box1 bfs (\<lambda>_. False) (\<lambda>_. Transferred) bfresh smooth (PInt 10) [''b''] [''n''] bdir nothing_restored =
     (s', Inr bapp) \<and> rs_catalog s' = Some ''db'' \<and> rs_root s' sample_key = Some ''hello''"
proof -
  have "restore_request box1 bfs (PInt 10) [''b''] [''n''] bdir = Inr (bread_back, ''db'', mf_objects bread_back)"
    using bfacts(1,2) bread_manifest bentries marker_reads [where loads = "ox_loads box1", OF bkey(2) bmarker(1)] bkey(3)
    by (intro restore_request_succeeds [where n = 10])
      (auto simp: bound_def as_int_def bread_back_def verify_file_Inr bdir_def broot_def examine_def)
  moreover have "bd_root bdir sample_key = Some ''hello''" by (simp add: bdir_def broot_def)
  ultimately show ?thesis
    using restore_succeeds [of box1 bfs "PInt 10" "[''b'']" "[''n'']" bdir bread_back "''db''" "[bentry]" bfresh] bverified bkey(2)
      marker_reads [where loads = "ox_loads box1", OF bkey(2) bmarker(1)]
    by (auto simp: bread_back_def bentry_def)
qed

end
