(* ===== verification/BackupProperties.thy ===== *)
theory BackupProperties
  imports SampleBackup
begin

text \<open>
  What backups and restores give: a published catalog is complete, a backup restores what was backed
  up, and what an interrupted backup leaves is refused.
\<close>

section \<open>Published catalogs\<close>

lemma restore_request_entries:
  assumes "restore_request ox fs max_entries source dest b = Inr (m, cat, es)"
  shows "\<exists>n sid. examine ox cat sid n = Inr es"
  using assms unfolding restore_request_def ebind_eq_Inr by blast

text \<open>
  C12. Whatever the files of a backup hold and wherever a restore fails, to a local root or to S3: if
  the destination has a catalog, then that catalog opens, and the object of every blob in it is in
  the destination's storage and passes the verification of its size and digest.
\<close>

theorem published_catalog_is_complete:
  assumes "restore ox fs linked mk_store put rf max_entries source dest b nothing_restored = (s', r)"
    and "put = local_put t fresh \<or> put = s3_put t' fresh" and "rf_copied rf = id" and "rs_catalog s' = Some c"
  shows "\<exists>d. ox_open ox c = Some d \<and> (\<forall>bl \<in> set (ms_blobs d). \<exists>p bs. prepared_of (b_id bl) d = Some p \<and>
    materialize (ox_hash ox) (p_key p) (p_size p) (p_digest p) (get_object (p_key p) (rs_root s')) = Inr bs)"
proof -
  obtain m cat es where q: "restore_request ox fs max_entries source dest b = Inr (m, cat, es)"
    and f: "restore_files ox linked mk_store put rf (bd_root b) m cat es nothing_restored = (s', r)"
    using assms(1,4) by (cases "restore_request ox fs max_entries source dest b")
      (auto simp: restore_def abind_def calc_def nothing_restored_def)
  have "unpublished nothing_restored" by (simp add: unpublished_def nothing_restored_def)
  then have "complete_restore ox m cat es s'"
    using assms(2,3,4) local_target.restore_files_publishes [of ox linked mk_store t fresh rf "bd_root b" m cat es nothing_restored s' r]
      s3_target.restore_files_publishes [of ox linked mk_store t' fresh rf "bd_root b" m cat es nothing_restored s' r] f
    by (auto simp: unpublished_def)
  then have c: "c = cat" "\<And>e. e \<in> set es \<Longrightarrow> \<exists>b. rs_root s' (n_key e) = Some b \<and> verified (ox_hash ox) e b"
    using assms(4) by (auto simp: complete_restore_def)
  obtain n sid where "examine ox cat sid n = Inr es" using restore_request_entries [OF q] by blast
  then obtain d where d: "ox_open ox cat = Some d" "entries_of d sid n = Inr es"
    unfolding examine_def ebind_eq_Inr expect_eq_Inr by blast
  have "\<exists>p bs. prepared_of (b_id bl) d = Some p \<and>
      materialize (ox_hash ox) (p_key p) (p_size p) (p_digest p) (get_object (p_key p) (rs_root s')) = Inr bs"
    if "bl \<in> set (ms_blobs d)" for bl
  proof (rule entries_of_blob [OF d(2) that])
    fix p assume p: "prepared_of (b_id bl) d = Some p" "entry_of bl p \<in> set es"
    from c(2) [OF p(2)] p(1) show ?thesis
      by (auto simp: materialize_object entry_of_def verified_def)
  qed
  with d c show ?thesis by blast
qed

section \<open>Round trip\<close>

text \<open>
  C11. A backup that reports success can be restored: on a free destination the restore succeeds,
  publishes the very catalog that was backed up, returns the application's description, and every
  blob's object holds the bytes that the source held. In particular the manifest never exceeds the
  size that the restore accepts for the same bound.
\<close>

theorem backup_restores:
  assumes "backup ox fs linked (local_put t fresh) rf direct guard sid now a d src no_backup = (B, Inr j)"
    and "linkless fs'" and "destination fs' dest [source] = Inr x"
    and "ox_open ox (ox_snapshot ox d) = Some d" and "ox_loads ox (manifest_text ox j) = Some j" and "distinct_fields j"
    and "ox_loads ox (marker_text sid) = Some (JObj [(''version'', JInt 1), (''id'', JStr sid)])"
    and "is_digest (ox_hash ox)" and "named d" and "valid_datetime now" and "dt_utcoffset now = Some 0"
    and "length (ox_snapshot ox d) < 10 ^ 19" and "length (the (bd_sql B)) < 10 ^ 19"
  shows "\<exists>s' app. restore_backup ox fs' (\<lambda>_. False) (\<lambda>_. Transferred) fresh' smooth (ba_max_entries a) source dest B nothing_restored
      = (s', Inr app) \<and> application (ox_python ox) (ba_application a) = Inr app \<and> rs_catalog s' = Some (ox_snapshot ox d) \<and>
    (\<forall>bl \<in> set (ms_blobs d). \<exists>p bs. prepared_of (b_id bl) d = Some p \<and> src (p_key p) = Some bs \<and> rs_root s' (p_key p) = Some bs)"
proof (rule backup_Inr [OF assms(1)])
  fix n app dest' es sql r0 root y
  assume q: "backup_request ox fs a = Inr (n, app, dest')" and ex: "examine ox (ox_snapshot ox d) sid n = Inr es"
    and rep: "replica (ox_loads ox) None None sid Map.empty = (r0, Inr y)"
    and cp: "copy_payloads (ox_hash ox) linked (local_put t fresh) rf src es r0 = (root, Inr ())"
    and B: "B = \<lparr> bd_made = True, bd_catalog = Some (ox_snapshot ox d), bd_sql = Some sql, bd_root = root, bd_manifest = Some (manifest_text ox j) \<rparr>"
    and j: "j = backup_manifest ox app now sid (ox_snapshot ox d) sql root es"
  have n: "bound 1000000 (ba_max_entries a) = Inr n" and app: "application (ox_python ox) (ba_application a) = Inr app"
    using backup_request_Inr [OF q] by blast+
  have sid: "hex32 sid" and r0: "r0 = [LOCAL_MARKER \<mapsto> marker_text sid]" using rep by (auto simp: replica_Inr)
  have mark: "root LOCAL_MARKER = Some (marker_text sid)"
    using local_target.copy_keeps [OF cp marker_not_staging] by (simp add: r0)
  have ents: "entries_of d sid n = Inr es" using ex assms(4) by (simp add: examine_def)
  have objs: "\<exists>b. src (n_key e) = Some b \<and> root (n_key e) = Some b \<and> verified (ox_hash ox) e b" if "e \<in> set es" for e
    by (rule local_target.copy_stores [OF cp that])
  have fit: "\<forall>e \<in> set es. entry_fit e" using objs entry_fits [OF ents _ assms(9) sid assms(8)] by blast
  let ?m = "\<lparr> mf_application = app, mf_storage = sid, mf_catalog = hash_file (ox_hash ox) (ox_snapshot ox d),
    mf_sql = hash_file (ox_hash ox) sql, mf_identity = hash_file (ox_hash ox) (marker_text sid), mf_objects = es \<rparr>"
  have "read_manifest ox n B = Inr ?m"
    using backup_manifest_reads [OF assms(8) app n assms(10,11) sid fit entries_of_keys(1) [OF ents] mark j assms(5,6)] assms(12,13) B
    by simp
  then have rq: "restore_request ox fs' (ba_max_entries a) source dest B = Inr (?m, ox_snapshot ox d, mf_objects ?m)"
    using n assms(2,3) B mark ex marker_reads [where loads = "ox_loads ox", OF sid assms(7)]
    by (intro restore_request_succeeds) (auto simp: verify_file_Inr)
  have "distinct (map n_key es)" using local_copy_distinct [OF cp] by blast
  then obtain s' where s': "restore_backup ox fs' (\<lambda>_. False) (\<lambda>_. Transferred) fresh' smooth (ba_max_entries a) source dest B nothing_restored = (s', Inr app)"
    "rs_catalog s' = Some (ox_snapshot ox d)" "\<forall>e \<in> set es. rs_root s' (n_key e) = root (n_key e)"
    using restore_succeeds [OF rq, of fresh'] sid objs marker_reads [where loads = "ox_loads ox", OF sid assms(7)] B
    by auto
  have "\<exists>p bs. prepared_of (b_id bl) d = Some p \<and> src (p_key p) = Some bs \<and> rs_root s' (p_key p) = Some bs"
    if "bl \<in> set (ms_blobs d)" for bl
  proof (rule entries_of_blob [OF ents that])
    fix p assume p: "prepared_of (b_id bl) d = Some p" "entry_of bl p \<in> set es"
    then show ?thesis using objs [OF p(2)] s'(3) by (auto simp: entry_of_def)
  qed
  then show ?thesis using app s'(1,2) by blast
qed

section \<open>Unfinished backups\<close>



theorem backup_restores_witness:
  "\<exists>s' app. restore_backup box1 bfs (\<lambda>_. False) (\<lambda>_. Transferred) bfresh smooth (PInt 10) [''b''] [''n''] bdir nothing_restored = (s', Inr app) \<and>
     rs_catalog s' = Some ''db'' \<and> rs_root s' sample_key = Some ''hello''"
proof -
  have o: "ox_open box1 (ox_snapshot box1 bdb) = Some bdb" "ox_loads box1 (manifest_text box1 bmanifest) = Some bmanifest"
    "is_digest (ox_hash box1)" "length (ox_snapshot box1 bdb) < 10 ^ 19" "length (the (bd_sql bdir)) < 10 ^ 19"
    using bmarker(2) sample_digest bsql_length by (simp_all add: bdir_def)
  have b: "ba_max_entries bargs = PInt 10" by (simp add: bargs_def)
  obtain s' app where r: "restore_backup box1 bfs (\<lambda>_. False) (\<lambda>_. Transferred) bfresh smooth (PInt 10) [''b''] [''n''] bdir nothing_restored = (s', Inr app)"
    "rs_catalog s' = Some (ox_snapshot box1 bdb)"
    "\<forall>bl \<in> set (ms_blobs bdb). \<exists>p bs. prepared_of (b_id bl) bdb = Some p \<and> [sample_key \<mapsto> ''hello''] (p_key p) = Some bs \<and> rs_root s' (p_key p) = Some bs"
    using backup_restores [OF bbackup bfacts(1,2) o(1,2) bfacts(3) bmarker(1) o(3) bnamed bfacts(4,5) o(4,5), of bfresh] unfolding b by blast
  moreover have "p_key (sample_token\<lparr> p_storage := bsid \<rparr>) = sample_key" by (simp add: sample_token_def)
  ultimately show ?thesis using bdb_rows by auto
qed

theorem published_catalog_is_complete_witness:
  "\<exists>(s' :: restored) p bs. rs_catalog s' = Some ''db'' \<and> prepared_of ''b1'' bdb = Some p \<and>
     materialize sample_xxh (p_key p) (p_size p) (p_digest p) (get_object (p_key p) (rs_root s')) = Inr bs"
proof -
  obtain s' where r: "restore_backup box1 bfs (\<lambda>_. False) (\<lambda>_. Transferred) bfresh smooth (PInt 10) [''b''] [''n''] bdir nothing_restored = (s', Inr bapp)"
    "rs_catalog s' = Some ''db''"
    using brestored by blast
  have "\<exists>d. ox_open box1 ''db'' = Some d \<and> (\<forall>bl \<in> set (ms_blobs d). \<exists>p bs. prepared_of (b_id bl) d = Some p \<and>
      materialize (ox_hash box1) (p_key p) (p_size p) (p_digest p) (get_object (p_key p) (rs_root s')) = Inr bs)"
    using published_catalog_is_complete [OF r(1) [unfolded restore_backup_def] _ _ r(2), of "\<lambda>_. Transferred" bfresh]
    by (simp add: smooth_def)
  then have "\<exists>p bs. prepared_of ''b1'' bdb = Some p \<and>
      materialize sample_xxh (p_key p) (p_size p) (p_digest p) (get_object (p_key p) (rs_root s')) = Inr bs"
    using bdb_rows(1) by simp
  with r(2) show ?thesis by blast
qed


end
