(* ===== verification/Codecs.thy ===== *)
theory Codecs
  imports JsonText Storage
begin

text \<open>
  Value codecs (\<^verbatim>\<open>handlers.py\<close>): handler declarations, the registry, and the built-in
  codecs. A value is a byte string or an object of an optional library; what numpy, blosc2, pandas,
  pyarrow and polars do with their objects are parameters.
\<close>

section \<open>Handlers and the registry\<close>

datatype 'x datum = Bytes bytes | Object 'x

text \<open>
  \<open>write\<close> gives the file and the descriptor, \<open>read\<close> takes them; both may raise anything.
\<close>

record 'x codec =
  cd_id :: string
  cd_version :: int
  cd_write :: "'x datum \<Rightarrow> (bytes \<times> pyval) res"
  cd_read :: "bytes \<Rightarrow> json \<Rightarrow> 'x datum res"

text \<open>\<open>Handler(id, version, write, read)\<close>; \<open>None\<close> is a callback that is not callable.\<close>

definition mk_codec ::
  "pyval \<Rightarrow> pyval \<Rightarrow> ('x datum \<Rightarrow> (bytes \<times> pyval) res) option \<Rightarrow> (bytes \<Rightarrow> json \<Rightarrow> 'x datum res) option \<Rightarrow> 'x codec res" where
  "mk_codec id' version wr rd =
     ebind (py_identifier id') (\<lambda>i.
     ebind (require (i \<noteq> ''file'' \<and> (case as_int version of None \<Rightarrow> False | Some v \<Rightarrow> 0 < v \<and> v < 2 ^ 63)) ValidationError
              ''Invalid handler ID/version; file is reserved'') (\<lambda>_.
     ebind (expect wr ValidationError ''Handler callbacks must be callable'') (\<lambda>w.
     ebind (expect rd ValidationError ''Handler callbacks must be callable'') (\<lambda>r.
     ebind (expect (as_int version) ValidationError ''Invalid handler ID/version; file is reserved'') (\<lambda>v.
     Inr \<lparr> cd_id = i, cd_version = v, cd_write = w, cd_read = r \<rparr>)))))"

type_synonym 'x registry = "'x codec list"

definition codec_key :: "'x codec \<Rightarrow> string \<times> int" where
  "codec_key c = (cd_id c, cd_version c)"

text \<open>\<open>HandlerRegistry.register(handler)\<close> and \<open>HandlerRegistry.get(id, version)\<close>\<close>

definition register :: "'x codec option \<Rightarrow> 'x registry \<Rightarrow> 'x registry res" where
  "register h reg =
     ebind (expect h ValidationError ''Register a Handler declaration'') (\<lambda>c.
     ebind (require (codec_key c \<notin> codec_key ` set reg) ValidationError ''Handler ID/version is already registered'') (\<lambda>_.
     Inr (reg @ [c])))"

definition get_codec :: "pyval \<Rightarrow> pyval \<Rightarrow> 'x registry \<Rightarrow> 'x codec res" where
  "get_codec id' version reg =
     ebind (expect (as_int version) UnsupportedHandlerError ''Encoding version must be an integer'') (\<lambda>v.
     case id' of
       PStr i \<Rightarrow> expect (find (\<lambda>c. codec_key c = (i, v)) reg) UnsupportedHandlerError ''Unavailable handler''
     | _ \<Rightarrow> raise UnsupportedHandlerError ''Unavailable handler'')"

section \<open>Optional libraries\<close>

record array_info =
  ar_objects :: bool
  ar_metadata :: bool
  ar_kind :: char
  ar_native :: bool
  ar_dtype :: string
  ar_shape :: "int list"

text \<open>A pandas column: its name if it is a string, and the labels, label type and order of a categorical one.\<close>

record pandas_column =
  pc_name :: "string option"
  pc_categories :: "(string option list \<times> string \<times> bool) option"

record 'x libraries =
  lb_has :: "string \<Rightarrow> bool"
  np_array :: "'x \<Rightarrow> array_info option"
  np_savez :: "'x \<Rightarrow> bytes res"
  np_load :: "bytes \<Rightarrow> (string \<times> 'x) list res"
  b2_frame :: "'x \<Rightarrow> bytes res"
  b2_array :: "bytes \<Rightarrow> 'x res"
  pd_frame :: "'x \<Rightarrow> (bool \<times> pandas_column list) option"
  pd_to_parquet :: "'x \<Rightarrow> bytes res"
  pd_from_parquet :: "bytes \<Rightarrow> 'x res"
  pd_categorical :: "string \<Rightarrow> json \<Rightarrow> json \<Rightarrow> json \<Rightarrow> 'x \<Rightarrow> 'x res"
  pd_equal :: "'x \<Rightarrow> 'x \<Rightarrow> bool"
  pa_table :: "'x \<Rightarrow> bool"
  pa_write :: "'x \<Rightarrow> bytes res"
  pa_read :: "bytes \<Rightarrow> 'x res"
  pa_equal :: "'x \<Rightarrow> 'x \<Rightarrow> bool"
  pl_frame :: "'x \<Rightarrow> bool"
  pl_write :: "'x \<Rightarrow> bytes res"
  pl_read :: "bytes \<Rightarrow> 'x res"
  pl_equal :: "'x \<Rightarrow> 'x \<Rightarrow> bool"

text \<open>\<open>dependency(module, extra)\<close>\<close>

definition dependency :: "'x libraries \<Rightarrow> string \<Rightarrow> unit res" where
  "dependency lb name = require (lb_has lb name) MissingDependencyError ''Install the extra of the module''"

fun object_of :: "'x datum \<Rightarrow> 'x option" where
  "object_of (Object x) = Some x"
| "object_of (Bytes b) = None"

section \<open>Equality of descriptors\<close>

text \<open>Python's \<open>==\<close> on JSON values: \<open>False == 0 == 0.0\<close>, and objects have no order.\<close>

fun number :: "json \<Rightarrow> rat option" where
  "number (JBool b) = Some (if b then 1 else 0)"
| "number (JInt n) = Some (of_int n)"
| "number (JFloat (Finite q)) = Some q"
| "number j = None"

fun py_equals :: "json \<Rightarrow> json \<Rightarrow> bool" where
  "py_equals (JArr xs) j = (case j of JArr ys \<Rightarrow> list_all2 py_equals xs ys | _ \<Rightarrow> False)"
| "py_equals (JObj xs) j =
     (case j of
        JObj ys \<Rightarrow> set (map fst xs) = set (map fst ys) \<and>
          list_all (\<lambda>x. case map_of ys (fst x) of None \<Rightarrow> False | Some y \<Rightarrow> py_equals (snd x) y) xs
      | _ \<Rightarrow> False)"
| "py_equals i j = (i = j \<or> (case (number i, number j) of (Some m, Some n) \<Rightarrow> m = n | _ \<Rightarrow> False))"

section \<open>The built-in codecs\<close>

text \<open>\<open>_bytes_write\<close> and \<open>_bytes_read\<close>\<close>

definition bytes_write :: "'x datum \<Rightarrow> (bytes \<times> pyval) res" where
  "bytes_write v =
     (case v of Bytes b \<Rightarrow> Inr (b, PDict []) | Object x \<Rightarrow> raise ValidationError ''bytes handler requires bytes'')"

definition bytes_read :: "bytes \<Rightarrow> json \<Rightarrow> 'x datum res" where
  "bytes_read b j = ebind (require (j = JObj []) ValidationError ''Unsupported bytes descriptor'') (\<lambda>_. Inr (Bytes b))"

text \<open>\<open>_array(value, blosc=...)\<close>\<close>

definition check_array :: "'x libraries \<Rightarrow> bool \<Rightarrow> 'x datum \<Rightarrow> ('x \<times> array_info) res" where
  "check_array lb blosc v =
     ebind (dependency lb ''numpy'') (\<lambda>_.
     ebind (expect (case object_of v of None \<Rightarrow> None | Some x \<Rightarrow> map_option (Pair x) (np_array lb x)) ValidationError
              ''Expected an ndarray without objects or dtype metadata'') (\<lambda>(x, a).
     ebind (require (\<not> ar_objects a \<and> \<not> ar_metadata a) ValidationError
              ''Expected an ndarray without objects or dtype metadata'') (\<lambda>_.
     ebind (require (blosc \<longrightarrow> ar_kind a \<in> set ''biufc'' \<and> ar_native a) ValidationError
              ''Blosc2 v1 supports native-endian numeric and boolean arrays'') (\<lambda>_. Inr (x, a)))))"

definition NPZ :: json where
  "NPZ = JObj [(''format'', JStr ''npz''), (''member'', JStr ''value''), (''pickle'', JBool False)]"

definition npz_write :: "'x libraries \<Rightarrow> 'x datum \<Rightarrow> (bytes \<times> pyval) res" where
  "npz_write lb v =
     ebind (check_array lb False v) (\<lambda>(x, a). ebind (np_savez lb x) (\<lambda>b. Inr (b, to_py NPZ)))"

definition npz_read :: "'x libraries \<Rightarrow> bytes \<Rightarrow> json \<Rightarrow> 'x datum res" where
  "npz_read lb b j =
     ebind (require (py_equals j NPZ) ValidationError ''Unsupported NPZ descriptor'') (\<lambda>_.
     ebind (dependency lb ''numpy'') (\<lambda>_.
     ebind (np_load lb b) (\<lambda>members.
     ebind (expect (case members of [(n, x)] \<Rightarrow> if n = ''value'' then Some x else None | _ \<Rightarrow> None) ValidationError
              ''Expected a single-array NPZ'') (\<lambda>x.
     ebind (check_array lb False (Object x)) (\<lambda>_. Inr (Object x))))))"

definition b2nd :: "array_info \<Rightarrow> json" where
  "b2nd a = JObj [(''format'', JStr ''b2nd''), (''dtype'', JStr (ar_dtype a)), (''shape'', JArr (map JInt (ar_shape a)))]"

definition blosc_write :: "'x libraries \<Rightarrow> 'x datum \<Rightarrow> (bytes \<times> pyval) res" where
  "blosc_write lb v =
     ebind (check_array lb True v) (\<lambda>(x, a).
     ebind (dependency lb ''blosc2'') (\<lambda>_.
     ebind (b2_frame lb x) (\<lambda>b. Inr (b, to_py (b2nd a)))))"

definition blosc_read :: "'x libraries \<Rightarrow> bytes \<Rightarrow> json \<Rightarrow> 'x datum res" where
  "blosc_read lb b j =
     ebind (dependency lb ''blosc2'') (\<lambda>_.
     ebind (b2_array lb b) (\<lambda>x.
     ebind (check_array lb True (Object x)) (\<lambda>(_, a).
     ebind (require (py_equals j (b2nd a)) ValidationError ''Blosc2 array descriptor mismatch'') (\<lambda>_. Inr (Object x)))))"

text \<open>\<open>_parquet_descriptor(descriptor, backend)\<close>\<close>

definition parquet :: "string \<Rightarrow> (string \<times> json) list" where
  "parquet backend =
     [(''format'', JStr ''parquet''), (''backend'', JStr backend),
      (''parquet_version'', JStr (if backend = ''polars'' then ''native'' else ''2.6''))]"

definition parquet_descriptor :: "string \<Rightarrow> json \<Rightarrow> unit res" where
  "parquet_descriptor backend j =
     require (py_equals j (JObj (parquet backend))) ValidationError ''Unsupported Parquet descriptor''"

text \<open>\<open>_pandas_read\<close> and \<open>_pandas_write\<close>\<close>

definition restore_column :: "'x libraries \<Rightarrow> 'x \<Rightarrow> string \<times> json \<Rightarrow> 'x res" where
  "restore_column lb x spec =
     ebind (obj_get (snd spec) ''values'') (\<lambda>vs.
     ebind (obj_get (snd spec) ''dtype'') (\<lambda>dt.
     ebind (obj_get (snd spec) ''ordered'') (\<lambda>ord'.
     pd_categorical lb (fst spec) vs dt ord' x)))"

fun restore_columns :: "'x libraries \<Rightarrow> 'x \<Rightarrow> (string \<times> json) list \<Rightarrow> 'x res" where
  "restore_columns lb x [] = Inr x"
| "restore_columns lb x (c # cs) = ebind (restore_column lb x c) (\<lambda>y. restore_columns lb y cs)"

definition pandas_read :: "'x libraries \<Rightarrow> bytes \<Rightarrow> json \<Rightarrow> 'x datum res" where
  "pandas_read lb b j =
     ebind (obj_items j) (\<lambda>items.
     ebind (parquet_descriptor ''pandas'' (JObj (filter (\<lambda>i. fst i \<noteq> ''categories'') items))) (\<lambda>_.
     ebind (expect (case map_of items ''categories'' of Some (JObj cs) \<Rightarrow> Some cs | _ \<Rightarrow> None) ValidationError
              ''Missing pandas categorical descriptor'') (\<lambda>cs.
     ebind (dependency lb ''pandas'') (\<lambda>_.
     ebind (dependency lb ''pyarrow'') (\<lambda>_.
     ebind (pd_from_parquet lb b) (\<lambda>x.
     ebind (restore_columns lb x cs) (\<lambda>y. Inr (Object y))))))))"

definition category :: "string option list \<times> string \<times> bool \<Rightarrow> json res" where
  "category c =
     (case c of (labels, dtype, ord') \<Rightarrow>
        ebind (expect (all_some labels) ValidationError ''Non-string categories are outside the lossless pandas subset'') (\<lambda>ls.
        Inr (JObj [(''values'', JArr (map JStr ls)), (''dtype'', JStr dtype), (''ordered'', JBool ord')])))"

fun categories :: "(string \<times> pandas_column) list \<Rightarrow> (string \<times> json) list res" where
  "categories [] = Inr []"
| "categories ((n, c) # cs) =
     (case pc_categories c of
        None \<Rightarrow> categories cs
      | Some k \<Rightarrow> ebind (category k) (\<lambda>j. ebind (categories cs) (\<lambda>js. Inr ((n, j) # js))))"

definition pandas_write :: "'x libraries \<Rightarrow> 'x datum \<Rightarrow> (bytes \<times> pyval) res" where
  "pandas_write lb v =
     ebind (dependency lb ''pandas'') (\<lambda>_.
     ebind (dependency lb ''pyarrow'') (\<lambda>_.
     ebind (expect (case object_of v of None \<Rightarrow> None | Some x \<Rightarrow> map_option (Pair x) (pd_frame lb x)) ValidationError
              ''pandas.parquet requires a pandas DataFrame'') (\<lambda>(x, unique, columns).
     ebind (require unique ValidationError ''Parquet v1 requires unique string column names'') (\<lambda>_.
     ebind (expect (all_some (map pc_name columns)) ValidationError ''Parquet v1 requires unique string column names'') (\<lambda>names.
     ebind (categories (zip names columns)) (\<lambda>cs.
     let j = JObj (parquet ''pandas'' @ [(''categories'', JObj cs)]) in
     ebind (pd_to_parquet lb x) (\<lambda>b.
     ebind (pandas_read lb b j) (\<lambda>y.
     ebind (require (case object_of y of None \<Rightarrow> False | Some z \<Rightarrow> pd_equal lb x z) ValidationError
              ''DataFrame is outside the lossless pandas Parquet subset'') (\<lambda>_. Inr (b, to_py j))))))))))"

text \<open>\<open>_arrow_write\<close> and \<open>_arrow_read\<close>\<close>

definition arrow_write :: "'x libraries \<Rightarrow> 'x datum \<Rightarrow> (bytes \<times> pyval) res" where
  "arrow_write lb v =
     ebind (dependency lb ''pyarrow'') (\<lambda>_.
     ebind (dependency lb ''pyarrow.parquet'') (\<lambda>_.
     ebind (expect (case object_of v of None \<Rightarrow> None | Some x \<Rightarrow> if pa_table lb x then Some x else None) ValidationError
              ''pyarrow.parquet requires a PyArrow Table'') (\<lambda>x.
     ebind (pa_write lb x) (\<lambda>b.
     ebind (pa_read lb b) (\<lambda>y.
     ebind (require (pa_equal lb x y) ValidationError ''Table is outside the lossless Arrow Parquet subset'') (\<lambda>_.
     Inr (b, to_py (JObj (parquet ''pyarrow'')))))))))"

definition arrow_read :: "'x libraries \<Rightarrow> bytes \<Rightarrow> json \<Rightarrow> 'x datum res" where
  "arrow_read lb b j =
     ebind (parquet_descriptor ''pyarrow'' j) (\<lambda>_.
     ebind (dependency lb ''pyarrow.parquet'') (\<lambda>_.
     ebind (pa_read lb b) (\<lambda>x. Inr (Object x))))"

text \<open>\<open>_polars_write\<close> and \<open>_polars_read\<close>\<close>

definition polars_write :: "'x libraries \<Rightarrow> 'x datum \<Rightarrow> (bytes \<times> pyval) res" where
  "polars_write lb v =
     ebind (dependency lb ''polars'') (\<lambda>_.
     ebind (expect (case object_of v of None \<Rightarrow> None | Some x \<Rightarrow> if pl_frame lb x then Some x else None) ValidationError
              ''polars.parquet requires an eager Polars DataFrame'') (\<lambda>x.
     ebind (pl_write lb x) (\<lambda>b.
     ebind (pl_read lb b) (\<lambda>y.
     ebind (dependency lb ''polars.testing'') (\<lambda>_.
     ebind (require (pl_equal lb x y) ValidationError ''DataFrame is outside the lossless Polars Parquet subset'') (\<lambda>_.
     Inr (b, to_py (JObj (parquet ''polars'')))))))))"

definition polars_read :: "'x libraries \<Rightarrow> bytes \<Rightarrow> json \<Rightarrow> 'x datum res" where
  "polars_read lb b j =
     ebind (parquet_descriptor ''polars'' j) (\<lambda>_.
     ebind (dependency lb ''polars'') (\<lambda>_.
     ebind (pl_read lb b) (\<lambda>x. Inr (Object x))))"

definition BUILTINS :: "'x libraries \<Rightarrow> 'x registry" where
  "BUILTINS lb =
     [\<lparr> cd_id = ''bytes'', cd_version = 1, cd_write = bytes_write, cd_read = bytes_read \<rparr>,
      \<lparr> cd_id = ''numpy.npz'', cd_version = 1, cd_write = npz_write lb, cd_read = npz_read lb \<rparr>,
      \<lparr> cd_id = ''numpy.blosc2'', cd_version = 1, cd_write = blosc_write lb, cd_read = blosc_read lb \<rparr>,
      \<lparr> cd_id = ''pandas.parquet'', cd_version = 1, cd_write = pandas_write lb, cd_read = pandas_read lb \<rparr>,
      \<lparr> cd_id = ''pyarrow.parquet'', cd_version = 1, cd_write = arrow_write lb, cd_read = arrow_read lb \<rparr>,
      \<lparr> cd_id = ''polars.parquet'', cd_version = 1, cd_write = polars_write lb, cd_read = polars_read lb \<rparr>]"

text \<open>\<open>HandlerRegistry(builtins=...)\<close>\<close>

fun register_all :: "'x codec list \<Rightarrow> 'x registry \<Rightarrow> 'x registry res" where
  "register_all [] reg = Inr reg"
| "register_all (c # cs) reg = ebind (register (Some c) reg) (register_all cs)"

definition new_registry :: "'x libraries \<Rightarrow> bool \<Rightarrow> 'x registry res" where
  "new_registry lb builtins = (if builtins then register_all (BUILTINS lb) [] else Inr [])"

end
