(* ===== verification/Values.thy ===== *)
theory Values
  imports Codecs LocalRoot Opening Maintenance
begin

text \<open>
  Whole calls of the store (\<^verbatim>\<open>store.py\<close>: \<open>prepare_file\<close>, \<open>import_file\<close>,
  \<open>prepare\<close>, \<open>put\<close>, \<open>get\<close>, \<open>materialize\<close>; \<^verbatim>\<open>exporting.py\<close>):
  sequences of transactions, uploads and callbacks on the catalog and the objects of one root.
\<close>

section \<open>The store\<close>

text \<open>
  A store with its storage, its registry, the application's validators (of values, and of files, which
  they may modify), and the fresh identifiers of one call. \<open>en_put\<close> is the upload with whatever
  failures it meets.
\<close>

record 'x env =
  en_hash :: digest
  en_python :: interpreter
  en_registry :: "'x registry"
  en_storage :: string
  en_put :: "string \<Rightarrow> bytes \<Rightarrow> root \<Rightarrow> root \<times> unit res"
  en_validate :: "nat \<Rightarrow> 'x datum \<Rightarrow> unit res"
  en_inspect :: "nat \<Rightarrow> bytes \<Rightarrow> bytes \<times> unit res"
  en_token :: string
  en_object :: string
  en_id :: string

text \<open>One transaction, and one that only reads.\<close>

definition in_tx :: "(db \<Rightarrow> ('a \<times> db) res) \<Rightarrow> (world, 'a) act" where
  "in_tx op = on_part w_db (\<lambda>d w. w\<lparr> w_db := d \<rparr>) (transact deferred_ok op)"

definition reading :: "(db \<Rightarrow> 'a res) \<Rightarrow> (world, 'a) act" where
  "reading f w = calc (f (w_db w)) w"

text \<open>
  \<open>_payload_operation\<close>: no transaction is open, and the catalog counts a reader while the call runs.
\<close>

definition payload_operation :: "bool \<Rightarrow> (world, 'a) act \<Rightarrow> (handle \<times> world, 'a) act" where
  "payload_operation here m s =
     (case s of (h, w) \<Rightarrow>
       (case require_idle here h of
          (h1, Inl e) \<Rightarrow> ((h1, w), Inl (Raised e))
        | (h1, Inr _) \<Rightarrow>
            let h2 = h1\<lparr> h_readers := h_readers h1 + 1 \<rparr>
            in (case m w of (w', r) \<Rightarrow> ((h2\<lparr> h_readers := h_readers h2 - 1 \<rparr>, w'), r))))"

section \<open>Preparation\<close>

text \<open>\<open>_snapshot(source, schema)\<close>\<close>

definition snapshot_source :: "'x env \<Rightarrow> blob_schema \<Rightarrow> source_file \<Rightarrow> (bytes \<times> int \<times> string) res" where
  "snapshot_source env s so =
     ebind (take_copy so) (\<lambda>b.
     case sc_payload_validator s of
       None \<Rightarrow> Inr (b, hash_file (en_hash env) b)
     | Some v \<Rightarrow>
         (case en_inspect env v b of
            (b', seen) \<Rightarrow>
              ebind seen (\<lambda>_.
              ebind (require (hash_file (en_hash env) b' = hash_file (en_hash env) b) IntegrityError
                       ''Payload validator modified the passthrough file'') (\<lambda>_.
              Inr (b', hash_file (en_hash env) b)))))"

text \<open>\<open>_prepare_snapshot(staged, schema, size, digest, encoding=...)\<close>: upload, then journal.\<close>

definition new_prepared :: "'x env \<Rightarrow> blob_schema \<Rightarrow> int \<Rightarrow> string \<Rightarrow> prepared_row" where
  "new_prepared env s size' dig =
     \<lparr> p_token = en_token env, p_storage = en_storage env, p_key = ''objects/'' @ en_object env, p_size = size',
       p_digest = dig, p_algorithm = ''xxh3_128'', p_handler = ''file'', p_handler_version = 1,
       p_schema = sc_name s, p_version = sc_version s \<rparr>"

definition new_token :: "'x env \<Rightarrow> blob_schema \<Rightarrow> int \<Rightarrow> string \<Rightarrow> (string \<times> int \<times> json) option \<Rightarrow> token_arg" where
  "new_token env s size' dig encoding =
     (case encoding of
        None \<Rightarrow> PreparedFile (new_prepared env s size' dig)
      | Some (i, v, j) \<Rightarrow> PreparedValue (new_prepared env s size' dig) i v j)"

definition prepare_snapshot ::
  "'x env \<Rightarrow> bytes \<Rightarrow> blob_schema \<Rightarrow> int \<Rightarrow> string \<Rightarrow> (string \<times> int \<times> json) option \<Rightarrow> (world, token_arg) act" where
  "prepare_snapshot env b s size' dig encoding =
     abind (on_part w_root (\<lambda>r w. w\<lparr> w_root := r \<rparr>) (en_put env (''objects/'' @ en_object env) b)) (\<lambda>_.
     abind (in_tx (\<lambda>d. ebind (journal (new_token env s size' dig encoding) (Some s) d) (\<lambda>d'. Inr ((), d')))) (\<lambda>_.
     give (new_token env s size' dig encoding)))"

text \<open>\<open>prepare_file(source, schema=schema, handler=handler)\<close>\<close>

definition prepare_file :: "'x env \<Rightarrow> source_file \<Rightarrow> blob_schema option \<Rightarrow> string \<Rightarrow> (world, token_arg) act" where
  "prepare_file env so schema handler =
     abind (reading (check_file_schema schema handler)) (\<lambda>s.
     abind (calc (snapshot_source env s so)) (\<lambda>(b, size', dig).
     prepare_snapshot env b s size' dig None))"

text \<open>\<open>_serialize(value, schema, handler, handler_version)\<close>\<close>

definition serialize ::
  "'x env \<Rightarrow> 'x datum \<Rightarrow> blob_schema option \<Rightarrow> pyval \<Rightarrow> pyval \<Rightarrow>
   (world, blob_schema \<times> bytes \<times> (int \<times> string) \<times> (string \<times> int \<times> json)) act" where
  "serialize env v schema handler version =
     abind (calc (get_codec handler version (en_registry env))) (\<lambda>c.
     abind (reading (\<lambda>d. ebind (check_schema True schema d) (\<lambda>s. ebind (verify_encodings d) (\<lambda>_. Inr s)))) (\<lambda>s.
     abind (calc (require (cd_id c \<in> set (sc_handlers s)) ValidationError ''Handler is not allowed by this schema'')) (\<lambda>_.
     abind (calc (case sc_payload_validator s of None \<Rightarrow> Inr () | Some f \<Rightarrow> en_validate env f v)) (\<lambda>_.
     abind (calc (cd_write c v)) (\<lambda>(b, desc).
     abind (calc (descriptor_json (en_python env) desc)) (\<lambda>j.
     give (s, b, hash_file (en_hash env) b, (cd_id c, cd_version c, j))))))))"

text \<open>\<open>prepare(value, schema=schema, handler=handler, handler_version=...)\<close>\<close>

definition prepare_value :: "'x env \<Rightarrow> 'x datum \<Rightarrow> blob_schema option \<Rightarrow> pyval \<Rightarrow> pyval \<Rightarrow> (world, token_arg) act" where
  "prepare_value env v schema handler version =
     abind (serialize env v schema handler version) (\<lambda>(s, b, (size', dig), enc).
     prepare_snapshot env b s size' dig (Some enc))"

section \<open>Importing and putting\<close>

text \<open>\<open>uuid4().hex if id is None else identifier(id)\<close>\<close>

definition blob_identity :: "'x env \<Rightarrow> pyval \<Rightarrow> string res" where
  "blob_identity env id' = (if id' = PNone then Inr (en_id env) else py_identifier id')"

text \<open>
  What \<open>import_file\<close> and \<open>put\<close> do with a staged file: a retry of an earlier call, or the
  preparation and the publication.
\<close>

definition publish_staged ::
  "'x env \<Rightarrow> string \<Rightarrow> blob_schema \<Rightarrow> pyval \<Rightarrow> (string \<times> pyval) list \<Rightarrow> bytes \<Rightarrow> int \<Rightarrow> string \<Rightarrow>
   (string \<times> int \<times> json) option \<Rightarrow> (world, blob_record) act" where
  "publish_staged env i s metadata values b size' dig enc =
     abind (reading (retry (en_storage env) i s values size' dig enc)) (\<lambda>earlier.
     case earlier of
       Some r \<Rightarrow> give r
     | None \<Rightarrow>
         abind (prepare_snapshot env b s size' dig enc) (\<lambda>token.
         in_tx (complete_import (en_storage env) i token s metadata values size' dig enc)))"

text \<open>\<open>import_file(source, schema=schema, metadata=metadata, id=id, handler=handler)\<close>\<close>

definition import_file ::
  "'x env \<Rightarrow> source_file \<Rightarrow> blob_schema option \<Rightarrow> pyval \<Rightarrow> pyval \<Rightarrow> string \<Rightarrow> (world, blob_record) act" where
  "import_file env so schema metadata id' handler =
     abind (calc (blob_identity env id')) (\<lambda>i.
     abind (reading (check_file_schema schema handler)) (\<lambda>s.
     abind (calc (normalize_metadata s metadata)) (\<lambda>values.
     abind (calc (snapshot_source env s so)) (\<lambda>(b, size', dig).
     publish_staged env i s metadata values b size' dig None))))"

text \<open>\<open>put(value, schema=schema, metadata=metadata, handler=handler, handler_version=..., id=id)\<close>\<close>

definition put_value ::
  "'x env \<Rightarrow> 'x datum \<Rightarrow> blob_schema option \<Rightarrow> pyval \<Rightarrow> pyval \<Rightarrow> pyval \<Rightarrow> pyval \<Rightarrow> (world, blob_record) act" where
  "put_value env v schema metadata handler version id' =
     abind (calc (blob_identity env id')) (\<lambda>i.
     abind (calc (expect schema PyException ''no attribute normalize_metadata'')) (\<lambda>s.
     abind (calc (normalize_metadata s metadata)) (\<lambda>values.
     abind (serialize env v (Some s) handler version) (\<lambda>(_, b, (size', dig), enc).
     publish_staged env i s metadata values b size' dig (Some enc)))))"

section \<open>Reading back\<close>

text \<open>\<open>materialize(id)\<close>\<close>

definition blob_bytes :: "'x env \<Rightarrow> pyval \<Rightarrow> (world, bytes) act" where
  "blob_bytes env id' =
     abind (reading (stat id')) (\<lambda>r.
     abind (calc (require (r_storage r = en_storage env) ValidationError
              ''Configured local storage identity does not match this blob'')) (\<lambda>_ w.
     calc (materialize (en_hash env) (r_key r) (r_size r) (r_digest r) (get_object (r_key r) (w_root w))) w))"

text \<open>\<open>get(id)\<close>\<close>

definition get_value :: "'x env \<Rightarrow> pyval \<Rightarrow> (world, 'x datum) act" where
  "get_value env id' =
     abind (reading (stat id')) (\<lambda>r.
     abind (calc (require (r_handler r \<noteq> ''file'') UnsupportedHandlerError
              ''File passthrough has no decoder; use materialize'')) (\<lambda>_.
     abind (calc (get_codec (PStr (r_handler r)) (PInt (r_handler_version r)) (en_registry env))) (\<lambda>c.
     abind (blob_bytes env id') (\<lambda>b.
     abind (calc (expect (r_descriptor r) PyKeyError ''descriptor'')) (\<lambda>j.
     calc (cd_read c b j))))))"

section \<open>Exporting\<close>

text \<open>
  The files of the user, by their resolved paths. A run of \<open>export_file\<close> meets: a failing copy or
  link, a copy with other bytes, a file that another process creates at the destination after the
  first check, and a temporary directory that cannot be removed after the link.
\<close>

type_synonym user_path = "string list"
type_synonym user_files = "user_path \<rightharpoonup> bytes"

record export_faults =
  xf_stop :: bool
  xf_copied :: "bytes \<Rightarrow> bytes"
  xf_race :: "bytes option"
  xf_late :: bool

definition with_suffix :: "user_path \<Rightarrow> string \<Rightarrow> user_path" where
  "with_suffix p s = butlast p @ [last p @ s]"

definition protected_paths :: "user_path \<Rightarrow> user_path list" where
  "protected_paths catalog =
     concat (map (\<lambda>base. map (with_suffix base) [[], ''-wal'', ''-shm'', ''-journal''])
       [catalog, with_suffix catalog ''.meldstore-access''])"

definition managed :: "(user_path \<Rightarrow> user_path) \<Rightarrow> user_path \<Rightarrow> user_path \<Rightarrow> user_path \<Rightarrow> bool" where
  "managed canon catalog root' dest =
     (canon dest \<in> set (protected_paths (canon catalog)) \<or> take (length (canon root')) (canon dest) = canon root')"

definition export_failed :: failure where
  "export_failed = Raised (Err StorageError ''Local export failed; inspect the destination for an already published complete file'')"

definition on_world :: "(world, 'a) act \<Rightarrow> (world \<times> user_files, 'a) act" where
  "on_world m s = (case m (fst s) of (w, r) \<Rightarrow> ((w, snd s), r))"

definition free_destination :: "user_path \<Rightarrow> string \<Rightarrow> (world \<times> user_files, unit) act" where
  "free_destination dest msg s = calc (require (snd s dest = None) ConflictError msg) s"

definition export_file ::
  "'x env \<Rightarrow> (user_path \<Rightarrow> user_path) \<Rightarrow> user_path \<Rightarrow> user_path \<Rightarrow> export_faults \<Rightarrow> pyval \<Rightarrow> user_path \<Rightarrow>
   (world \<times> user_files, user_path) act" where
  "export_file env canon catalog root' xf id' dest =
     abind (free_destination dest ''Export destination already exists; it is never overwritten'') (\<lambda>_.
     abind (calc (require (\<not> managed canon catalog root' dest) ValidationError
              ''Export destination must be outside managed storage/catalog files'')) (\<lambda>_.
     abind (on_world (reading (stat id'))) (\<lambda>r.
     abind (on_world (blob_bytes env id')) (\<lambda>b.
     abind (mayfail (if xf_stop xf then Some export_failed else None)) (\<lambda>_.
     abind (calc (require (hash_file (en_hash env) (xf_copied xf b) = (r_size r, r_digest r)) IntegrityError
              ''Exported copy fails size/XXH3-128 verification'')) (\<lambda>_.
     abind (update (\<lambda>(w, fs). (w, case xf_race xf of None \<Rightarrow> fs | Some c \<Rightarrow> fs(dest \<mapsto> c)))) (\<lambda>_.
     abind (free_destination dest ''Export destination was created concurrently; it was not overwritten'') (\<lambda>_.
     abind (update (\<lambda>(w, fs). (w, fs(dest \<mapsto> xf_copied xf b)))) (\<lambda>_.
     abind (mayfail (if xf_late xf then Some export_failed else None)) (\<lambda>_. give dest))))))))))"

end
