(* ===== verification/ValueFacts.thy ===== *)
theory ValueFacts
  imports Values JsonFacts Operations S3
begin

text \<open>
  What the whole calls of a store leave: the record of a new blob, its object, and what is read back;
  the contract of a codec that loses nothing, and the built-in codecs that keep it.
\<close>

section \<open>Transactions\<close>

lemma in_tx_Inr:
  "(in_tx op w = (w', Inr x)) = (\<exists>d'. op (w_db w) = Inr (x, d') \<and> deferred_ok d' \<and> w' = w\<lparr> w_db := d' \<rparr>)"
  by (auto simp: in_tx_def on_part_Inr transact_def split: sum.splits prod.splits if_splits)

lemma reading_Inr: "(reading f w = (w', Inr x)) = (w' = w \<and> f (w_db w) = Inr x)"
  by (auto simp: reading_def)

lemma reading_run: "f (w_db w) = Inr x \<Longrightarrow> reading f w = (w, Inr x)"
  by (simp add: reading_Inr)

section \<open>The record of a new blob\<close>

lemma read_encoding_frame:
  assumes "objects d' = objects d" "formats d' = formats d" "ms_encodings d' = ms_encodings d"
  shows "read_encoding tok d' = read_encoding tok d"
proof -
  have "has_object d' = has_object d" "verify_encodings d' = verify_encodings d"
    using assms by (simp_all add: fun_eq_iff has_object_def verify_encodings_def verify_objects_def verify_format_def table_def)
  then show ?thesis using assms(3) by (simp add: read_encoding_def)
qed

lemma get_record_id: "get_record ready i d = Inr r \<Longrightarrow> r_id r = i"
  by (elim get_record_Inr) (auto dest: row_with_SomeD)

definition describes_token :: "string \<Rightarrow> string \<Rightarrow> token_arg \<Rightarrow> db \<Rightarrow> blob_record \<Rightarrow> bool" where
  "describes_token sid i arg d r =
     (get_record True i d = Inr r \<and> valid_ident i \<and> r_id r = i \<and> r_storage r = sid \<and>
      (\<exists>p b m md. physical arg = Some p \<and> r = with_encoding (logical arg) (record_row b p m md)))"

lemma new_blob_record:
  assumes "complete_import sid i arg s md vals n dig enc d = Inr (r, d')" "i \<notin> b_id ` set (ms_blobs d)"
  shows "describes_token sid i arg d' r"
  using assms(1)
proof (cases rule: complete_import_effect)
  case Retried
  then show ?thesis using assms(2) by (auto simp: retry_def)
next
  case (New r1 d1)
  from New(2) show ?thesis
  proof (cases rule: finalize_effect)
    case (Existing i' s' vals' p)
    then show ?thesis using assms(2) by (simp add: py_identifier_Inr)
  next
    case fin: (New i' s' vals' p)
    have i: "i' = i" "valid_ident i" using fin(1) by (simp_all add: py_identifier_Inr)
    have p: "physical arg = Some p" "row_with p_token (p_token p) (ms_prepared d) = Some p" "p_storage p = sid"
      using token_usable_Inr [OF fin(4)] by blast+
    have enc: "read_encoding (p_token p) d = Inr (logical arg)"
      using fin(4) p by (auto simp: token_usable_def matches_def)
    obtain bs where d': "d' = d1\<lparr> ms_blobs := bs \<rparr>" and rec: "get_record True i d' = Inr r"
      using publish_effect [OF New(3)] update_ready_frame [of i d1 d'] by blast
    obtain def where d1: "d1 = d\<lparr> ms_blobs := ms_blobs d @ [new_blob i s'],
        data := data d @ [new_row def (table_name s') i (sc_version s') vals'],
        ms_objects := ms_objects d @ [\<lparr> o_blob = i, o_token = p_token p \<rparr>] \<rparr>" "i \<notin> o_blob ` set (ms_objects d)"
      using insert_rows_effect [OF fin(6)] i by blast
    have "row_with o_blob i (ms_objects d) = None" using d1(2) by (simp add: table_simps)
    then have "row_with o_blob i (ms_objects d') = Some \<lparr> o_blob = i, o_token = p_token p \<rparr>"
      using d1 d' by (simp add: row_with_append)
    then have prep: "prepared_of i d' = Some p" using p(2) d1 d' by (simp add: prepared_of_def)
    have e: "read_encoding (p_token p) d' = Inr (logical arg)"
      using enc read_encoding_frame [of d' d "p_token p"] d1 d' by simp
    from rec show ?thesis
    proof (rule get_record_Inr)
      fix b q m sc mdat e'
      assume "row_with b_id i (filter (\<lambda>b. True \<longrightarrow> b_state b = Ready) (ms_blobs d')) = Some b" "prepared_of i d' = Some q"
        "read_encoding (p_token q) d' = Inr e'" "r = with_encoding e' (record_row b q m mdat)"
      moreover from this(1) have "b_id b = i" by (auto dest: row_with_SomeD)
      ultimately show ?thesis using prep e p rec i by (auto simp: describes_token_def)
    qed
  qed
qed

text \<open>What a preparation leaves in the catalog and in the root.\<close>

lemma prepare_snapshot_Inr:
  assumes "prepare_snapshot env b s n dig enc w = (w', Inr token)" "object_target (en_put env)"
  shows "token = new_token env s n dig enc \<and> w_root w' (''objects/'' @ en_object env) = Some b \<and>
    ms_blobs (w_db w') = ms_blobs (w_db w) \<and> (\<forall>e. logical token = Some e \<longrightarrow> e_id e \<noteq> ''file'')"
proof -
  let ?t = "new_token env s n dig enc"
  obtain r d' where put: "en_put env (''objects/'' @ en_object env) b (w_root w) = (r, Inr ())"
    and j: "journal ?t (Some s) (w_db w) = Inr d'" and w': "w' = w\<lparr> w_root := r, w_db := d' \<rparr>" "token = ?t"
    using assms(1) by (auto simp: prepare_snapshot_def abind_Inr on_part_Inr in_tx_Inr)
  have "r (''objects/'' @ en_object env) = Some b" by (rule object_target.put_stored [OF assms(2) put])
  moreover have "ms_blobs d' = ms_blobs (w_db w)" using journal_frame [OF j] by auto
  moreover have "e_id e \<noteq> ''file''" if "logical ?t = Some e" for e
    using j that by (auto simp: journal_def insert_encoding_def)
  ultimately show ?thesis using w' by simp
qed

text \<open>A new blob: its record, its object and its encoding.\<close>

definition published :: "'x env \<Rightarrow> string \<Rightarrow> bytes \<Rightarrow> (string \<times> int \<times> json) option \<Rightarrow> world \<Rightarrow> blob_record \<Rightarrow> bool" where
  "published env i b enc w r =
     (get_record True i (w_db w) = Inr r \<and> valid_ident i \<and> r_id r = i \<and> r_storage r = en_storage env \<and>
      r_key r = ''objects/'' @ en_object env \<and> w_root w (r_key r) = Some b \<and>
      (r_size r, r_digest r) = hash_file (en_hash env) b \<and>
      (case enc of None \<Rightarrow> r_handler r = ''file''
       | Some (h, v, j) \<Rightarrow> h \<noteq> ''file'' \<and> r_handler r = h \<and> r_handler_version r = v \<and> r_descriptor r = Some j))"

lemma published_id: "published env i b enc w r \<Longrightarrow> r_id r = i"
  unfolding published_def by blast

lemma publish_staged_new:
  assumes "publish_staged env i s md vals b n dig enc w = (w', Inr r)" "object_target (en_put env)"
    "r_id r \<notin> b_id ` set (ms_blobs (w_db w))" "(n, dig) = hash_file (en_hash env) b"
  shows "published env i b enc w' r"
proof -
  have early: "i \<in> b_id ` set (ms_blobs d) \<and> r_id x = i" if "retry (en_storage env) i s vals n dig enc d = Inr (Some x)" for d x
    using that by (auto simp: retry_def split: if_splits sum.splits dest: get_record_id)
  obtain o' where o': "retry (en_storage env) i s vals n dig enc (w_db w) = Inr o'"
    "(case o' of Some x \<Rightarrow> give x | None \<Rightarrow> abind (prepare_snapshot env b s n dig enc) (\<lambda>token.
         in_tx (complete_import (en_storage env) i token s md vals n dig enc))) w = (w', Inr r)"
    using assms(1) by (auto simp: publish_staged_def abind_Inr reading_Inr)
  have "o' = None" using o' early assms(3) by (cases o') auto
  then obtain w1 token where p: "prepare_snapshot env b s n dig enc w = (w1, Inr token)"
    and c: "in_tx (complete_import (en_storage env) i token s md vals n dig enc) w1 = (w', Inr r)"
    using o'(2) by (auto simp: abind_Inr)
  note p = prepare_snapshot_Inr [OF p assms(2)]
  obtain d' where c: "complete_import (en_storage env) i token s md vals n dig enc (w_db w1) = Inr (r, d')" "w' = w1\<lparr> w_db := d' \<rparr>"
    using c by (auto simp: in_tx_Inr)
  have "i \<notin> b_id ` set (ms_blobs (w_db w))"
  proof
    assume "i \<in> b_id ` set (ms_blobs (w_db w))"
    then show False using o'(1) \<open>o' = None\<close> by (auto simp: retry_def)
  qed
  then have "describes_token (en_storage env) i token d' r" using new_blob_record [OF c(1)] p by simp
  then show ?thesis
    using p c(2) assms(4)
    by (cases enc) (auto simp: describes_token_def published_def new_token_def new_prepared_def with_encoding_def record_row_def)
qed

text \<open>What a successful \<open>put\<close> and a successful \<open>import_file\<close> with a new identity leave.\<close>

lemma serialize_Inr:
  assumes "serialize env v schema handler version w = (w', Inr (s, b, nd, enc))"
  obtains c desc j where "w' = w" "get_codec handler version (en_registry env) = Inr c" "cd_write c v = Inr (b, desc)"
    "descriptor_json (en_python env) desc = Inr j" "nd = hash_file (en_hash env) b" "enc = (cd_id c, cd_version c, j)"
  using assms by (auto simp: serialize_def abind_Inr reading_Inr)

lemma put_value_new:
  assumes "put_value env v schema md handler version id' w = (w', Inr r)" "object_target (en_put env)"
    "r_id r \<notin> b_id ` set (ms_blobs (w_db w))"
  obtains i c b desc j where "get_codec handler version (en_registry env) = Inr c" "cd_write c v = Inr (b, desc)"
    "descriptor_json (en_python env) desc = Inr j" "published env i b (Some (cd_id c, cd_version c, j)) w' r" "r_id r = i"
proof -
  from assms(1) obtain i s vals s' b nd enc w1 where ser: "serialize env v (Some s) handler version w = (w1, Inr (s', b, nd, enc))"
    and pub: "publish_staged env i s md vals b (fst nd) (snd nd) (Some enc) w1 = (w', Inr r)"
    by (auto simp: put_value_def abind_Inr split: prod.splits)
  from ser show ?thesis
  proof (rule serialize_Inr)
    fix c desc j
    assume c: "w1 = w" "get_codec handler version (en_registry env) = Inr c" "cd_write c v = Inr (b, desc)"
      "descriptor_json (en_python env) desc = Inr j" "nd = hash_file (en_hash env) b" "enc = (cd_id c, cd_version c, j)"
    have "published env i b (Some enc) w' r"
      using publish_staged_new [OF pub assms(2)] assms(3) c(1,5) by simp
    then show ?thesis using that [OF c(2,3,4)] c(6) published_id by metis
  qed
qed

lemma snapshot_source_Inr:
  assumes "snapshot_source env s so = Inr (b, n, dig)"
  shows "(n, dig) = hash_file (en_hash env) b \<and> hash_file (en_hash env) b = hash_file (en_hash env) (so_bytes so) \<and>
    (sc_payload_validator s = None \<longrightarrow> b = so_bytes so)"
  using assms by (auto simp: snapshot_source_def take_copy_def split: option.splits prod.splits)

lemma check_file_schema_Inr: "check_file_schema (Some s) handler d = Inr s' \<Longrightarrow> s' = s"
  using check_schema_Inr [of True "Some s" d s'] by (auto simp: check_file_schema_def)

lemma import_file_new:
  assumes "import_file env so (Some s) md id' handler w = (w', Inr r)" "object_target (en_put env)"
    "r_id r \<notin> b_id ` set (ms_blobs (w_db w))"
  obtains i b where "published env i b None w' r" "r_id r = i" "hash_file (en_hash env) b = hash_file (en_hash env) (so_bytes so)"
    "sc_payload_validator s = None \<longrightarrow> b = so_bytes so"
proof -
  from assms(1) obtain i vals b n dig where src: "snapshot_source env s so = Inr (b, n, dig)"
    and pub: "publish_staged env i s md vals b n dig None w = (w', Inr r)"
    by (auto simp: import_file_def abind_Inr reading_Inr dest!: check_file_schema_Inr split: prod.splits)
  note src = snapshot_source_Inr [OF src]
  have "published env i b None w' r" using publish_staged_new [OF pub assms(2,3)] src by simp
  then show ?thesis using that [of i b] src published_id by blast
qed

section \<open>Reading back\<close>

lemma materialize_published:
  assumes "published env i b enc w r" "hex32 (en_object env)"
  shows "blob_bytes env (PStr i) w = (w, Inr b)"
proof -
  have "object_key (r_key r)" using assms by (simp add: published_def object_key_def starts_with_iff)
  moreover have "(r_size r, r_digest r) = (int (length b), en_hash env b)" "w_root w (r_key r) = Some b"
    using assms(1) unfolding published_def hash_file_eq by blast+
  ultimately have "materialize (en_hash env) (r_key r) (r_size r) (r_digest r) (get_object (r_key r) (w_root w)) = Inr b"
    by (simp add: materialize_object)
  moreover have "stat (PStr i) (w_db w) = Inr r" "r_storage r = en_storage env" using assms(1) by (simp_all add: published_def stat_def)
  ultimately show ?thesis by (simp add: blob_bytes_def abind_Inr reading_Inr)
qed

lemma get_codec_Inr:
  assumes "get_codec handler version reg = Inr c"
  shows "get_codec (PStr (cd_id c)) (PInt (cd_version c)) reg = Inr c" "handler = PStr (cd_id c)" "c \<in> set reg"
proof -
  obtain i v where h: "handler = PStr i" "as_int version = Some v" and f: "find (\<lambda>c. codec_key c = (i, v)) reg = Some c"
    using assms by (cases handler) (auto simp: get_codec_def)
  have "codec_key c = (i, v) \<and> c \<in> set reg" using find_SomeD [OF f] by simp
  then show "get_codec (PStr (cd_id c)) (PInt (cd_version c)) reg = Inr c" "handler = PStr (cd_id c)" "c \<in> set reg"
    using h f by (auto simp: get_codec_def codec_key_def as_int_def)
qed

lemma get_published:
  assumes "published env i b (Some (cd_id c, cd_version c, j)) w r" "hex32 (en_object env)"
    "get_codec handler version (en_registry env) = Inr c"
  shows "get_value env (PStr i) w = calc (cd_read c b j) w"
proof -
  have "reading (stat (PStr i)) w = (w, Inr r)" using assms(1) by (simp add: published_def stat_def reading_Inr)
  then show ?thesis
    using materialize_published [OF assms(1,2)] get_codec_Inr(1) [OF assms(3)] assms(1)
    by (simp add: get_value_def abind_def published_def calc_def)
qed

section \<open>Codecs that lose nothing\<close>

text \<open>
  What the store needs of a codec: the file and the descriptor that \<open>write\<close> gives, the descriptor
  taken through its JSON text, are read as the same value.
\<close>

locale lossless_codec =
  fixes enc :: "'x datum \<Rightarrow> (bytes \<times> pyval) res" and dec :: "bytes \<Rightarrow> json \<Rightarrow> 'x datum res"
    and same :: "'x datum \<Rightarrow> 'x datum \<Rightarrow> bool" and py :: interpreter
  assumes lossless: "enc v = Inr (b, desc) \<Longrightarrow> descriptor_json py desc = Inr j \<Longrightarrow> \<exists>v'. dec b j = Inr v' \<and> same v v'"
begin

lemma survives:
  assumes "get_codec handler version (en_registry env) = Inr c" "cd_write c = enc" "cd_read c = dec"
    and "cd_write c v = Inr (b, desc)" "descriptor_json py desc = Inr j"
    and "published env i b (Some (cd_id c, cd_version c, j)) w r" "hex32 (en_object env)"
  shows "\<exists>v'. get_value env (PStr i) w = (w, Inr v') \<and> same v v'"
proof -
  obtain v' where "dec b j = Inr v'" "same v v'" using lossless assms(2,4,5) by metis
  then show ?thesis using get_published [OF assms(6,7,1)] assms(3) by (auto simp: calc_def)
qed

end

definition same_object :: "('x \<Rightarrow> 'x \<Rightarrow> bool) \<Rightarrow> 'x datum \<Rightarrow> 'x datum \<Rightarrow> bool" where
  "same_object eq v v' = (case (object_of v, object_of v') of (Some x, Some y) \<Rightarrow> eq x y | _ \<Rightarrow> False)"

lemma same_object_simps [simp]: "same_object eq (Object x) (Object y) = eq x y"
  by (simp add: same_object_def)

lemma object_of_Some [simp]: "(object_of v = Some x) = (v = Object x)"
  by (cases v) auto

lemma descriptor_json_of: "acceptable j \<Longrightarrow> descriptor_json py (to_py j) = Inr k \<Longrightarrow> k = sorted_json j"
  using to_json_to_py [of j] by (auto simp: descriptor_json_def)

lemma parquet_kept:
  assumes "descriptor_json py (PDict (map (\<lambda>(k, v). (PStr k, to_py v)) (parquet backend))) = Inr j"
  shows "parquet_descriptor backend j = Inr ()"
proof -
  have "acceptable (JObj (parquet backend))" by (simp add: parquet_def)
  from descriptor_json_of [OF this, of py j] assms show ?thesis
    by (simp add: parquet_def parquet_descriptor_def insert_commute)
qed

lemma empty_kept: "descriptor_json py (PDict []) = Inr j \<Longrightarrow> j = JObj []"
  using descriptor_json_of [of "JObj []" py j] by simp

interpretation bytes_codec: lossless_codec bytes_write bytes_read "(=)" py for py
  by unfold_locales (auto simp: bytes_write_def bytes_read_def dest: empty_kept split: datum.splits)

interpretation arrow_codec: lossless_codec "arrow_write lb" "arrow_read lb" "same_object (pa_equal lb)" py for lb py
  by unfold_locales
    (auto simp: arrow_write_def arrow_read_def dest!: parquet_kept split: option.splits if_splits)

interpretation polars_codec: lossless_codec "polars_write lb" "polars_read lb" "same_object (pl_equal lb)" py for lb py
  by unfold_locales
    (auto simp: polars_write_def polars_read_def dest!: parquet_kept split: option.splits if_splits)

end
