(* ===== verification/SampleValues.thy ===== *)
theory SampleValues
  imports ValueFacts SampleRun
begin

text \<open>
  An import of a file and a \<open>put\<close> of a byte string on concrete values.
\<close>

section \<open>The stores\<close>

definition no_libraries :: "unit libraries" where
  "no_libraries =
     \<lparr> lb_has = (\<lambda>_. False), np_array = (\<lambda>_. None), np_savez = (\<lambda>_. Inr []), np_load = (\<lambda>_. Inr []),
       b2_frame = (\<lambda>_. Inr []), b2_array = (\<lambda>_. Inr ()), pd_frame = (\<lambda>_. None), pd_to_parquet = (\<lambda>_. Inr []),
       pd_from_parquet = (\<lambda>_. Inr ()), pd_categorical = (\<lambda>_ _ _ _ x. Inr x), pd_equal = (=), pa_table = (\<lambda>_. False),
       pa_write = (\<lambda>_. Inr []), pa_read = (\<lambda>_. Inr ()), pa_equal = (=), pl_frame = (\<lambda>_. False),
       pl_write = (\<lambda>_. Inr []), pl_read = (\<lambda>_. Inr ()), pl_equal = (=) \<rparr>"

definition sample_env :: "unit env" where
  "sample_env =
     \<lparr> en_hash = sample_xxh, en_python = \<lparr> py_float_repr = (\<lambda>_. ''0.0''), py_json_depth = 100 \<rparr>,
       en_registry = BUILTINS no_libraries, en_storage = ''root'', en_put = local_put (\<lambda>_. Transferred) (\<lambda>_. ''0''),
       en_validate = (\<lambda>_ _. Inr ()), en_inspect = (\<lambda>_ b. (b, Inr ())), en_token = ''t1'',
       en_object = ''0123456789abcdef0123456789abcdef'', en_id = ''b1'' \<rparr>"

definition sample_source :: source_file where
  "sample_source = \<lparr> so_regular = True, so_before = (1, 2, 3), so_bytes = ''hello'', so_after = (1, 2, 3) \<rparr>"

lemma sample_env_object: "hex32 (en_object sample_env)"
  by code_simp

lemma sample_stored: "local_put (\<lambda>_. Transferred) (\<lambda>_. ''0'') sample_key ''hello'' Map.empty = (root1, Inr ())"
proof -
  have "object_key sample_key" by code_simp
  then show ?thesis by (simp add: local_put_def upload_def root1_def)
qed

section \<open>An import\<close>

lemma sample_prepared:
  "new_token sample_env tiny_schema 5 (sample_xxh ''hello'') None = PreparedFile sample_token"
  by (simp add: new_token_def new_prepared_def sample_env_def sample_token_def sample_key_def tiny_schema_def)

lemma import_parts:
  "check_file_schema (Some tiny_schema) ''file'' db1 = Inr tiny_schema"
  "normalize_metadata tiny_schema sample_metadata = Inr sample_vals"
  "retry ''root'' ''b1'' tiny_schema sample_vals 5 (sample_xxh ''hello'') None db1 = Inr None"
  "journal (PreparedFile sample_token) (Some tiny_schema) db1 = Inr db2"
  "complete_import ''root'' ''b1'' (PreparedFile sample_token) tiny_schema sample_metadata sample_vals 5 (sample_xxh ''hello'') None db2 =
     Inr (sample_record, db3)"
  by code_simp+

lemma import_commits: "deferred_ok db2" "deferred_ok db3"
  by code_simp+

lemma snapshot_parts: "snapshot_source sample_env tiny_schema sample_source = Inr (''hello'', 5, sample_xxh ''hello'')"
  by (simp add: snapshot_source_def take_copy_def sample_source_def sample_env_def tiny_schema_def hash_file_eq)

lemma sample_imported:
  "import_file sample_env sample_source (Some tiny_schema) sample_metadata (PStr ''b1'') ''file'' \<lparr> w_db = db1, w_root = Map.empty \<rparr> =
     (\<lparr> w_db = db3, w_root = root1 \<rparr>, Inr sample_record)"
proof -
  have "py_identifier (PStr ''b1'') = Inr ''b1''" by code_simp
  then have 1: "blob_identity sample_env (PStr ''b1'') = Inr ''b1''" by (simp add: blob_identity_def)
  have 2: "prepare_snapshot sample_env ''hello'' tiny_schema 5 (sample_xxh ''hello'') None \<lparr> w_db = db1, w_root = Map.empty \<rparr> =
      (\<lparr> w_db = db2, w_root = root1 \<rparr>, Inr (PreparedFile sample_token))"
    using sample_prepared import_parts(4) import_commits(1) sample_stored
    by (simp add: prepare_snapshot_def abind_Inr on_part_Inr in_tx_Inr) (simp add: sample_env_def sample_key_def)
  have 3: "in_tx (complete_import ''root'' ''b1'' (PreparedFile sample_token) tiny_schema sample_metadata sample_vals 5 (sample_xxh ''hello'') None)
      \<lparr> w_db = db2, w_root = root1 \<rparr> = (\<lparr> w_db = db3, w_root = root1 \<rparr>, Inr sample_record)"
    using import_parts(5) import_commits(2) by (simp add: in_tx_Inr)
  have "en_storage sample_env = ''root''" by (simp add: sample_env_def)
  then have "publish_staged sample_env ''b1'' tiny_schema sample_metadata sample_vals ''hello'' 5 (sample_xxh ''hello'') None
      \<lparr> w_db = db1, w_root = Map.empty \<rparr> = (\<lparr> w_db = db3, w_root = root1 \<rparr>, Inr sample_record)"
    using 2 3 import_parts(3) by (simp add: publish_staged_def abind_Inr reading_Inr)
  then show ?thesis
    using 1 import_parts(1,2) snapshot_parts by (simp add: import_file_def abind_Inr reading_Inr)
qed

section \<open>A put\<close>

definition byte_schema :: blob_schema where
  "byte_schema = tiny_schema\<lparr> sc_handlers := [''bytes''] \<rparr>"

definition byte_token :: token_arg where
  "byte_token = PreparedValue sample_token ''bytes'' 1 (JObj [])"

definition bytes_db1 :: db where
  "bytes_db1 = db1\<lparr> objects := own core_names @ schema_objects byte_schema @ own payload_names @ [ready_guard byte_schema False] @
       own encoding_names @ own lifecycle_names @ [retire_guard ''d''],
     ms_schemas := [\<lparr> sr_name = ''d'', sr_version = 1, sr_table = ''ms_data_64'', sr_definition = schema_definition byte_schema \<rparr>] \<rparr>"

definition bytes_db2 :: db where
  "bytes_db2 = bytes_db1\<lparr> ms_encodings := [\<lparr> e_token = ''t1'', e_id = ''bytes'', e_version = 1, e_descriptor = JObj [] \<rparr>],
     ms_prepared := [sample_token] \<rparr>"

definition bytes_db3 :: db where
  "bytes_db3 = bytes_db2\<lparr> ms_blobs := [\<lparr> b_id = ''b1'', b_schema = ''d'', b_version = 1, b_state = Ready \<rparr>],
     data := [\<lparr> d_table = ''ms_data_64'', d_id = ''b1'', d_schema_version = 1, d_version = 1, d_cols = [(''n'', PInt 3)] \<rparr>],
     ms_objects := [\<lparr> o_blob = ''b1'', o_token = ''t1'' \<rparr>] \<rparr>"

definition byte_record :: blob_record where
  "byte_record = sample_record\<lparr> r_handler := ''bytes'', r_handler_version := 1, r_descriptor := Some (JObj []) \<rparr>"

lemma bytes_installed: "fst (commit ''root'' [InstallSchema byte_schema] empty_db) = bytes_db1"
  by code_simp

lemma put_parts:
  "check_schema True (Some byte_schema) bytes_db1 = Inr byte_schema"
  "verify_encodings bytes_db1 = Inr ()"
  "normalize_metadata byte_schema sample_metadata = Inr sample_vals"
  "retry ''root'' ''b1'' byte_schema sample_vals 5 (sample_xxh ''hello'') (Some (''bytes'', 1, JObj [])) bytes_db1 = Inr None"
  "journal byte_token (Some byte_schema) bytes_db1 = Inr bytes_db2"
  "complete_import ''root'' ''b1'' byte_token byte_schema sample_metadata sample_vals 5 (sample_xxh ''hello'') (Some (''bytes'', 1, JObj [])) bytes_db2 =
     Inr (byte_record, bytes_db3)"
  by code_simp+

lemma put_commits: "deferred_ok bytes_db2" "deferred_ok bytes_db3"
  by code_simp+

lemma bytes_codec_found: "get_codec (PStr ''bytes'') (PInt 1) (en_registry sample_env) =
    Inr \<lparr> cd_id = ''bytes'', cd_version = 1, cd_write = bytes_write, cd_read = bytes_read \<rparr>"
  by (simp add: get_codec_def as_int_def sample_env_def BUILTINS_def codec_key_def)

lemma bytes_descriptor: "descriptor_json (en_python sample_env) (PDict []) = Inr (JObj [])"
  by (simp add: descriptor_json_def as_dict_def all_some_eq sample_env_def)

lemma sample_serialized:
  "serialize sample_env (Bytes ''hello'') (Some byte_schema) (PStr ''bytes'') (PInt 1) \<lparr> w_db = bytes_db1, w_root = Map.empty \<rparr> =
     (\<lparr> w_db = bytes_db1, w_root = Map.empty \<rparr>, Inr (byte_schema, ''hello'', (5, sample_xxh ''hello''), (''bytes'', 1, JObj [])))"
proof -
  have "sc_handlers byte_schema = [''bytes'']" "sc_payload_validator byte_schema = None"
    by (simp_all add: byte_schema_def tiny_schema_def)
  moreover have "hash_file (en_hash sample_env) ''hello'' = (5, sample_xxh ''hello'')" by (simp add: hash_file_eq sample_env_def)
  ultimately show ?thesis
    using put_parts(1,2) bytes_codec_found bytes_descriptor
    by (simp add: serialize_def abind_Inr reading_Inr bytes_write_def)
qed

lemma byte_prepared:
  "new_token sample_env byte_schema 5 (sample_xxh ''hello'') (Some (''bytes'', 1, JObj [])) = byte_token"
  by (simp add: new_token_def new_prepared_def sample_env_def sample_token_def sample_key_def tiny_schema_def byte_schema_def byte_token_def)

lemma sample_put:
  "put_value sample_env (Bytes ''hello'') (Some byte_schema) sample_metadata (PStr ''bytes'') (PInt 1) (PStr ''b1'')
     \<lparr> w_db = bytes_db1, w_root = Map.empty \<rparr> = (\<lparr> w_db = bytes_db3, w_root = root1 \<rparr>, Inr byte_record)"
proof -
  have "py_identifier (PStr ''b1'') = Inr ''b1''" by code_simp
  then have 1: "blob_identity sample_env (PStr ''b1'') = Inr ''b1''" by (simp add: blob_identity_def)
  have 2: "prepare_snapshot sample_env ''hello'' byte_schema 5 (sample_xxh ''hello'') (Some (''bytes'', 1, JObj []))
      \<lparr> w_db = bytes_db1, w_root = Map.empty \<rparr> = (\<lparr> w_db = bytes_db2, w_root = root1 \<rparr>, Inr byte_token)"
    using byte_prepared put_parts(5) put_commits(1) sample_stored
    by (simp add: prepare_snapshot_def abind_Inr on_part_Inr in_tx_Inr) (simp add: sample_env_def sample_key_def)
  have 3: "in_tx (complete_import ''root'' ''b1'' byte_token byte_schema sample_metadata sample_vals 5 (sample_xxh ''hello'') (Some (''bytes'', 1, JObj [])))
      \<lparr> w_db = bytes_db2, w_root = root1 \<rparr> = (\<lparr> w_db = bytes_db3, w_root = root1 \<rparr>, Inr byte_record)"
    using put_parts(6) put_commits(2) by (simp add: in_tx_Inr)
  have "en_storage sample_env = ''root''" by (simp add: sample_env_def)
  then have "publish_staged sample_env ''b1'' byte_schema sample_metadata sample_vals ''hello'' 5 (sample_xxh ''hello'') (Some (''bytes'', 1, JObj []))
      \<lparr> w_db = bytes_db1, w_root = Map.empty \<rparr> = (\<lparr> w_db = bytes_db3, w_root = root1 \<rparr>, Inr byte_record)"
    using 2 3 put_parts(4) by (simp add: publish_staged_def abind_Inr reading_Inr)
  then show ?thesis
    using 1 put_parts(3) sample_serialized by (simp add: put_value_def abind_Inr)
qed

end
