(* ===== verification/ValueProperties.thy ===== *)
theory ValueProperties
  imports SampleValues
begin

text \<open>
  What the whole calls of a store give: what was put is got, what was imported is exported, and an
  export replaces nothing.
\<close>

section \<open>Putting and getting\<close>

text \<open>What the built-in codecs that check their own files promise of the value that is read.\<close>

definition kept :: "'x libraries \<Rightarrow> string \<Rightarrow> 'x datum \<Rightarrow> 'x datum \<Rightarrow> bool" where
  "kept lb codec v v' =
     (if codec = ''bytes'' then v' = v
      else same_object (if codec = ''pyarrow.parquet'' then pa_equal lb else pl_equal lb) v v')"

definition SELF_CHECKED :: "string list" where
  "SELF_CHECKED = [''bytes'', ''pyarrow.parquet'', ''polars.parquet'']"

lemma builtin_kept:
  assumes "c \<in> set (BUILTINS lb)" "cd_id c \<in> set SELF_CHECKED"
    and "get_codec handler version (en_registry env) = Inr c" "cd_write c v = Inr (b, desc)" "descriptor_json py desc = Inr j"
    and "published env i b (Some (cd_id c, cd_version c, j)) w r" "hex32 (en_object env)"
  shows "\<exists>v'. get_value env (PStr i) w = (w, Inr v') \<and> kept lb (cd_id c) v v'"
proof -
  from assms(1,2) consider "cd_id c = ''bytes''" "cd_write c = bytes_write" "cd_read c = bytes_read"
    | "cd_id c = ''pyarrow.parquet''" "cd_write c = arrow_write lb" "cd_read c = arrow_read lb"
    | "cd_id c = ''polars.parquet''" "cd_write c = polars_write lb" "cd_read c = polars_read lb"
    by (auto simp: BUILTINS_def SELF_CHECKED_def)
  then show ?thesis
  proof cases
    case 1
    then show ?thesis using bytes_codec.survives [OF assms(3) 1(2,3) assms(4-7)] by (simp add: kept_def)
  next
    case 2
    then show ?thesis using arrow_codec.survives [OF assms(3) 2(2,3) assms(4-7)] by (simp add: kept_def)
  next
    case 3
    then show ?thesis using polars_codec.survives [OF assms(3) 3(2,3) assms(4-7)] by (simp add: kept_def)
  qed
qed

lemma put_contract:
  assumes "put = local_put t fresh \<or> put = s3_put t' fresh"
  shows "object_target put"
  using assms local_target.object_target_axioms s3_target.object_target_axioms by auto

text \<open>
  C3. What \<open>put\<close> stored under a new identity is what \<open>get\<close> decodes, on local storage and on S3,
  whatever uploads may have failed before: the decoder of the codec that was asked for, applied to the
  file that its writer made and to the descriptor that it gave. With the built-in codecs for byte
  strings, Arrow tables and Polars frames the value that comes back is the same, by the comparison
  that the codec itself makes.
\<close>

theorem put_then_get:
  assumes "put_value env v schema metadata handler version id' w = (w', Inr r)"
    and "en_put env = local_put t fresh \<or> en_put env = s3_put t' fresh" and "hex32 (en_object env)"
    and "r_id r \<notin> b_id ` set (ms_blobs (w_db w))"
  shows "\<exists>c b desc j. get_codec handler version (en_registry env) = Inr c \<and> cd_write c v = Inr (b, desc) \<and>
    descriptor_json (en_python env) desc = Inr j \<and> get_value env (PStr (r_id r)) w' = calc (cd_read c b j) w' \<and>
    (en_registry env = BUILTINS lb \<and> cd_id c \<in> set SELF_CHECKED \<longrightarrow>
       (\<exists>v'. get_value env (PStr (r_id r)) w' = (w', Inr v') \<and> kept lb (cd_id c) v v'))"
  using assms(1) put_contract [OF assms(2)] assms(4)
proof (rule put_value_new)
  fix i c b desc j
  assume c: "get_codec handler version (en_registry env) = Inr c" "cd_write c v = Inr (b, desc)"
    "descriptor_json (en_python env) desc = Inr j" and p: "published env i b (Some (cd_id c, cd_version c, j)) w' r" "r_id r = i"
  have "\<exists>v'. get_value env (PStr (r_id r)) w' = (w', Inr v') \<and> kept lb (cd_id c) v v'"
    if "en_registry env = BUILTINS lb" "cd_id c \<in> set SELF_CHECKED"
    using builtin_kept [OF _ that(2) c p(1) assms(3)] get_codec_Inr(3) [OF c(1)] that(1) p(2) by simp
  then show ?thesis using c get_published [OF p(1) assms(3) c(1)] p(2) by blast
qed

section \<open>Importing and exporting\<close>

lemma export_steps:
  assumes "stat id' (w_db w) = Inr r" "blob_bytes env id' w = (w, Inr b)" "fs dest = None" "\<not> managed canon catalog root' dest"
    "hash_file (en_hash env) (xf_copied xf b) = (r_size r, r_digest r)" "\<not> xf_stop xf" "xf_race xf = None" "\<not> xf_late xf"
  shows "export_file env canon catalog root' xf id' dest (w, fs) = ((w, fs(dest \<mapsto> xf_copied xf b)), Inr dest)"
proof -
  have "on_world (reading (stat id')) (w, fs) = ((w, fs), Inr r)" "on_world (blob_bytes env id') (w, fs) = ((w, fs), Inr b)"
    using assms(1,2) by (simp_all add: on_world_def reading_run)
  then show ?thesis using assms(3-8) by (simp add: export_file_def abind_Inr free_destination_def)
qed

text \<open>
  C4. A file that \<open>import_file\<close> stored under a new identity is exported unchanged: the export to a
  free path outside the managed files succeeds and leaves there bytes with the size and the hash of
  the source, and exactly the bytes of the source when the schema has no validator (which is given
  the private copy and might change it).
\<close>

theorem import_then_export:
  assumes "import_file env so (Some s) metadata id' handler w = (w', Inr r)"
    and "en_put env = local_put t fresh \<or> en_put env = s3_put t' fresh" and "hex32 (en_object env)"
    and "r_id r \<notin> b_id ` set (ms_blobs (w_db w))"
    and "fs dest = None" and "\<not> managed canon catalog root' dest"
    and "xf_copied xf = id" and "\<not> xf_stop xf" and "xf_race xf = None" and "\<not> xf_late xf"
  shows "\<exists>b. export_file env canon catalog root' xf (PStr (r_id r)) dest (w', fs) = ((w', fs(dest \<mapsto> b)), Inr dest) \<and>
    hash_file (en_hash env) b = hash_file (en_hash env) (so_bytes so) \<and> (sc_payload_validator s = None \<longrightarrow> b = so_bytes so)"
  using assms(1) put_contract [OF assms(2)] assms(4)
proof (rule import_file_new)
  fix i b
  assume p: "published env i b None w' r" "r_id r = i" and b: "hash_file (en_hash env) b = hash_file (en_hash env) (so_bytes so)"
    "sc_payload_validator s = None \<longrightarrow> b = so_bytes so"
  have "stat (PStr i) (w_db w') = Inr r" "hash_file (en_hash env) (xf_copied xf b) = (r_size r, r_digest r)"
    using p assms(7) by (simp_all add: published_def stat_def)
  from export_steps [where fs = fs, OF this(1) materialize_published [OF p(1) assms(3)] assms(5,6) this(2) assms(8,9,10)]
  show ?thesis using b assms(7) p(2) by (intro exI [of _ b]) simp
qed


section \<open>Concrete values\<close>

lemma sample_put_contract: "en_put sample_env = local_put (\<lambda>_. Transferred) (\<lambda>_. ''0'') \<or> en_put sample_env = s3_put (\<lambda>_. S3Done) (\<lambda>_. ''0'')"
  by (simp add: sample_env_def)

theorem put_then_get_witness:
  "get_value sample_env (PStr ''b1'') \<lparr> w_db = bytes_db3, w_root = root1 \<rparr> = (\<lparr> w_db = bytes_db3, w_root = root1 \<rparr>, Inr (Bytes ''hello''))"
proof -
  let ?w = "\<lparr> w_db = bytes_db3, w_root = root1 \<rparr>"
  have i: "r_id byte_record = ''b1''" by (simp add: byte_record_def sample_record_def)
  have n: "r_id byte_record \<notin> b_id ` set (ms_blobs (w_db \<lparr> w_db = bytes_db1, w_root = Map.empty \<rparr>))"
    by (simp add: bytes_db1_def db1_value empty_db_def)
  obtain c b desc j where c: "get_codec (PStr ''bytes'') (PInt 1) (en_registry sample_env) = Inr c"
    "cd_write c (Bytes ''hello'') = Inr (b, desc)" "descriptor_json (en_python sample_env) desc = Inr j"
    "get_value sample_env (PStr ''b1'') ?w = calc (cd_read c b j) ?w"
    using put_then_get [OF sample_put sample_put_contract sample_env_object n] unfolding i by blast
  then have "b = ''hello''" "j = JObj []" "cd_read c = bytes_read"
    using bytes_codec_found bytes_descriptor by (auto simp: bytes_write_def)
  then show ?thesis using c(4) by (simp add: calc_def bytes_read_def)
qed

definition smooth_export :: export_faults where
  "smooth_export = \<lparr> xf_stop = False, xf_copied = id, xf_race = None, xf_late = False \<rparr>"

theorem import_then_export_witness:
  "export_file sample_env id [''c''] [''root''] smooth_export (PStr ''b1'') [''out''] (\<lparr> w_db = db3, w_root = root1 \<rparr>, Map.empty) =
     ((\<lparr> w_db = db3, w_root = root1 \<rparr>, [[''out''] \<mapsto> ''hello'']), Inr [''out''])"
proof -
  have i: "r_id sample_record = ''b1''" by (simp add: sample_record_def)
  have n: "r_id sample_record \<notin> b_id ` set (ms_blobs (w_db \<lparr> w_db = db1, w_root = Map.empty \<rparr>))"
    by (simp add: db1_value empty_db_def)
  have m: "\<not> managed id [''c''] [''root''] [''out'']" by code_simp
  have x: "xf_copied smooth_export = id" "\<not> xf_stop smooth_export" "xf_race smooth_export = None" "\<not> xf_late smooth_export"
    by (simp_all add: smooth_export_def)
  have "sc_payload_validator tiny_schema = None" "so_bytes sample_source = ''hello''"
    by (simp_all add: tiny_schema_def sample_source_def)
  then show ?thesis
    using import_then_export [OF sample_imported sample_put_contract sample_env_object n _ m x, of Map.empty] unfolding i by auto
qed


end
