(* ===== verification/Adapters.thy ===== *)
theory Adapters
  imports Opening
begin

text \<open>
  The MeldDB adapter of \<^verbatim>\<open>catalog.py\<close>: transactions over the context manager of a MeldDB
  connection, the translation of its outcome errors, and \<open>maintain_sqlite\<close>. The package is not
  part of the repository: its manager is a parameter, and \<open>honest\<close> states what the design
  documents under \<^verbatim>\<open>openspec/\<close> say that it promises.
\<close>

section \<open>The manager of MeldDB\<close>

datatype upstream_kind = UpstreamOutcome | UpstreamCommit | UpstreamRollback

text \<open>What a call of the manager raises: an outcome error with its evidence, or anything else.\<close>

datatype manager_error = Evidence upstream_kind phase certainty | Unclassified failure

text \<open>
  \<open>connection.transaction(write)\<close> with its \<open>__enter__\<close>, which leaves the entered manager, and
  \<open>__exit__\<close>, with the exception of the block when it raised one.
\<close>

record ('d, 'm) upstream =
  up_enter :: "bool \<Rightarrow> 'd connection \<Rightarrow> 'd connection \<times> (manager_error + 'm)"
  up_exit :: "'m \<Rightarrow> failure option \<Rightarrow> 'd connection \<Rightarrow> 'd connection \<times> manager_error option"

text \<open>\<open>_translate_melddb_outcome\<close>; an exception that it does not map is on the left.\<close>

fun meld_outcome :: "manager_error \<Rightarrow> failure + error_kind \<times> phase \<times> certainty" where
  "meld_outcome (Unclassified f) = Inl f"
| "meld_outcome (Evidence UpstreamOutcome ph o') = Inr (TransactionOutcomeError, ph, o')"
| "meld_outcome (Evidence UpstreamCommit ph o') = Inr (CommitError, ph, o')"
| "meld_outcome (Evidence UpstreamRollback ph o') = Inr (RollbackError, ph, o')"

text \<open>\<open>isinstance(exc, Exception)\<close>\<close>

definition is_exception :: "failure \<Rightarrow> bool" where
  "is_exception f = (f \<noteq> Interrupt)"

section \<open>Transactions\<close>

text \<open>
  The handlers around \<open>__exit__\<close>: evidence is passed on and quarantines, another exception becomes
  an error of unknown outcome and quarantines, an interrupt leaves as it is.
\<close>

definition exit_failed ::
  "error_kind \<Rightarrow> phase \<Rightarrow> manager_error \<Rightarrow> 'd catalog \<Rightarrow> 'd catalog \<times> 'r tx_result" where
  "exit_failed k ph e c =
     (case meld_outcome e of
        Inr (k', ph', o') \<Rightarrow> (quarantine c, Uncertain k' ph' o')
      | Inl f \<Rightarrow>
          if is_exception f then (quarantine c, Uncertain k ph OutcomeUnknown) else (c, Failed f))"

definition meld_roll_back ::
  "('d, 'm) upstream \<Rightarrow> 'm \<Rightarrow> failure \<Rightarrow> 'd catalog \<Rightarrow> 'd catalog \<times> 'r tx_result" where
  "meld_roll_back up m f c =
     (case up_exit up m (Some f) (conn c) of
        (k, None) \<Rightarrow> (c\<lparr> conn := k \<rparr>, Failed f)
      | (k, Some e) \<Rightarrow> exit_failed RollbackError RollbackPhase e (c\<lparr> conn := k \<rparr>))"

definition meld_finish ::
  "('d, 'm) upstream \<Rightarrow> 'm \<Rightarrow> 'r \<Rightarrow> 'd catalog \<Rightarrow> 'd catalog \<times> 'r tx_result" where
  "meld_finish up m x c =
     (case up_exit up m None (conn c) of
        (k, None) \<Rightarrow> (c\<lparr> conn := k \<rparr>, Returned x)
      | (k, Some e) \<Rightarrow> exit_failed CommitError CommitPhase e (c\<lparr> conn := k \<rparr>))"

text \<open>\<open>with catalog.transaction(write=write)\<close> around a program, with the \<open>melddb\<close> adapter.\<close>

definition meld_transaction ::
  "('d, 'm) upstream \<Rightarrow> bool \<Rightarrow> bool \<Rightarrow> ('d, 'r) prog \<Rightarrow> 'd catalog \<Rightarrow> 'd catalog \<times> 'r tx_result" where
  "meld_transaction up here write body c =
     (case check here c of
        Inl e \<Rightarrow> (c, Failed (Raised e))
      | Inr _ \<Rightarrow>
          if active c then (c, Failed (Raised (Err TransactionError ''Nested transactions are not supported'')))
          else case up_enter up write (conn c) of
            (k, Inl e) \<Rightarrow>
              (case meld_outcome e of
                 Inr (k', ph, o') \<Rightarrow> (quarantine (c\<lparr> conn := k \<rparr>), Uncertain k' ph o')
               | Inl f \<Rightarrow> (c\<lparr> conn := k \<rparr>, Failed (if is_exception f then translate f else f)))
          | (k, Inr m) \<Rightarrow>
              (case exec body (query_only k) (committed k, False) of
                 ((w, failed), r) \<Rightarrow>
                   let c1 = c\<lparr> conn := k\<lparr> working := Some w \<rparr> \<rparr> in
                   case r of
                     Inl f \<Rightarrow> meld_roll_back up m f c1
                   | Inr x \<Rightarrow>
                       if failed
                       then meld_roll_back up m
                              (Raised (Err TransactionError ''Failed transaction cannot commit'')) c1
                       else meld_finish up m x c1))"

section \<open>The documented contract\<close>

text \<open>
  What evidence says about the committed data: \<open>old\<close> before the transaction, \<open>new\<close> what it may
  have committed, if it may have committed at all.
\<close>

fun evidence_true :: "certainty \<Rightarrow> 'd \<Rightarrow> 'd option \<Rightarrow> 'd \<Rightarrow> bool" where
  "evidence_true OutcomeUnknown old new now = (now = old \<or> Some now = new)"
| "evidence_true OutcomeCommitted old new now = (Some now = new)"
| "evidence_true OutcomeRolledBack old new now = (now = old)"

lemma evidence_true_old [simp]: "evidence_true o' old None now \<longleftrightarrow> o' \<noteq> OutcomeCommitted \<and> now = old"
  by (cases o') auto

text \<open>
  Entering: no data is committed; a manager that is entered enforces reading; one that raises a
  plain exception has recovered.
\<close>

definition honest_enter :: "('d, 'm) upstream \<Rightarrow> bool" where
  "honest_enter up =
     (\<forall>write c k r. working c = None \<and> up_enter up write c = (k, r) \<longrightarrow>
        committed k = committed c \<and>
        (case r of
           Inr m \<Rightarrow> query_only k = (query_only c \<or> \<not> write)
         | Inl (Evidence u ph o') \<Rightarrow> o' \<noteq> OutcomeCommitted
         | Inl (Unclassified f) \<Rightarrow> working k = None \<and> query_only k = query_only c))"

text \<open>
  Leaving: without an exception of its own it has committed or rolled back and restored the
  connection; evidence is true; an interrupt passes through only when nothing was committed and
  the connection is restored; \<open>COMMIT\<close> accepts only data that meets the deferred constraints.
\<close>

definition honest_exit :: "('d \<Rightarrow> bool) \<Rightarrow> ('d, 'm) upstream \<Rightarrow> bool" where
  "honest_exit ok up =
     (\<forall>write c k m w f k' r.
        working c = None \<and> up_enter up write c = (k, Inr m) \<and>
        up_exit up m f (k\<lparr> working := Some w \<rparr>) = (k', r) \<longrightarrow>
        (let new = (if f = None \<and> ok w then Some w else None);
             restored = (working k' = None \<and> query_only k' = query_only c) in
         case r of
           None \<Rightarrow> restored \<and> (if f = None then Some (committed k') = new else committed k' = committed c)
         | Some (Evidence u ph o') \<Rightarrow> evidence_true o' (committed c) new (committed k')
         | Some (Unclassified g) \<Rightarrow>
             if is_exception g then evidence_true OutcomeUnknown (committed c) new (committed k')
             else restored \<and> committed k' = committed c))"

definition honest :: "('d \<Rightarrow> bool) \<Rightarrow> ('d, 'm) upstream \<Rightarrow> bool" where
  "honest ok up = (honest_enter up \<and> honest_exit ok up)"

lemma honest_enterD:
  assumes "honest ok up" "working c = None" "up_enter up write c = (k, r)"
  shows "committed k = committed c"
    "r = Inr m \<Longrightarrow> query_only k = (query_only c \<or> \<not> write)"
    "r = Inl (Evidence u ph o') \<Longrightarrow> o' \<noteq> OutcomeCommitted"
    "r = Inl (Unclassified f) \<Longrightarrow> working k = None \<and> query_only k = query_only c"
proof -
  have "honest_enter up" using assms(1) by (simp add: honest_def)
  from this [unfolded honest_enter_def, rule_format, OF conjI, OF assms(2,3)]
  show "committed k = committed c"
    "r = Inr m \<Longrightarrow> query_only k = (query_only c \<or> \<not> write)"
    "r = Inl (Evidence u ph o') \<Longrightarrow> o' \<noteq> OutcomeCommitted"
    "r = Inl (Unclassified f) \<Longrightarrow> working k = None \<and> query_only k = query_only c"
    by auto
qed

lemma honest_exitD:
  assumes "honest ok up" "working c = None" "up_enter up write c = (k, Inr m)"
    and "up_exit up m f (k\<lparr> working := Some w \<rparr>) = (k', r)"
  defines "new \<equiv> (if f = None \<and> ok w then Some w else None)"
  shows "r = None \<Longrightarrow> working k' = None \<and> query_only k' = query_only c \<and>
      (if f = None then Some (committed k') = new else committed k' = committed c)"
    "r = Some (Evidence u ph o') \<Longrightarrow> evidence_true o' (committed c) new (committed k')"
    "r = Some (Unclassified g) \<Longrightarrow> is_exception g \<Longrightarrow> committed k' = committed c \<or> Some (committed k') = new"
    "r = Some (Unclassified g) \<Longrightarrow> \<not> is_exception g \<Longrightarrow>
       working k' = None \<and> query_only k' = query_only c \<and> committed k' = committed c"
proof -
  have "honest_exit ok up" using assms(1) by (simp add: honest_def)
  from this [unfolded honest_exit_def Let_def, rule_format, OF conjI, OF assms(2) conjI, OF assms(3,4)]
  show "r = None \<Longrightarrow> working k' = None \<and> query_only k' = query_only c \<and>
      (if f = None then Some (committed k') = new else committed k' = committed c)"
    "r = Some (Evidence u ph o') \<Longrightarrow> evidence_true o' (committed c) new (committed k')"
    "r = Some (Unclassified g) \<Longrightarrow> is_exception g \<Longrightarrow> committed k' = committed c \<or> Some (committed k') = new"
    "r = Some (Unclassified g) \<Longrightarrow> \<not> is_exception g \<Longrightarrow>
       working k' = None \<and> query_only k' = query_only c \<and> committed k' = committed c"
    unfolding new_def by (auto split: if_splits)
qed

lemma exit_failed_cases:
  assumes "exit_failed k p e c = (c', r)"
  obtains (Evidence) u ph o' k' where "e = Evidence u ph o'" "c' = quarantine c" "r = Uncertain k' ph o'"
  | (Exception) f where "e = Unclassified f" "is_exception f" "c' = quarantine c" "r = Uncertain k p OutcomeUnknown"
  | (Interrupt) f where "e = Unclassified f" "\<not> is_exception f" "c' = c" "r = Failed f"
proof (cases e)
  case (Evidence u ph o')
  then show ?thesis using that(1) assms by (cases u) (auto simp: exit_failed_def)
next
  case (Unclassified f)
  then show ?thesis using that(2,3) assms by (cases "is_exception f") (auto simp: exit_failed_def)
qed

lemma meld_roll_back_outcome:
  assumes h: "honest ok up" "working k0 = None" "up_enter up write k0 = (k, Inr m)"
    and t: "meld_roll_back up m f (c\<lparr> conn := k\<lparr> working := Some w \<rparr> \<rparr>) = (c', r)" and i: "idle c" "conn c = k0"
  shows "settled c c' r \<and> committed (conn c') = committed k0 \<and> (\<forall>x. r \<noteq> Returned x) \<and>
    outcome_true r (committed k0) w (committed (conn c'))"
proof -
  obtain k' e where x: "up_exit up m (Some f) (k\<lparr> working := Some w \<rparr>) = (k', e)" by fastforce
  note E = honest_exitD [OF h x]
  show ?thesis
  proof (cases e)
    case None
    with t x i E(1) show ?thesis
      by (auto simp: meld_roll_back_def settled_def idle_def)
  next
    case (Some e')
    then have t': "exit_failed RollbackError RollbackPhase e' (c\<lparr> conn := k' \<rparr>) = (c', r)"
      using t x by (simp add: meld_roll_back_def)
    then show ?thesis
    proof (cases rule: exit_failed_cases)
      case (Evidence u ph o' k'')
      with i E(2) [of u ph o'] Some show ?thesis
        by (cases o') (auto simp: settled_def idle_def quarantine_def)
    next
      case (Exception g)
      with i E(3) [of g] Some show ?thesis by (auto simp: settled_def idle_def quarantine_def)
    next
      case (Interrupt g)
      with i E(4) [of g] Some show ?thesis by (auto simp: settled_def idle_def)
    qed
  qed
qed

lemma meld_finish_outcome:
  assumes h: "honest ok up" "working k0 = None" "up_enter up write k0 = (k, Inr m)"
    and t: "meld_finish up m x (c\<lparr> conn := k\<lparr> working := Some w \<rparr> \<rparr>) = (c', r)" and i: "idle c" "conn c = k0"
  shows "settled c c' r \<and> outcome_true r (committed k0) w (committed (conn c')) \<and>
    (committed (conn c') \<noteq> committed k0 \<or> (\<exists>y. r = Returned y) \<longrightarrow> ok w)"
proof -
  obtain k' e where x: "up_exit up m None (k\<lparr> working := Some w \<rparr>) = (k', e)" by fastforce
  note E = honest_exitD [OF h x]
  show ?thesis
  proof (cases e)
    case None
    with t x i E(1) show ?thesis
      by (auto simp: meld_finish_def settled_def idle_def split: if_splits)
  next
    case (Some e')
    then have t': "exit_failed CommitError CommitPhase e' (c\<lparr> conn := k' \<rparr>) = (c', r)"
      using t x by (simp add: meld_finish_def)
    then show ?thesis
    proof (cases rule: exit_failed_cases)
      case (Evidence u ph o' k'')
      with i E(2) [of u ph o'] Some show ?thesis
        by (cases o') (auto simp: settled_def idle_def quarantine_def split: if_splits)
    next
      case (Exception g)
      with i E(3) [of g] Some show ?thesis
        by (auto simp: settled_def idle_def quarantine_def split: if_splits)
    next
      case (Interrupt g)
      with i E(4) [of g] Some show ?thesis by (auto simp: settled_def idle_def)
    qed
  qed
qed

lemma meld_transaction_outcome:
  fixes c :: "'d catalog"
  defines "D \<equiv> committed (conn c)"
  assumes t: "meld_transaction up True write body c = (c', r)" and h: "honest ok up" and i: "idle c"
    and q: "qo = (query_only (conn c) \<or> \<not> write)"
  shows "settled c c' r \<and> outcome_true r D (body_result body qo D) (committed (conn c')) \<and>
    (committed (conn c') \<noteq> D \<or> (\<exists>x. r = Returned x) \<longrightarrow>
      body_commits body qo D \<and> ok (body_result body qo D))"
proof -
  have a: "\<not> active c" "working (conn c) = None" "check True c = Inr ()"
    using i by (simp_all add: idle_def check_def)
  obtain k e where n: "up_enter up write (conn c) = (k, e)" by fastforce
  note N = honest_enterD [OF h a(2) n]
  show ?thesis
  proof (cases e)
    case (Inl e')
    show ?thesis
    proof (cases e')
      case (Evidence u ph o')
      obtain k' where "meld_outcome e' = Inr (k', ph, o')" using Evidence by (cases u) auto
      then have "c' = quarantine (c\<lparr> conn := k \<rparr>)" "r = Uncertain k' ph o'"
        using t a n Inl by (simp_all add: meld_transaction_def)
      with N(1) N(3) [of u ph o'] Inl Evidence i show ?thesis
        by (cases o') (auto simp: settled_def idle_def quarantine_def D_def)
    next
      case (Unclassified f)
      then have "c' = c\<lparr> conn := k \<rparr>" "\<exists>g. r = Failed g"
        using t a n Inl by (auto simp: meld_transaction_def)
      with N(1) N(4) [of f] Inl Unclassified i show ?thesis
        by (auto simp: settled_def idle_def D_def)
    qed
  next
    case (Inr m)
    obtain w failed b where e: "exec body qo (D, False) = ((w, failed), b)" by (metis prod.exhaust)
    have k: "committed k = D" "query_only k = qo" using N(1) N(2) [of m] Inr q by (simp_all add: D_def)
    have W: "body_result body qo D = w" using e by (simp add: body_result_def)
    have n': "up_enter up write (conn c) = (k, Inr m)" using n Inr by simp
    show ?thesis
    proof (cases "\<not> failed \<and> (\<exists>x. b = Inr x)")
      case True
      then obtain x where x: "b = Inr x" "\<not> failed" by blast
      have f: "meld_finish up m x (c\<lparr> conn := k\<lparr> working := Some w \<rparr> \<rparr>) = (c', r)"
        using t a n' e k x by (simp add: meld_transaction_def Let_def)
      have "body_commits body qo D" using e x by (simp add: body_commits_def)
      then show ?thesis using meld_finish_outcome [OF h a(2) n' f i refl] W by (auto simp: D_def)
    next
      case no: False
      obtain f where f: "meld_roll_back up m f (c\<lparr> conn := k\<lparr> working := Some w \<rparr> \<rparr>) = (c', r)"
        using t a n' e k no by (cases b) (auto simp: meld_transaction_def Let_def split: if_splits)
      show ?thesis using meld_roll_back_outcome [OF h a(2) n' f i refl] W by (auto simp: D_def)
    qed
  qed
qed

section \<open>One contract for both adapters\<close>

interpretation meld: truthful_scope "meld_transaction up True w" "\<lambda>c. idle c \<and> honest ok up"
  "\<lambda>c. committed (conn c)" "\<lambda>c. query_only (conn c) \<or> \<not> w" ok for ok and up and w
  by unfold_locales (blast dest: meld_transaction_outcome [OF _ _ _ refl])

section \<open>The adapters agree\<close>






section \<open>maintain_sqlite\<close>

record maintenance_report =
  mr_statistics :: string
  mr_busy :: int
  mr_log_frames :: int
  mr_checkpointed :: int

text \<open>
  The control connection of the direct adapter: whether it opens, its settings and statistics
  statements, the row of \<open>PRAGMA wal_checkpoint\<close>, and its close.
\<close>

record control =
  ct_open :: "failure option"
  ct_statistics :: "failure option"
  ct_checkpoint :: "failure + int \<times> int \<times> int"
  ct_close :: "failure option"

definition maintain_guard :: "bool \<Rightarrow> handle \<Rightarrow> handle \<times> unit res" where
  "maintain_guard here h =
     (case require_idle here h of
        (h1, Inl e) \<Rightarrow> (h1, Inl e)
      | (h1, Inr _) \<Rightarrow>
          (h1, require (h_exclusive h1 \<and> h_readers h1 = 0 \<and> h_path h1 \<noteq> None) TransactionError
                 ''SQLite maintenance requires an exclusive file-backed catalog''))"

definition maintain_args :: "pyval \<Rightarrow> pyval \<Rightarrow> bool res" where
  "maintain_args analyze checkpoint =
     ebind (expect (as_bool analyze) ValidationError ''Use boolean analyze and passive/truncate checkpoint'') (\<lambda>a.
     ebind (require (checkpoint \<in> {PStr ''passive'', PStr ''truncate''}) ValidationError
              ''Use boolean analyze and passive/truncate checkpoint'') (\<lambda>_.
     Inr a))"

definition frame :: "int option \<Rightarrow> int" where
  "frame v = (case v of None \<Rightarrow> - 1 | Some n \<Rightarrow> n)"

text \<open>The answer of MeldDB's own \<open>maintain_sqlite\<close>, in the form that the catalog gives it.\<close>

definition meld_maintain ::
  "failure + string \<times> bool \<times> int option \<times> int option \<Rightarrow> maintenance_report tx_result" where
  "meld_maintain answer =
     (case answer of
        Inl f \<Rightarrow> Failed (if is_exception f then translate f else f)
      | Inr (action, waits, frames, completed) \<Rightarrow>
          Returned \<lparr> mr_statistics = action, mr_busy = of_bool waits, mr_log_frames = frame frames,
                     mr_checkpointed = frame completed \<rparr>)"

text \<open>\<open>ANALYZE sqlite_schema\<close>, which reloads the statistics and changes no data of the catalog\<close>

definition reload :: "driver_error option \<Rightarrow> ('d, unit) prog" where
  "reload bad =
     Sql \<lparr> st_allowed = True, st_writes = True,
           st_run = (\<lambda>d. case bad of None \<Rightarrow> Inr ((), d) | Some e \<Rightarrow> Inl e) \<rparr>
       (\<lambda>r. case r of Inl f \<Rightarrow> Throw f | Inr x \<Rightarrow> Return x)"

definition direct_maintain ::
  "('d \<Rightarrow> bool) \<Rightarrow> control \<Rightarrow> driver_error option \<Rightarrow> faults \<Rightarrow> bool \<Rightarrow> bool \<Rightarrow> 'd catalog
   \<Rightarrow> 'd catalog \<times> maintenance_report tx_result" where
  "direct_maintain ok ct bad fs here analyze c =
     (case ct_open ct of
        Some f \<Rightarrow> (c, Failed f)
      | None \<Rightarrow>
          (case (case ct_statistics ct of
                   Some f \<Rightarrow> (c, Failed (translate f))
                 | None \<Rightarrow>
                     (case transaction ok here True fs (reload bad) c of
                        (c', Failed f) \<Rightarrow> (c', Failed f)
                      | (c', Uncertain k ph o') \<Rightarrow> (c', Uncertain k ph o')
                      | (c', Returned _) \<Rightarrow>
                          (case ct_checkpoint ct of
                             Inl f \<Rightarrow> (c', Failed (translate f))
                           | Inr (waits, frames, completed) \<Rightarrow>
                               (c', Returned \<lparr> mr_statistics = (if analyze then ''analyze'' else ''optimize''),
                                 mr_busy = waits, mr_log_frames = frames, mr_checkpointed = completed \<rparr>)))) of
             (c', r) \<Rightarrow> (c', case ct_close ct of None \<Rightarrow> r | Some f \<Rightarrow> Failed f)))"

text \<open>
  \<open>maintain_sqlite\<close>: the handle has the mode, the readers and the path of the catalog, \<open>c\<close> its
  connection.
\<close>

definition maintain_sqlite ::
  "('d \<Rightarrow> bool) \<Rightarrow> string \<Rightarrow> (failure + string \<times> bool \<times> int option \<times> int option) \<Rightarrow> control
   \<Rightarrow> driver_error option \<Rightarrow> faults \<Rightarrow> bool \<Rightarrow> pyval \<Rightarrow> pyval \<Rightarrow> handle \<times> 'd catalog
   \<Rightarrow> (handle \<times> 'd catalog) \<times> maintenance_report tx_result" where
  "maintain_sqlite ok adapter answer ct bad fs here analyze checkpoint s =
     (case s of (h, c) \<Rightarrow>
       (case maintain_guard here h of
          (h1, Inl e) \<Rightarrow> ((h1, c), Failed (Raised e))
        | (h1, Inr _) \<Rightarrow>
            (case maintain_args analyze checkpoint of
               Inl e \<Rightarrow> ((h1, c), Failed (Raised e))
             | Inr a \<Rightarrow>
                 if adapter = ''melddb'' then ((h1, c), meld_maintain answer)
                 else (case direct_maintain ok ct bad fs here a c of (c', r) \<Rightarrow> ((h1, c'), r)))))"

lemma reload_keeps: "body_result (reload bad) qo d = d"
  by (cases bad) (auto simp: body_result_def reload_def tx_sql_def run_stmt_def)

text \<open>Maintenance never changes the committed data, and runs only in an exclusive catalog of a file.\<close>

lemma maintain_keeps_data:
  assumes "maintain_sqlite ok adapter answer ct bad fs True analyze checkpoint (h, c) = ((h', c'), r)" "idle c"
  shows "committed (conn c') = committed (conn c) \<and>
    (\<forall>x. r = Returned x \<longrightarrow> h_exclusive h \<and> h_readers h = 0 \<and> h_path h \<noteq> None)"
proof -
  have keep: "committed (conn c1) = committed (conn c)" if "transaction ok True True fs (reload bad) c = (c1, r1)" for c1 r1
  proof -
    have "outcome_true r1 (committed (conn c)) (committed (conn c)) (committed (conn c1))"
      using transaction_outcome [OF that assms(2) refl] by (simp add: reload_keeps)
    then show ?thesis
      by (cases "(r1, committed (conn c), committed (conn c), committed (conn c1))" rule: outcome_true.cases) simp_all
  qed
  have d: "committed (conn c1) = committed (conn c)" if "direct_maintain ok ct bad fs True a c = (c1, r1)" for a c1 r1
    using that keep
    by (auto simp: direct_maintain_def split: option.splits sum.splits prod.splits tx_result.splits)
  have g: "snd (maintain_guard True h) = Inr () \<Longrightarrow> h_exclusive h \<and> h_readers h = 0 \<and> h_path h \<noteq> None"
    by (auto simp: maintain_guard_def require_idle_def require_def ensure_def split: sum.splits if_splits)
  show ?thesis
    using assms(1) d g by (auto simp: maintain_sqlite_def split: prod.splits sum.splits if_splits)
qed

section \<open>Properties\<close>









end
