(* ===== verification/Spec2Isabelle.thy ===== *)
theory Spec2Isabelle
  imports MaintenanceProperties SqlText MigrationProperties AccessProperties S3Properties BackupProperties ValueProperties Adapters
begin

text \<open>
  MeldStore keeps blobs together with relational metadata: the payloads are immutable objects under a
  local root or an S3 prefix, and an SQLite catalog holds the declared schemas, the typed metadata, the
  journal of uploads, and the retirements with their cleanup intents. This development models the library
  \<^verbatim>\<open>src/src/meldstore\<close> and proves what makes it correct. Every definition is named after
  the function, class or SQL statement that it translates.

  \<^bold>\<open>Foundations.\<close> \<open>Prelude\<close>: error-propagating sequencing (\<open>ebind\<close>, \<open>emapM\<close>), rows
  with keys, the collections \<open>table_simps\<close> and \<open>op_defs\<close>. \<open>Errors\<close>
  (\<^verbatim>\<open>errors.py\<close>): exceptions as values with the class hierarchy. \<open>PyText\<close>,
  \<open>Datetimes\<close>: strings as UTF-8 bytes, hexadecimal and decimal text, the Gregorian calendar. \<open>Actions\<close>:
  code that changes a state outside the database and may fail on the way, with Hoare triples. \<open>JsonText\<close>,
  \<open>JsonFacts\<close>: the JSON values that \<open>json.dumps\<close> accepts, its text and the bounds of its length.

  \<^bold>\<open>Declarations and queries.\<close> \<open>Schema\<close>, \<open>Declarations\<close> (\<^verbatim>\<open>schema.py\<close>):
  \<open>Field\<close>, \<open>Index\<close>, \<open>BlobSchema\<close>, their checks, the normalisation of metadata, the canonical
  definition and \<open>migrations.decode\<close>. \<open>Query\<close>, \<open>Keyset\<close> (\<^verbatim>\<open>query.py\<close>): compiled
  queries, and their meaning in SQLite's three-valued logic. \<open>DeclarationProperties\<close>: round trips, order
  independence, the keyset condition as the order relation, consecutive pages.

  \<^bold>\<open>Transactions and access.\<close> \<open>Catalog\<close> (\<^verbatim>\<open>catalog.py\<close>): a transaction over
  \<^verbatim>\<open>sqlite3\<close>, where the body is a program of statements and operations, and every driver call may fail;
  the abstract specification is \<open>transact\<close>, an atomic step on the committed data, and the locale
  \<open>atomic_runner\<close> states what its clients rely on. \<open>Adapters\<close>: the same over MeldDB's context manager,
  a parameter with its documented contract \<open>honest\<close>, and \<open>maintain_sqlite\<close>; the locale
  \<open>truthful_scope\<close> is what both adapters promise. \<open>SqlText\<close>: \<open>Transaction.sql\<close>'s check of SQL text
  against what SQLite reads. \<open>Access\<close> (\<^verbatim>\<open>access.py\<close>): a lease as a sequence of SQLite
  statements on a gate file, and the interleavings of any number of participants as a step relation.
  \<open>Opening\<close>: opening, binding, guarding and closing a catalog. \<open>AccessProperties\<close>: exclusion, bounded
  acquisition, no lease left behind.

  \<^bold>\<open>The catalog.\<close> \<open>Tables\<close>: the tables as lists of rows, \<open>sqlite_master\<close> as the list of installed
  objects, the statements with their constraints, triggers and references. \<open>Install\<close>
  (\<^verbatim>\<open>installation.py\<close>, \<^verbatim>\<open>payload_catalog.py\<close>,
  \<^verbatim>\<open>encodings.py\<close>, \<^verbatim>\<open>lifecycle.py\<close>): the layers of the format.
  \<open>Store\<close> (\<^verbatim>\<open>store.py\<close>), \<open>Lifecycle\<close> (\<^verbatim>\<open>lifecycle.py\<close>),
  \<open>Maintenance\<close> (\<^verbatim>\<open>maintenance.py\<close>): the operations as functions on the database
  \<open>db\<close>, errors included. \<open>Invariants\<close>, \<open>RowInvariants\<close>, \<open>Installing\<close>, \<open>NewCatalog\<close>,
  \<open>Operations\<close>, \<open>Progress\<close>, \<open>Links\<close>: the invariant \<open>consistent\<close> (keys, references, complete
  blobs, intents that spare live objects, typed rows), that every operation keeps it, and what no operation
  forgets.

  \<^bold>\<open>Storage and the system.\<close> \<open>Storage\<close>, \<open>LocalRoot\<close> (\<^verbatim>\<open>storage.py\<close>): a
  root as a map from object paths to bytes, create-only uploads, verified reads, the identity marker. \<open>S3\<close>
  (\<^verbatim>\<open>s3.py\<close>): argument checks, the identity protocol, uploads. The locale
  \<open>object_target\<close> is what a copy needs of either; both are interpretations. \<open>System\<close>: the catalog, one
  root and the uploads under way, with the transactions, uploads, removals and migrations of all participants
  in any order (\<open>step\<close>, \<open>reach\<close>); the invariant links the journal to the stored bytes.
  \<open>SystemProperties\<close>, \<open>MaintenanceProperties\<close>, \<open>SampleRun\<close>: live blobs verify, payloads are
  immutable, retirement is final, cleanup is safe, truthful and itself a run of the system.

  \<^bold>\<open>Whole calls.\<close> \<open>Codecs\<close> (\<^verbatim>\<open>handlers.py\<close>): the registry and the built-in
  codecs over the operations of the optional libraries. \<open>Values\<close> (\<^verbatim>\<open>store.py\<close>,
  \<^verbatim>\<open>exporting.py\<close>): \<open>import_file\<close>, \<open>put\<close>, \<open>get\<close>, \<open>materialize\<close> and
  \<open>export_file\<close> as sequences of transactions, uploads and callbacks. \<open>ValueFacts\<close> states the contract of
  a codec as the locale \<open>lossless_codec\<close>, interpreted for byte strings, Arrow tables and Polars frames;
  \<open>ValueProperties\<close>: what is put is got, what is imported is exported, an export replaces nothing.

  \<^bold>\<open>Migrations.\<close> \<open>Migration\<close> (\<^verbatim>\<open>migrations.py\<close>): plans, the rebuild of a data
  table, batches, checkpoints, dry runs and the loop of a run. \<open>MigrationSteps\<close>, \<open>MigrationRuns\<close>,
  \<open>MigrationStart\<close>, \<open>MigrationInvariants\<close>, \<open>MigrationOutcome\<close>, \<open>MigrationResume\<close>,
  \<open>SampleMigration\<close>, \<open>MigrationProperties\<close>: effect, progress and preservation of each part, and that a
  run returns, transforms every row once, can be cut and resumed, and is predicted by its dry run.

  \<^bold>\<open>Backups.\<close> \<open>BackupChecks\<close>, \<open>Backup\<close> (\<^verbatim>\<open>backup.py\<close>): the checks of paths,
  applications and catalogs, the SQL export, the manifest, and backup, restore and transfer as sequences of
  steps that may each fail. \<open>BackupFacts\<close>, \<open>ManifestFacts\<close>, \<open>BackupRuns\<close>, \<open>SampleBackup\<close>,
  \<open>BackupProperties\<close>: a backup restores, a published catalog is complete, an unfinished backup is refused.
\<close>

text \<open>
  \<^bold>\<open>Correspondence of states.\<close> An open database is a record of tables; a connection adds what is
  committed, what the open transaction sees, and \<open>query_only\<close>. A catalog handle keeps the flags of the
  Python object (\<open>h_closed\<close>, \<open>h_broken\<close>, \<open>h_active\<close>, \<open>h_readers\<close>, its leases). Exceptions are
  \<open>Err class text\<close>, where the text has no interpolated values; results are \<open>error + 'a\<close>. Integers are
  unbounded as in Python, and every place where SQLite needs 64 bits checks for it (\<open>bind_params\<close> and the
  \<open>CHECK\<close>s). The hash XXH3-128, fresh identifiers, \<open>json.loads\<close>, SQLite's file format, the renderings
  of floats, validators, transformations and codecs of the application, and the S3 service are parameters;
  what is assumed of them stands in the theorems.

  \<^bold>\<open>Bounds and fuel.\<close> The loops of a migration are partial functions in the option monad, and that they
  return is proved from the decreasing number of source rows. A lease takes at most six statements, which is
  proved. \<open>issubclass\<close> descends six classes, one more than the hierarchy is deep. The manifest limit of
  \<open>65536 + 2048 n\<close> bytes is proved to be enough for \<open>n\<close> entries.

  \<^bold>\<open>Not modelled.\<close> The MeldDB package is not in the repository; what its manager does is a parameter.
  What SQLite's maintenance does to statistics and log is outside the data; \<open>install_query_indexes\<close>
  adds an index that no condition depends on. Coordination hooks of migrations are application code that may
  change anything: runs execute them, the properties are for plans without them. A wrapper that opens a
  transaction around an operation is the composition with \<open>transact\<close>. Threads, timeouts and
  garbage collection of handles, the tools, examples and tests of the repository are left out.
\<close>

end
